(* ===== verification/Prelude.thy ===== *)
theory Prelude
  imports Main "HOL-Library.Char_ord" "HOL-Library.List_Lexorder" "HOL-Library.Sublist"
begin

text \<open>
  Shared vocabulary of the development: the collections of rewrite rules the component
  proofs use, the result type of fallible Go functions, two's-complement wrap-around of
  Go's 64-bit \<open>int\<close>, and the generic lemmas on strings with a separator and on
  sorted association lists.
\<close>

named_theorems go_defs \<open>definitions of small Go helpers that proofs unfold\<close>
named_theorems key_simps \<open>facts about the composite keys of the storage layer\<close>
named_theorems tx_simps \<open>laws of the storage transaction interface\<close>

text \<open>A Go function that returns \<open>(T, error)\<close>; the left summand is the error.\<close>

type_synonym goerror = string
type_synonym 'a fallible = "goerror + 'a"

text \<open>
  \<open>andThen m f\<close> is \<open>x, err := m; if err != nil { return err }; f(x)\<close>, and \<open>wrapErr\<close> prefixes the
  message of an error the way \<open>fmt.Errorf\<close> does on the way out.
\<close>

fun andThen :: "'e + 'a \<Rightarrow> ('a \<Rightarrow> 'e + 'b) \<Rightarrow> 'e + 'b" where
  "andThen (Inl e) f = Inl e"
| "andThen (Inr x) f = f x"

fun wrapErr :: "string \<Rightarrow> 'a fallible \<Rightarrow> 'a fallible" where
  "wrapErr msg (Inl e) = Inl (msg @ e)"
| "wrapErr msg (Inr x) = Inr x"

lemma andThen_Inr_iff [simp]: "andThen m f = Inr y \<longleftrightarrow> (\<exists>x. m = Inr x \<and> f x = Inr y)"
  by (cases m) auto

lemma wrapErr_Inr_iff [simp]: "wrapErr msg m = Inr x \<longleftrightarrow> m = Inr x"
  by (cases m) auto

lemma case_sum_Inr_iff [simp]:
  "(case m of Inl e \<Rightarrow> Inl (g e) | Inr x \<Rightarrow> f x) = Inr y \<longleftrightarrow> (\<exists>x. m = Inr x \<and> f x = Inr y)"
  by (cases m) auto

text \<open>The verb \<open>%q\<close> on text without characters it would escape.\<close>

definition quoted :: "string \<Rightarrow> string" where
  "quoted s = CHR 0x22 # s @ [CHR 0x22]"

section \<open>64-bit integers\<close>

definition wrap64 :: "int \<Rightarrow> int" where
  "wrap64 x = (x + 2 ^ 63) mod 2 ^ 64 - 2 ^ 63"

lemma wrap64_id: "- (2 ^ 63) \<le> x \<Longrightarrow> x < 2 ^ 63 \<Longrightarrow> wrap64 x = x"
  by (simp add: wrap64_def)

lemma wrap64_range: "- (2 ^ 63) \<le> wrap64 x" "wrap64 x < 2 ^ 63"
  using pos_mod_bound [of "2 ^ 64" "x + 2 ^ 63"] by (simp_all add: wrap64_def)

section \<open>Strings with a separator\<close>

text \<open>
  Composite keys are joined with a colon. A component without a colon can be recovered:
  the first colon of the joined string is the separator.
\<close>

abbreviation colon :: char where
  "colon \<equiv> CHR '':''"

definition no_colon :: "string \<Rightarrow> bool" where
  "no_colon s \<longleftrightarrow> colon \<notin> set s"

lemma append_sep_inject:
  assumes "c \<notin> set a" "c \<notin> set a'"
  shows "a @ c # b = a' @ c # b' \<longleftrightarrow> a = a' \<and> b = b'"
proof
  assume eq: "a @ c # b = a' @ c # b'"
  have "takeWhile (\<lambda>x. x \<noteq> c) (a @ c # b) = a" "takeWhile (\<lambda>x. x \<noteq> c) (a' @ c # b') = a'"
    using assms by (auto simp: takeWhile_append)
  with eq show "a = a' \<and> b = b'" by auto
qed auto

lemma no_colon_append_inject [key_simps]:
  "no_colon a \<Longrightarrow> no_colon a' \<Longrightarrow> a @ colon # b = a' @ colon # b' \<longleftrightarrow> a = a' \<and> b = b'"
  unfolding no_colon_def by (rule append_sep_inject)

lemma prefix_append_sep:
  "prefix (p @ q) (p @ r) \<longleftrightarrow> prefix q r"
  by (simp add: prefix_def)

lemma prefix_sep_iff [key_simps]:
  assumes "no_colon a" "no_colon a'"
  shows "prefix (a @ colon # b) (a' @ colon # b') \<longleftrightarrow> a = a' \<and> prefix b b'"
  using assms by (auto simp: prefix_def no_colon_append_inject)

lemma append_less_iff [simp]: "(p @ a < p @ b) \<longleftrightarrow> (a :: string) < b"
  by (induction p) simp_all

lemma append_le_iff [simp]: "(p @ a \<le> p @ b) \<longleftrightarrow> (a :: string) \<le> b"
  by (induction p) simp_all

lemma prefix_imp_le: "prefix p k \<Longrightarrow> (p :: string) \<le> k"
  by (auto simp: prefix_def) (metis append_Nil2 append_le_iff Nil_le_Cons neq_Nil_conv order_refl)

text \<open>The strings with a given prefix form an interval of the byte order.\<close>

lemma prefix_interval: "(p :: string) \<le> k \<Longrightarrow> k \<le> p @ r \<Longrightarrow> prefix p k"
proof (induction p arbitrary: k)
  case (Cons c p)
  then show ?case by (cases k) auto
qed simp

section \<open>Sorted association lists\<close>

abbreviation sorted_keys :: "('k::linorder \<times> 'v) list \<Rightarrow> bool" where
  "sorted_keys kvs \<equiv> sorted_wrt (<) (map fst kvs)"

lemma sorted_keys_distinct: "sorted_keys kvs \<Longrightarrow> distinct (map fst kvs)"
  using strict_sorted_iff by blast

lemma sorted_keys_map_of:
  "sorted_keys kvs \<Longrightarrow> map_of kvs k = Some v \<longleftrightarrow> (k, v) \<in> set kvs"
  by (simp add: sorted_keys_distinct)

lemma dropWhile_sorted_filter:
  "sorted_keys kvs \<Longrightarrow> dropWhile (\<lambda>(k', _). k' < k) kvs = filter (\<lambda>(k', _). k \<le> k') kvs"
proof (induction kvs)
  case (Cons kv kvs)
  show ?case
  proof (cases "fst kv < k")
    case True
    with Cons show ?thesis by (auto simp: split_def)
  next
    case False
    then have "\<forall>x \<in> set (kv # kvs). k \<le> fst x"
      using Cons.prems by fastforce
    then have "filter (\<lambda>(k', _). k \<le> k') (kv # kvs) = kv # kvs"
      by (auto simp: filter_id_conv)
    with False show ?thesis by (simp add: split_def)
  qed
qed simp


lemma takeWhile_prefix_filter:
  assumes "sorted_keys kvs" "\<forall>(k, v) \<in> set kvs. (p :: string) \<le> k"
  shows "takeWhile (\<lambda>(k, v). prefix p k) kvs = filter (\<lambda>(k, v). prefix p k) kvs"
  using assms
proof (induction kvs)
  case (Cons kv kvs)
  show ?case
  proof (cases "prefix p (fst kv)")
    case True
    with Cons show ?thesis by (auto simp: split_def)
  next
    case False
    have "\<not> prefix p k" if "(k, v) \<in> set kvs" for k v
    proof
      assume "prefix p k"
      then obtain r where "k = p @ r" by (auto simp: prefix_def)
      moreover have "fst kv \<le> k" using Cons.prems(1) that by (auto intro: order_less_imp_le)
      ultimately show False using Cons.prems(2) False prefix_interval [of p "fst kv" r] by auto
    qed
    then have "filter (\<lambda>(k, v). prefix p k) kvs = []" by (auto simp: filter_empty_conv)
    with False show ?thesis by (simp add: split_def)
  qed
qed simp

end
