(* ===== verification/GoTime.thy ===== *)
theory GoTime
  imports Prelude
begin

text \<open>
  What the program uses of Go's package \<open>time\<close>. A \<open>Time\<close> is an instant, counted in
  nanoseconds since 0001-01-01T00:00:00Z (Go's zero time), with the offset in minutes it
  is displayed with. The civil calendar is the proleptic Gregorian one.
\<close>

record Time =
  tNanos :: int
  tOffset :: int

definition nanosPerSecond :: int where
  "nanosPerSecond = 1000000000"

definition ZeroTime :: Time where
  "ZeroTime = \<lparr>tNanos = 0, tOffset = 0\<rparr>"

definition IsZero :: "Time \<Rightarrow> bool" where
  "IsZero t \<longleftrightarrow> tNanos t = 0"

definition Before :: "Time \<Rightarrow> Time \<Rightarrow> bool" where
  "Before t u \<longleftrightarrow> tNanos t < tNanos u"

definition After :: "Time \<Rightarrow> Time \<Rightarrow> bool" where
  "After t u \<longleftrightarrow> tNanos u < tNanos t"

definition Equal :: "Time \<Rightarrow> Time \<Rightarrow> bool" where
  "Equal t u \<longleftrightarrow> tNanos t = tNanos u"

definition UTC :: "Time \<Rightarrow> Time" where
  "UTC t = t\<lparr>tOffset := 0\<rparr>"

definition Add :: "Time \<Rightarrow> int \<Rightarrow> Time" where
  "Add t d = t\<lparr>tNanos := tNanos t + d\<rparr>"

text \<open>\<open>Sub\<close> saturates at the ends of the 64-bit \<open>Duration\<close> range.\<close>

definition Sub :: "Time \<Rightarrow> Time \<Rightarrow> int" where
  "Sub t u = max (- (2 ^ 63)) (min (2 ^ 63 - 1) (tNanos t - tNanos u))"

lemmas time_defs [go_defs] = IsZero_def Before_def After_def Equal_def UTC_def Add_def

lemma tNanos_UTC [simp]: "tNanos (UTC t) = tNanos t"
  by (simp add: UTC_def)

lemma tNanos_Add [simp]: "tNanos (Add t d) = tNanos t + d"
  by (simp add: Add_def)

section \<open>Civil dates\<close>

text \<open>\<open>daysBeforeYear y\<close> is the number of days from 0001-01-01 to January 1 of year \<open>y\<close>.\<close>

definition isLeap :: "int \<Rightarrow> bool" where
  "isLeap y \<longleftrightarrow> y mod 4 = 0 \<and> (y mod 100 \<noteq> 0 \<or> y mod 400 = 0)"

definition daysBeforeYear :: "int \<Rightarrow> int" where
  "daysBeforeYear y = 365 * (y - 1) + (y - 1) div 4 - (y - 1) div 100 + (y - 1) div 400"

definition daysInMonth :: "int \<Rightarrow> int \<Rightarrow> int" where
  "daysInMonth y m =
     (if m = 2 then (if isLeap y then 29 else 28)
      else if m = 4 \<or> m = 6 \<or> m = 9 \<or> m = 11 then 30 else 31)"

definition daysBeforeMonth :: "int \<Rightarrow> int \<Rightarrow> int" where
  "daysBeforeMonth y m =
     (if m \<le> 1 then 0 else if m = 2 then 31
      else (if m = 3 then 59 else if m = 4 then 90 else if m = 5 then 120 else if m = 6 then 151
            else if m = 7 then 181 else if m = 8 then 212 else if m = 9 then 243
            else if m = 10 then 273 else if m = 11 then 304 else 334)
           + (if isLeap y then 1 else 0))"

text \<open>The day number of a date; the month may lie outside 1..12 and the day outside the month.\<close>

definition dayNumber :: "int \<Rightarrow> int \<Rightarrow> int \<Rightarrow> int" where
  "dayNumber year month day =
     (let y = year + (month - 1) div 12; m = (month - 1) mod 12 + 1
      in daysBeforeYear y + daysBeforeMonth y m + day - 1)"

definition yearOfDay :: "int \<Rightarrow> int" where
  "yearOfDay d =
     (let n400 = d div 146097; d1 = d mod 146097;
          n100 = min 3 (d1 div 36524); d2 = d1 - 36524 * n100;
          n4 = d2 div 1461; d3 = d2 mod 1461;
          n1 = min 3 (d3 div 365)
      in 400 * n400 + 100 * n100 + 4 * n4 + n1 + 1)"

definition monthOfDay :: "int \<Rightarrow> int" where
  "monthOfDay d =
     (let y = yearOfDay d; yd = d - daysBeforeYear y; b = daysBeforeMonth y
      in if yd < b 2 then 1 else if yd < b 3 then 2 else if yd < b 4 then 3
         else if yd < b 5 then 4 else if yd < b 6 then 5 else if yd < b 7 then 6
         else if yd < b 8 then 7 else if yd < b 9 then 8 else if yd < b 10 then 9
         else if yd < b 11 then 10 else if yd < b 12 then 11 else 12)"

definition mdayOfDay :: "int \<Rightarrow> int" where
  "mdayOfDay d = d - daysBeforeYear (yearOfDay d) - daysBeforeMonth (yearOfDay d) (monthOfDay d) + 1"

text \<open>0001-01-01 was a Monday; Go numbers the days of the week from Sunday = 0.\<close>

definition weekdayOfDay :: "int \<Rightarrow> int" where
  "weekdayOfDay d = (d + 1) mod 7"

definition leapDay :: "int \<Rightarrow> int" where
  "leapDay y = (if isLeap y then 1 else 0)"

section \<open>Locations, clocks and dates\<close>

text \<open>
  A \<open>*time.Location\<close> is its zone lookup: for an instant in seconds, the offset in force
  and the half-open interval of instants \<open>[start, end)\<close> over which it is in force. The
  time zone database is data outside the repository, so locations are parameters.
\<close>

record Location =
  locLookup :: "int \<Rightarrow> int \<times> int \<times> int"

definition utcLoc :: Location where
  "utcLoc = \<lparr>locLookup = (\<lambda>_. (0, - (2 ^ 63), 2 ^ 63 - 1))\<rparr>"

definition unixSec :: "Time \<Rightarrow> int" where
  "unixSec t = tNanos t div nanosPerSecond"

definition Nanosecond :: "Time \<Rightarrow> int" where
  "Nanosecond t = tNanos t mod nanosPerSecond"

definition localSec :: "Location \<Rightarrow> Time \<Rightarrow> int" where
  "localSec loc t = unixSec t + fst (locLookup loc (unixSec t))"

definition Year :: "Location \<Rightarrow> Time \<Rightarrow> int" where
  "Year loc t = yearOfDay (localSec loc t div 86400)"

definition Month :: "Location \<Rightarrow> Time \<Rightarrow> int" where
  "Month loc t = monthOfDay (localSec loc t div 86400)"

definition Day :: "Location \<Rightarrow> Time \<Rightarrow> int" where
  "Day loc t = mdayOfDay (localSec loc t div 86400)"

definition Weekday :: "Location \<Rightarrow> Time \<Rightarrow> int" where
  "Weekday loc t = weekdayOfDay (localSec loc t div 86400)"

definition Hour :: "Location \<Rightarrow> Time \<Rightarrow> int" where
  "Hour loc t = localSec loc t mod 86400 div 3600"

definition Minute :: "Location \<Rightarrow> Time \<Rightarrow> int" where
  "Minute loc t = localSec loc t mod 3600 div 60"

definition Second :: "Location \<Rightarrow> Time \<Rightarrow> int" where
  "Second loc t = localSec loc t mod 60"

text \<open>
  \<open>time.Date\<close>: the wall clock reading is first taken as UTC; the offset in force there is
  tried, and looked up again when the corrected instant lies outside the interval it is
  in force in.
\<close>

definition Date :: "int \<Rightarrow> int \<Rightarrow> int \<Rightarrow> int \<Rightarrow> int \<Rightarrow> int \<Rightarrow> int \<Rightarrow> Location \<Rightarrow> Time" where
  "Date year month day hour minute sec nsec loc =
     (let unix = dayNumber year month day * 86400 + hour * 3600 + minute * 60 + sec
                 + nsec div nanosPerSecond;
          ns = nsec mod nanosPerSecond;
          (off, start, stop) = locLookup loc unix;
          off' = (if off \<noteq> 0
                  then (let utc = unix - off
                        in if utc < start \<or> stop \<le> utc then fst (locLookup loc utc) else off)
                  else 0)
      in \<lparr>tNanos = (unix - off') * nanosPerSecond + ns, tOffset = off' div 60\<rparr>)"

definition AddDate :: "Location \<Rightarrow> Time \<Rightarrow> int \<Rightarrow> int \<Rightarrow> int \<Rightarrow> Time" where
  "AddDate loc t years months days =
     Date (Year loc t + years) (Month loc t + months) (Day loc t + days)
       (Hour loc t) (Minute loc t) (Second loc t) (Nanosecond t) loc"

section \<open>RFC 3339\<close>

definition digitChar :: "int \<Rightarrow> char" where
  "digitChar n = char_of (48 + nat n)"

text \<open>The last \<open>k\<close> decimal digits of a number.\<close>

fun digits :: "nat \<Rightarrow> int \<Rightarrow> string" where
  "digits 0 n = []"
| "digits (Suc k) n = digits k (n div 10) @ [digitChar (n mod 10)]"

fun decimal :: "nat \<Rightarrow> string" where
  "decimal n = (if n < 10 then [digitChar (int n)] else decimal (n div 10) @ [digitChar (int n mod 10)])"

declare decimal.simps [simp del]

text \<open>\<open>appendInt(b, x, width)\<close> of package \<open>time\<close>: at least \<open>width\<close> digits, a minus sign first.\<close>

definition appendInt :: "int \<Rightarrow> nat \<Rightarrow> string" where
  "appendInt x width =
     (if x < 0 then ''-'' else []) @
     (if \<bar>x\<bar> < 10 ^ width then digits width \<bar>x\<bar> else decimal (nat \<bar>x\<bar>))"

text \<open>The fraction \<open>.999999999\<close>: trailing zeros are dropped, and the point with them.\<close>

definition formatFraction :: "int \<Rightarrow> string" where
  "formatFraction ns =
     (let ds = rev (dropWhile (\<lambda>c. c = CHR ''0'') (rev (digits 9 ns)))
      in if ds = [] then [] else CHR ''.'' # ds)"

definition formatZone :: "int \<Rightarrow> string" where
  "formatZone off =
     (if off = 0 then ''Z''
      else (if off < 0 then ''-'' else ''+'') @ appendInt (\<bar>off\<bar> div 60) 2 @ '':'' @ appendInt (\<bar>off\<bar> mod 60) 2)"

text \<open>\<open>t.Format(time.RFC3339Nano)\<close>.\<close>

definition FormatRFC3339Nano :: "Time \<Rightarrow> string" where
  "FormatRFC3339Nano t =
     (let s = unixSec t + 60 * tOffset t; d = s div 86400; r = s mod 86400
      in appendInt (yearOfDay d) 4 @ ''-'' @ appendInt (monthOfDay d) 2 @ ''-'' @ appendInt (mdayOfDay d) 2
         @ ''T'' @ appendInt (r div 3600) 2 @ '':'' @ appendInt (r mod 3600 div 60) 2
         @ '':'' @ appendInt (r mod 60) 2 @ formatFraction (Nanosecond t) @ formatZone (tOffset t))"

text \<open>\<open>Time.MarshalJSON\<close> rejects a year outside 0..9999 and a zone of a day or more.\<close>

definition jsonTimeOK :: "Time \<Rightarrow> bool" where
  "jsonTimeOK t \<longleftrightarrow>
     (let y = yearOfDay ((unixSec t + 60 * tOffset t) div 86400)
      in 0 \<le> y \<and> y \<le> 9999 \<and> \<bar>tOffset t\<bar> < 24 * 60)"

section \<open>The calendar is a bijection\<close>

lemma yearOfDay_decomp:
  obtains a b c e r :: int where
    "d = 146097 * a + 36524 * b + 1461 * c + 365 * e + r"
    "yearOfDay d = 400 * a + 100 * b + 4 * c + e + 1"
    "0 \<le> b" "b \<le> 3" "0 \<le> c" "c \<le> 24" "0 \<le> e" "e \<le> 3" "0 \<le> r"
    "r \<le> 364 \<or> (r = 365 \<and> e = 3 \<and> (c = 24 \<longrightarrow> b = 3))"
proof -
  define a d1 where "a = d div 146097" and "d1 = d mod 146097"
  define b where "b = min 3 (d1 div 36524)"
  define d2 where "d2 = d1 - 36524 * b"
  define c d3 where "c = d2 div 1461" and "d3 = d2 mod 1461"
  define e where "e = min 3 (d3 div 365)"
  define r where "r = d3 - 365 * e"
  have d: "d = 146097 * a + d1" "0 \<le> d1" "d1 < 146097"
    by (simp_all add: a_def d1_def)
  have b: "0 \<le> b" "b \<le> 3" "0 \<le> d2" "d2 \<le> 36524" "d2 = 36524 \<longrightarrow> b = 3"
    using d(2,3) unfolding b_def d2_def by auto
  have c: "d2 = 1461 * c + d3" "0 \<le> d3" "d3 < 1461"
    by (simp_all add: c_def d3_def)
  have c': "0 \<le> c" "c \<le> 24"
    using b(3,4) unfolding c_def by auto
  have e: "0 \<le> e" "e \<le> 3" "0 \<le> r" "r \<le> 365" "r = 365 \<longrightarrow> e = 3"
    using c(2,3) unfolding e_def r_def by auto
  have "yearOfDay d = 400 * a + 100 * b + 4 * c + e + 1"
    by (simp only: yearOfDay_def Let_def a_def d1_def b_def d2_def c_def d3_def e_def)
  moreover have "d = 146097 * a + 36524 * b + 1461 * c + 365 * e + r"
    using d(1) c(1) unfolding d2_def r_def by simp
  moreover have "r \<le> 364 \<or> (r = 365 \<and> e = 3 \<and> (c = 24 \<longrightarrow> b = 3))"
    using b(4,5) c(1) e unfolding r_def by auto
  ultimately show ?thesis using that b(1,2) c' e(1-3) by blast
qed

lemma daysBeforeYear_cycles:
  assumes "0 \<le> b" "b \<le> 3" "0 \<le> c" "c \<le> 24" "0 \<le> e" "e \<le> 3"
  shows "daysBeforeYear (400 * a + 100 * b + 4 * c + e + 1)
    = 146097 * a + 36524 * b + 1461 * c + 365 * e"
proof -
  let ?Y = "400 * a + 100 * b + 4 * c + e"
  have "?Y div 4 = 100 * a + 25 * b + c" using assms by (intro int_div_pos_eq [where r = e]) auto
  moreover have "?Y div 100 = 4 * a + b"
    using assms by (intro int_div_pos_eq [where r = "4 * c + e"]) auto
  moreover have "?Y div 400 = a"
    using assms by (intro int_div_pos_eq [where r = "100 * b + 4 * c + e"]) auto
  ultimately show ?thesis by (simp add: daysBeforeYear_def)
qed

lemma div_pred: "0 < k \<Longrightarrow> (y::int) div k = (y - 1) div k + (if y mod k = 0 then 1 else 0)"
proof -
  assume k: "0 < k"
  have y: "y = k * (y div k) + y mod k" by simp
  show ?thesis
  proof (cases "y mod k = 0")
    case True
    have "(y - 1) div k = y div k - 1"
      using k y True by (intro int_div_pos_eq [where r = "k - 1"]) (auto simp: algebra_simps)
    with True show ?thesis by simp
  next
    case False
    have "(y - 1) div k = y div k"
      using k y False pos_mod_bound [OF k, of y] pos_mod_sign [OF k, of y]
      by (intro int_div_pos_eq [where r = "y mod k - 1"]) linarith+
    with False show ?thesis by simp
  qed
qed

lemma daysBeforeYear_Suc: "daysBeforeYear (y + 1) = daysBeforeYear y + (if isLeap y then 366 else 365)"
proof -
  have m: "y mod 400 = 0 \<Longrightarrow> y mod 100 = 0" "y mod 100 = 0 \<Longrightarrow> y mod 4 = 0"
    using dvd_trans [of 100 400 y] dvd_trans [of 4 100 y] by (simp_all add: dvd_eq_mod_eq_0 [symmetric])
  obtain A B C where A: "(y - 1) div 4 = A" and B: "(y - 1) div 100 = B" and C: "(y - 1) div 400 = C"
    by blast
  obtain p q r where p: "(y mod 4 = 0) = p" and q: "(y mod 100 = 0) = q" and r: "(y mod 400 = 0) = r"
    by blast
  have E: "y div 4 = A + (if p then 1 else 0)" "y div 100 = B + (if q then 1 else 0)"
    "y div 400 = C + (if r then 1 else 0)"
    using div_pred [of 4 y] div_pred [of 100 y] div_pred [of 400 y] unfolding A B C p q r by simp_all
  have "daysBeforeYear y = 365 * (y - 1) + A - B + C" by (simp add: daysBeforeYear_def A B C)
  moreover have "daysBeforeYear (y + 1) = 365 * y + y div 4 - y div 100 + y div 400"
    by (simp add: daysBeforeYear_def)
  ultimately have "daysBeforeYear (y + 1) = daysBeforeYear y
      + (365 + (if p then 1 else 0) - (if q then 1 else 0) + (if r then 1 else 0))"
    unfolding E by simp
  also have "365 + (if p then 1 else 0) - (if q then 1 else 0) + (if r then 1 else 0)
      = (if p \<and> (\<not> q \<or> r) then 366 else (365::int))"
    using m [unfolded p q r] by (cases p; cases q; cases r) simp_all
  finally show ?thesis unfolding isLeap_def p q r .
qed

lemma daysBeforeYear_mono: "x \<le> y \<Longrightarrow> daysBeforeYear x + 365 * (y - x) \<le> daysBeforeYear y"
proof (induction "nat (y - x)" arbitrary: y)
  case (Suc n)
  then have "daysBeforeYear x + 365 * (y - 1 - x) \<le> daysBeforeYear (y - 1)"
    by (intro Suc.hyps) auto
  then show ?case using daysBeforeYear_Suc [of "y - 1"] by (simp split: if_splits)
qed simp

lemma yearOfDay_bounds:
  "daysBeforeYear (yearOfDay d) \<le> d" "d < daysBeforeYear (yearOfDay d + 1)"
proof -
  obtain a b c e r where d: "d = 146097 * a + 36524 * b + 1461 * c + 365 * e + r"
    and y: "yearOfDay d = 400 * a + 100 * b + 4 * c + e + 1"
    and b: "0 \<le> b" "b \<le> 3" and c: "0 \<le> c" "c \<le> 24" and e: "0 \<le> e" "e \<le> 3"
    and r: "0 \<le> r" "r \<le> 364 \<or> (r = 365 \<and> e = 3 \<and> (c = 24 \<longrightarrow> b = 3))"
    by (rule yearOfDay_decomp)
  have D: "daysBeforeYear (yearOfDay d) = 146097 * a + 36524 * b + 1461 * c + 365 * e"
    unfolding y using b c e by (rule daysBeforeYear_cycles)
  then show "daysBeforeYear (yearOfDay d) \<le> d" using d r(1) by simp
  have "r = 365 \<longrightarrow> isLeap (yearOfDay d)"
  proof
    assume "r = 365"
    with r have e3: "e = 3" and cb: "c = 24 \<longrightarrow> b = 3" by auto
    have y': "yearOfDay d = 4 * (100 * a + 25 * b + c + 1)" using y e3 by simp
    show "isLeap (yearOfDay d)"
    proof (cases "c = 24")
      case True
      with y' cb have "yearOfDay d = 400 * (a + 1)" by simp
      then show ?thesis by (simp add: isLeap_def)
    next
      case False
      have "yearOfDay d = 100 * (4 * a + b) + (4 * c + 4)" using y' by simp
      then have "yearOfDay d mod 100 = 4 * c + 4"
        using c False by (intro int_mod_pos_eq [where q = "4 * a + b"]) auto
      with c y' show ?thesis by (simp add: isLeap_def)
    qed
  qed
  then show "d < daysBeforeYear (yearOfDay d + 1)"
    using D d r daysBeforeYear_Suc [of "yearOfDay d"] by auto
qed

lemma yearOfDay_unique:
  assumes "daysBeforeYear y \<le> d" "d < daysBeforeYear (y + 1)"
  shows "yearOfDay d = y"
proof (rule ccontr)
  assume "yearOfDay d \<noteq> y"
  then consider "yearOfDay d + 1 \<le> y" | "y + 1 \<le> yearOfDay d" by linarith
  then show False
    using daysBeforeYear_mono [of "yearOfDay d + 1" y] daysBeforeYear_mono [of "y + 1" "yearOfDay d"]
      yearOfDay_bounds [of d] assms by cases auto
qed

lemma month_cases:
  assumes "1 \<le> m" "m \<le> (12::int)"
  shows "m = 1 \<or> m = 2 \<or> m = 3 \<or> m = 4 \<or> m = 5 \<or> m = 6 \<or> m = 7 \<or> m = 8 \<or> m = 9 \<or> m = 10 \<or> m = 11 \<or> m = 12"
  using assms by presburger

lemma leapDay_bounds: "0 \<le> leapDay y" "leapDay y \<le> 1"
  by (simp_all add: leapDay_def)

lemma daysBeforeMonth_table:
  "daysBeforeMonth y 1 = 0" "daysBeforeMonth y 2 = 31" "daysBeforeMonth y 3 = 59 + leapDay y"
  "daysBeforeMonth y 4 = 90 + leapDay y" "daysBeforeMonth y 5 = 120 + leapDay y"
  "daysBeforeMonth y 6 = 151 + leapDay y" "daysBeforeMonth y 7 = 181 + leapDay y"
  "daysBeforeMonth y 8 = 212 + leapDay y" "daysBeforeMonth y 9 = 243 + leapDay y"
  "daysBeforeMonth y 10 = 273 + leapDay y" "daysBeforeMonth y 11 = 304 + leapDay y"
  "daysBeforeMonth y 12 = 334 + leapDay y"
  by (simp_all add: daysBeforeMonth_def leapDay_def)

lemma daysInMonth_table:
  "daysInMonth y 1 = 31" "daysInMonth y 2 = 28 + leapDay y" "daysInMonth y 3 = 31"
  "daysInMonth y 4 = 30" "daysInMonth y 5 = 31" "daysInMonth y 6 = 30" "daysInMonth y 7 = 31"
  "daysInMonth y 8 = 31" "daysInMonth y 9 = 30" "daysInMonth y 10 = 31" "daysInMonth y 11 = 30"
  "daysInMonth y 12 = 31"
  by (simp_all add: daysInMonth_def leapDay_def)

lemma daysBeforeMonth_bounds:
  assumes "1 \<le> m" "m \<le> 12"
  shows "0 \<le> daysBeforeMonth y m" "daysBeforeMonth y m + daysInMonth y m \<le> 365 + leapDay y"
  using month_cases [OF assms] leapDay_bounds [of y]
  by (auto simp: daysBeforeMonth_table daysInMonth_table)

lemma monthOfDay_valid:
  "1 \<le> monthOfDay d" "monthOfDay d \<le> 12" "1 \<le> mdayOfDay d"
  "mdayOfDay d \<le> daysInMonth (yearOfDay d) (monthOfDay d)"
proof -
  define yd L where "yd = d - daysBeforeYear (yearOfDay d)" and "L = leapDay (yearOfDay d)"
  have yd: "0 \<le> yd" "yd < 365 + L" and L: "0 \<le> L" "L \<le> 1"
    using yearOfDay_bounds [of d] daysBeforeYear_Suc [of "yearOfDay d"]
    by (auto simp: yd_def L_def leapDay_def)
  note t = daysBeforeMonth_table [of "yearOfDay d", folded L_def]
    daysInMonth_table [of "yearOfDay d", folded L_def]
  have m: "monthOfDay d =
      (if yd < 31 then 1 else if yd < 59 + L then 2 else if yd < 90 + L then 3
       else if yd < 120 + L then 4 else if yd < 151 + L then 5 else if yd < 181 + L then 6
       else if yd < 212 + L then 7 else if yd < 243 + L then 8 else if yd < 273 + L then 9
       else if yd < 304 + L then 10 else if yd < 334 + L then 11 else 12)"
    unfolding monthOfDay_def Let_def yd_def [symmetric] t by (rule refl)
  show "1 \<le> monthOfDay d" "monthOfDay d \<le> 12" unfolding m by (simp_all split: if_split)
  have k: "mdayOfDay d = yd - daysBeforeMonth (yearOfDay d) (monthOfDay d) + 1"
    by (simp add: mdayOfDay_def yd_def)
  show "1 \<le> mdayOfDay d" unfolding k m using yd(1) by (simp add: t split: if_split)
  show "mdayOfDay d \<le> daysInMonth (yearOfDay d) (monthOfDay d)"
    unfolding k m using yd(2) by (simp add: t split: if_split)
qed

lemma dayNumber_civil: "dayNumber (yearOfDay d) (monthOfDay d) (mdayOfDay d) = d"
  using monthOfDay_valid [of d] by (simp add: dayNumber_def Let_def mdayOfDay_def)

lemma dayNumber_in_year:
  "1 \<le> m \<Longrightarrow> m \<le> 12 \<Longrightarrow> dayNumber y m k = daysBeforeYear y + daysBeforeMonth y m + k - 1"
  by (simp add: dayNumber_def)

lemma daysBeforeYear_Suc': "daysBeforeYear (y + 1) = daysBeforeYear y + 365 + leapDay y"
  by (simp add: daysBeforeYear_Suc leapDay_def)

lemma civil_dayNumber:
  assumes "1 \<le> m" "m \<le> 12" "1 \<le> k" "k \<le> daysInMonth y m"
  shows "yearOfDay (dayNumber y m k) = y" "monthOfDay (dayNumber y m k) = m"
    "mdayOfDay (dayNumber y m k) = k"
proof -
  note D = dayNumber_in_year [OF assms(1,2), of y k]
  show Y: "yearOfDay (dayNumber y m k) = y"
    using D assms(3,4) daysBeforeMonth_bounds [OF assms(1,2), of y] daysBeforeYear_Suc' [of y]
    by (intro yearOfDay_unique) linarith+
  have yd: "dayNumber y m k - daysBeforeYear y = daysBeforeMonth y m + (k - 1)" using D by simp
  show M: "monthOfDay (dayNumber y m k) = m"
    unfolding monthOfDay_def Y Let_def yd using month_cases [OF assms(1,2)] assms(3,4) leapDay_bounds [of y]
    by (elim disjE) (simp_all add: daysBeforeMonth_table daysInMonth_table)
  show "mdayOfDay (dayNumber y m k) = k"
    unfolding mdayOfDay_def Y M unfolding D by simp
qed

end
