(* ===== verification/Float64.thy ===== *)
theory Float64
  imports Complex_Main "HOL-Library.Log_Nat" Prelude
begin

text \<open>
  Go's \<open>float64\<close>: IEEE 754 binary64 with round-to-nearest-even, as the language
  specifies. A finite value is the rational number it denotes; every operation rounds the
  exact result. The two zeros are identified: the program never divides by a negative
  zero and never inspects a sign bit.
\<close>

datatype f64 = Finite rat | PosInf | NegInf | NaN

text \<open>The binary exponent of a positive rational: \<open>2 ^ ilog2 x \<le> x < 2 ^ (ilog2 x + 1)\<close>.\<close>

definition ilog2 :: "rat \<Rightarrow> int" where
  "ilog2 x =
     (let (p, q) = quotient_of x; e = bitlen p - bitlen q
      in if 2 powi e \<le> x then e else e - 1)"

definition rne :: "rat \<Rightarrow> int" where
  "rne x =
     (let f = \<lfloor>x\<rfloor>; d = x - of_int f
      in if d < 1 / 2 then f else if 1 / 2 < d then f + 1 else if even f then f else f + 1)"

text \<open>The exponent of the last place of a result of magnitude \<open>x\<close>; \<open>-1074\<close> is the subnormal limit.\<close>

definition ulpExp :: "rat \<Rightarrow> int" where
  "ulpExp x = max (ilog2 \<bar>x\<bar> - 52) (- 1074)"

definition roundQ :: "rat \<Rightarrow> rat" where
  "roundQ x = (if x = 0 then 0 else of_int (rne (x / 2 powi ulpExp x)) * 2 powi ulpExp x)"

definition roundF :: "rat \<Rightarrow> f64" where
  "roundF x =
     (let r = roundQ x
      in if r \<noteq> 0 \<and> 1024 \<le> ilog2 \<bar>r\<bar> then (if 0 < r then PosInf else NegInf) else Finite r)"

fun fneg :: "f64 \<Rightarrow> f64" where
  "fneg (Finite a) = Finite (- a)"
| "fneg PosInf = NegInf"
| "fneg NegInf = PosInf"
| "fneg NaN = NaN"

fun fadd :: "f64 \<Rightarrow> f64 \<Rightarrow> f64" where
  "fadd (Finite a) (Finite b) = roundF (a + b)"
| "fadd NaN _ = NaN"
| "fadd _ NaN = NaN"
| "fadd PosInf NegInf = NaN"
| "fadd NegInf PosInf = NaN"
| "fadd PosInf _ = PosInf"
| "fadd NegInf _ = NegInf"
| "fadd (Finite _) y = y"

definition fsub :: "f64 \<Rightarrow> f64 \<Rightarrow> f64" where
  "fsub x y = fadd x (fneg y)"

definition infSign :: "rat \<Rightarrow> f64" where
  "infSign a = (if a = 0 then NaN else if 0 < a then PosInf else NegInf)"

fun fmul :: "f64 \<Rightarrow> f64 \<Rightarrow> f64" where
  "fmul (Finite a) (Finite b) = roundF (a * b)"
| "fmul NaN _ = NaN"
| "fmul _ NaN = NaN"
| "fmul PosInf (Finite b) = infSign b"
| "fmul NegInf (Finite b) = infSign (- b)"
| "fmul (Finite a) PosInf = infSign a"
| "fmul (Finite a) NegInf = infSign (- a)"
| "fmul PosInf y = y"
| "fmul NegInf y = fneg y"

fun fdiv :: "f64 \<Rightarrow> f64 \<Rightarrow> f64" where
  "fdiv (Finite a) (Finite b) = (if b = 0 then infSign a else roundF (a / b))"
| "fdiv NaN _ = NaN"
| "fdiv _ NaN = NaN"
| "fdiv (Finite _) _ = Finite 0"
| "fdiv PosInf (Finite b) = (if b < 0 then NegInf else PosInf)"
| "fdiv NegInf (Finite b) = (if b < 0 then PosInf else NegInf)"
| "fdiv _ _ = NaN"

text \<open>Go's ordered comparison: false whenever an operand is NaN.\<close>

fun flt :: "f64 \<Rightarrow> f64 \<Rightarrow> bool" where
  "flt (Finite a) (Finite b) = (a < b)"
| "flt NaN _ = False"
| "flt _ NaN = False"
| "flt NegInf y = (y \<noteq> NegInf)"
| "flt x PosInf = (x \<noteq> PosInf)"
| "flt _ _ = False"

definition fle :: "f64 \<Rightarrow> f64 \<Rightarrow> bool" where
  "fle x y \<longleftrightarrow> flt x y \<or> (x = y \<and> x \<noteq> NaN)"

text \<open>\<open>math.Floor\<close>, \<open>math.Ceil\<close> and \<open>math.Min\<close>.\<close>

fun ffloor :: "f64 \<Rightarrow> f64" where
  "ffloor (Finite a) = Finite (of_int \<lfloor>a\<rfloor>)"
| "ffloor x = x"

fun fceil :: "f64 \<Rightarrow> f64" where
  "fceil (Finite a) = Finite (of_int \<lceil>a\<rceil>)"
| "fceil x = x"

definition fmin :: "f64 \<Rightarrow> f64 \<Rightarrow> f64" where
  "fmin x y =
     (if x = NegInf \<or> y = NegInf then NegInf
      else if x = NaN \<or> y = NaN then NaN
      else if flt x y then x else y)"

definition f64_of_int :: "int \<Rightarrow> f64" where
  "f64_of_int n = roundF (of_int n)"

definition truncQ :: "rat \<Rightarrow> int" where
  "truncQ x = (if x < 0 then \<lceil>x\<rceil> else \<lfloor>x\<rfloor>)"

text \<open>
  Conversion to a 64-bit integer truncates. The result for a value that does not fit is
  implementation-dependent in Go; \<open>oor\<close> is what the implementation returns.
\<close>

fun f64_to_int :: "(f64 \<Rightarrow> int) \<Rightarrow> f64 \<Rightarrow> int" where
  "f64_to_int oor (Finite a) =
     (if - (2 ^ 63) \<le> truncQ a \<and> truncQ a < 2 ^ 63 then truncQ a else oor (Finite a))"
| "f64_to_int oor x = oor x"

text \<open>\<open>Duration.Seconds\<close>: whole seconds and the fraction are converted apart; division truncates.\<close>

definition goDiv :: "int \<Rightarrow> int \<Rightarrow> int" where
  "goDiv a b = sgn a * sgn b * (\<bar>a\<bar> div \<bar>b\<bar>)"

definition goMod :: "int \<Rightarrow> int \<Rightarrow> int" where
  "goMod a b = a - b * goDiv a b"

definition Seconds :: "int \<Rightarrow> f64" where
  "Seconds d = fadd (f64_of_int (goDiv d 1000000000))
     (fdiv (f64_of_int (goMod d 1000000000)) (Finite 1000000000))"

section \<open>\<open>math.Pow\<close> with an integral exponent\<close>

text \<open>
  \<open>math.Frexp\<close> of a nonzero finite value, the squaring loop of \<open>math.Pow\<close> over the bits of
  the exponent, and \<open>math.Ldexp\<close>. The exponent of every call in the program is a
  non-negative integer, so the fractional and reciprocal branches are unreachable.
\<close>

definition frexp :: "rat \<Rightarrow> rat \<times> int" where
  "frexp x = (let e = ilog2 \<bar>x\<bar> + 1 in (x / 2 powi e, e))"

fun finQ :: "f64 \<Rightarrow> rat" where
  "finQ (Finite a) = a"
| "finQ _ = 0"

fun powLoop :: "nat \<Rightarrow> rat \<Rightarrow> int \<Rightarrow> rat \<Rightarrow> int \<Rightarrow> rat \<times> int" where
  "powLoop i x1 xe a1 ae =
     (if i = 0 then (a1, ae)
      else if xe < - 4096 \<or> 4096 < xe then (a1, ae + xe)
      else
        let (a1', ae') = (if odd i then (roundQ (a1 * x1), ae + xe) else (a1, ae));
            x2 = roundQ (x1 * x1); xe2 = 2 * xe;
            (x3, xe3) = (if x2 < 1 / 2 then (roundQ (x2 + x2), xe2 - 1) else (x2, xe2))
        in powLoop (i div 2) x3 xe3 a1' ae')"

declare powLoop.simps [simp del]

definition Pow :: "f64 \<Rightarrow> nat \<Rightarrow> f64" where
  "Pow x n =
     (if n = 0 \<or> x = Finite 1 then Finite 1
      else if n = 1 then x
      else case x of
        NaN \<Rightarrow> NaN
      | PosInf \<Rightarrow> PosInf
      | NegInf \<Rightarrow> (if odd n then NegInf else PosInf)
      | Finite a \<Rightarrow>
          (if a = 0 then Finite 0
           else let (x1, xe) = frexp a; (a1, ae) = powLoop n x1 xe 1 0
                in roundF (a1 * 2 powi ae)))"

section \<open>Rounding\<close>

lemma powi2_less_imp: "(2::rat) powi m < 2 powi n \<Longrightarrow> m < n"
  using power_int_increasing [of n m "2::rat"] by fastforce

lemma int_abs_less_rat: "\<bar>n\<bar> < 2 ^ k \<Longrightarrow> \<bar>of_int n :: rat\<bar> < 2 ^ k"
  by (metis of_int_abs of_int_less_iff of_int_numeral of_int_power)

lemma pow2_le_rat: "0 \<le> k \<Longrightarrow> 2 ^ nat k \<le> n \<Longrightarrow> (2::rat) powi k \<le> of_int n"
  by (simp add: power_int_def)

lemma less_pow2_rat: "0 \<le> k \<Longrightarrow> n < 2 ^ nat k \<Longrightarrow> of_int n < (2::rat) powi k"
  by (simp add: power_int_def)

lemma ilog2_bounds:
  assumes "0 < x"
  shows "2 powi ilog2 x \<le> x" "x < 2 powi (ilog2 x + 1)"
proof -
  obtain p q where pq: "quotient_of x = (p, q)" by fastforce
  have q: "0 < q" using pq by (rule quotient_of_denom_pos)
  have x: "x = of_int p / of_int q" using pq by (rule quotient_of_div)
  have p: "0 < p" using assms q unfolding x by (simp add: zero_less_divide_iff)
  define e where "e = bitlen p - bitlen q"
  have bp: "2 ^ nat (bitlen p - 1) \<le> p" "p < 2 ^ nat (bitlen p)" "1 \<le> bitlen p"
    using bitlen_bounds [OF p] p bitlen_nonneg [of p] bitlen_eq_zero_iff [of p] by auto
  have bq: "2 ^ nat (bitlen q - 1) \<le> q" "q < 2 ^ nat (bitlen q)" "1 \<le> bitlen q"
    using bitlen_bounds [OF q] q bitlen_nonneg [of q] bitlen_eq_zero_iff [of q] by auto
  have P: "(2::rat) powi (bitlen p - 1) \<le> of_int p" "(of_int p :: rat) < 2 powi bitlen p"
    using bp by (simp_all add: pow2_le_rat less_pow2_rat)
  have Q: "(2::rat) powi (bitlen q - 1) \<le> of_int q" "(of_int q :: rat) < 2 powi bitlen q"
    using bq by (simp_all add: pow2_le_rat less_pow2_rat)
  have "of_int p < (2::rat) powi (e + 1) * 2 powi (bitlen q - 1)"
    using P(2) by (simp add: power_int_add [symmetric] e_def)
  also have "\<dots> \<le> 2 powi (e + 1) * of_int q" using Q(1) by (simp add: mult_left_mono)
  finally have up: "x < 2 powi (e + 1)" unfolding x using q by (simp add: divide_less_eq)
  have "(2::rat) powi (e - 1) * of_int q \<le> 2 powi (e - 1) * 2 powi bitlen q"
    using Q(2) by (simp add: mult_left_mono)
  also have "\<dots> \<le> of_int p" using P(1) by (simp add: power_int_add [symmetric] e_def algebra_simps)
  finally have lo: "2 powi (e - 1) \<le> x" unfolding x using q by (simp add: le_divide_eq)
  have il: "ilog2 x = (if 2 powi e \<le> x then e else e - 1)"
    by (simp add: ilog2_def pq e_def Let_def)
  show "2 powi ilog2 x \<le> x" "x < 2 powi (ilog2 x + 1)"
    using up lo by (auto simp: il)
qed

lemma rne_error: "\<bar>of_int (rne x) - x\<bar> \<le> 1 / 2"
proof -
  have "of_int \<lfloor>x\<rfloor> \<le> x" "x < of_int \<lfloor>x\<rfloor> + 1" by linarith+
  then show ?thesis by (simp add: rne_def Let_def abs_le_iff)
qed

lemma rne_of_int [simp]: "rne (of_int n) = n"
  by (simp add: rne_def)

lemma rne_ge: "of_int n \<le> x \<Longrightarrow> n \<le> rne x"
proof -
  assume "of_int n \<le> x"
  then have "n \<le> \<lfloor>x\<rfloor>" by (simp add: le_floor_iff)
  moreover have "\<lfloor>x\<rfloor> \<le> rne x" by (simp add: rne_def Let_def)
  ultimately show ?thesis by simp
qed

lemma rne_le: "x \<le> of_int n \<Longrightarrow> rne x \<le> n"
proof -
  assume "x \<le> of_int n"
  then have "\<lfloor>x\<rfloor> \<le> n" by linarith
  moreover have "\<lfloor>x\<rfloor> = n \<Longrightarrow> x = of_int n" using \<open>x \<le> of_int n\<close> by linarith
  ultimately show ?thesis by (cases "\<lfloor>x\<rfloor> = n") (auto simp: rne_def Let_def)
qed

lemma roundQ_0 [simp]: "roundQ 0 = 0"
  by (simp add: roundQ_def)

lemma roundQ_error:
  assumes "2 powi (- 1022) \<le> \<bar>x\<bar>"
  shows "\<bar>roundQ x - x\<bar> \<le> \<bar>x\<bar> / 2 ^ 53"
proof -
  have x: "0 < \<bar>x\<bar>" using assms by (rule less_le_trans [rotated]) simp
  note l = ilog2_bounds [OF x]
  have "(2::rat) powi (- 1022) < 2 powi (ilog2 \<bar>x\<bar> + 1)" using assms l(2) by linarith
  then have "- 1022 < ilog2 \<bar>x\<bar> + 1" by (rule powi2_less_imp)
  then have u: "ulpExp x = ilog2 \<bar>x\<bar> - 52" by (simp add: ulpExp_def)
  define w :: rat where "w = 2 powi ulpExp x"
  have w: "0 < w" by (simp add: w_def)
  have wl: "w * 2 ^ 52 \<le> \<bar>x\<bar>"
    using l(1) by (simp add: w_def u power_int_diff)
  have "\<bar>roundQ x - x\<bar> = \<bar>(of_int (rne (x / w)) - x / w) * w\<bar>"
    using x w by (simp add: roundQ_def w_def [symmetric] left_diff_distrib)
  also have "\<dots> \<le> 1 / 2 * w"
    using rne_error [of "x / w"] w by (simp add: abs_mult)
  also have "\<dots> \<le> \<bar>x\<bar> / 2 ^ 53" using wl by simp
  finally show ?thesis .
qed

text \<open>A multiple of the last place is its own rounding, and rounding stays on its side of it.\<close>

lemma roundQ_multiple:
  assumes "x = of_int m * 2 powi ulpExp x"
  shows "roundQ x = x"
proof -
  have "x / 2 powi ulpExp x = of_int m" by (subst assms) simp
  then show ?thesis using assms by (simp add: roundQ_def)
qed

lemma ulpExp_nonpos:
  assumes "\<bar>x\<bar> < 2 ^ 53" "x \<noteq> 0"
  shows "ulpExp x \<le> 0"
proof -
  have "2 powi ilog2 \<bar>x\<bar> \<le> \<bar>x\<bar>" using assms by (intro ilog2_bounds) simp
  then have "(2::rat) powi ilog2 \<bar>x\<bar> < 2 powi 53" using assms by (simp add: power_int_def)
  then have "ilog2 \<bar>x\<bar> < 53" by (rule powi2_less_imp)
  then show ?thesis by (simp add: ulpExp_def)
qed

lemma int_multiple_of_ulp:
  assumes "e \<le> 0"
  obtains m :: int where "(of_int n :: rat) = of_int m * 2 powi e"
proof
  show "(of_int n :: rat) = of_int (n * 2 ^ nat (- e)) * 2 powi e"
    using assms by (simp add: power_int_def field_simps)
qed

lemma roundQ_ge_int:
  assumes "of_int n \<le> x" "\<bar>x\<bar> < 2 ^ 53"
  shows "of_int n \<le> roundQ x"
proof (cases "x = 0")
  case False
  obtain m where m: "(of_int n :: rat) = of_int m * 2 powi ulpExp x"
    using int_multiple_of_ulp [OF ulpExp_nonpos [OF assms(2) False]] .
  have "of_int m \<le> x / 2 powi ulpExp x" using assms(1) unfolding m by (simp add: le_divide_eq)
  then have "m \<le> rne (x / 2 powi ulpExp x)" by (rule rne_ge)
  then have "(of_int m :: rat) * 2 powi ulpExp x \<le> of_int (rne (x / 2 powi ulpExp x)) * 2 powi ulpExp x"
    by (intro mult_right_mono) simp_all
  then show ?thesis using False unfolding m by (simp add: roundQ_def)
qed (use assms in simp)

lemma roundQ_le_int:
  assumes "x \<le> of_int n" "\<bar>x\<bar> < 2 ^ 53"
  shows "roundQ x \<le> of_int n"
proof (cases "x = 0")
  case False
  obtain m where m: "(of_int n :: rat) = of_int m * 2 powi ulpExp x"
    using int_multiple_of_ulp [OF ulpExp_nonpos [OF assms(2) False]] .
  have "x / 2 powi ulpExp x \<le> of_int m" using assms(1) unfolding m by (simp add: divide_le_eq)
  then have "rne (x / 2 powi ulpExp x) \<le> m" by (rule rne_le)
  then have "of_int (rne (x / 2 powi ulpExp x)) * 2 powi ulpExp x \<le> (of_int m :: rat) * 2 powi ulpExp x"
    by (intro mult_right_mono) simp_all
  then show ?thesis using False unfolding m by (simp add: roundQ_def)
qed (use assms in simp)

lemma roundQ_int: "\<bar>n\<bar> < 2 ^ 53 \<Longrightarrow> roundQ (of_int n) = of_int n"
proof -
  assume "\<bar>n\<bar> < 2 ^ 53"
  then have "\<bar>of_int n :: rat\<bar> < 2 ^ 53" by (rule int_abs_less_rat)
  then show ?thesis using roundQ_ge_int [of n "of_int n"] roundQ_le_int [of "of_int n" n] by simp
qed

lemma roundF_finite: "\<bar>roundQ x\<bar> < 2 ^ 1024 \<Longrightarrow> roundF x = Finite (roundQ x)"
proof -
  assume r: "\<bar>roundQ x\<bar> < 2 ^ 1024"
  have "ilog2 \<bar>roundQ x\<bar> < 1024" if "roundQ x \<noteq> 0"
  proof (rule powi2_less_imp)
    have "2 powi ilog2 \<bar>roundQ x\<bar> \<le> \<bar>roundQ x\<bar>" using that by (intro ilog2_bounds) simp
    also note r
    also have "(2::rat) ^ 1024 = 2 powi 1024" by (simp only: power_int_numeral)
    finally show "(2::rat) powi ilog2 \<bar>roundQ x\<bar> < 2 powi 1024" .
  qed
  then show ?thesis by (auto simp: roundF_def Let_def)
qed

lemma f64_of_int_exact: "\<bar>n\<bar> < 2 ^ 53 \<Longrightarrow> f64_of_int n = Finite (of_int n)"
proof -
  assume n: "\<bar>n\<bar> < 2 ^ 53"
  then have "\<bar>of_int n :: rat\<bar> < 2 ^ 53" by (rule int_abs_less_rat)
  also have "(2::rat) ^ 53 \<le> 2 ^ 1024" by (rule power_increasing) simp_all
  finally have "\<bar>of_int n :: rat\<bar> < 2 ^ 1024" .
  with n show ?thesis by (simp add: f64_of_int_def roundF_finite roundQ_int)
qed

lemma quotient_normal:
  assumes "1 \<le> a" "0 < b" "b < 2 ^ 53"
  shows "2 powi (- 1022) \<le> \<bar>of_int a / of_int b :: rat\<bar>"
proof -
  have b: "(0::rat) < of_int b" and b53: "(of_int b :: rat) < 2 ^ 53"
    using assms int_abs_less_rat [of b 53] by simp_all
  have "(2::rat) powi (- 1022) \<le> 2 powi (- 53)" by (rule power_int_increasing) simp_all
  also have "\<dots> = 1 / 2 ^ 53" by (simp add: power_int_def field_simps)
  also have "\<dots> \<le> 1 / (of_int b :: rat)" using b b53 by (intro divide_left_mono) simp_all
  also have "\<dots> \<le> of_int a / of_int b" using b assms(1) by (intro divide_right_mono) simp_all
  also have "\<dots> \<le> \<bar>of_int a / of_int b\<bar>" by (rule abs_ge_self)
  finally show ?thesis .
qed

text \<open>
  Correctly rounded division of integers below \<open>2 ^ 53\<close> has the exact floor and ceiling:
  the distance of a non-integral quotient to the next integer exceeds the rounding error.
\<close>

lemma roundQ_quotient_floor:
  assumes "0 \<le> a" "a < 2 ^ 53" "0 < b" "b < 2 ^ 53"
  shows "\<lfloor>roundQ (of_int a / of_int b)\<rfloor> = a div b"
proof -
  define q :: rat where "q = of_int a / of_int b"
  have b: "(0::rat) < of_int b" using assms by simp
  have ab: "a = b * (a div b) + a mod b" "0 \<le> a mod b" "a mod b < b" using assms by simp_all
  have q0: "0 \<le> q" using assms by (simp add: q_def)
  have a53: "(of_int a :: rat) < 2 ^ 53" and b53: "(of_int b :: rat) < 2 ^ 53"
    using assms int_abs_less_rat [of a 53] int_abs_less_rat [of b 53] by simp_all
  have "q \<le> of_int a" unfolding q_def using assms(1,3)
    by (simp add: divide_le_eq mult_le_cancel_left1)
  then have q53: "\<bar>q\<bar> < 2 ^ 53" using a53 q0 by simp
  have lo: "of_int (a div b) \<le> q"
  proof -
    have "b * (a div b) \<le> a" using ab by linarith
    then have "(of_int b :: rat) * of_int (a div b) \<le> of_int a" by (metis of_int_le_iff of_int_mult)
    then show ?thesis unfolding q_def using b by (simp add: field_simps)
  qed
  have hi: "q \<le> of_int (a div b) + 1 - 1 / of_int b"
  proof -
    have "a \<le> b * (a div b) + b - 1" using ab by linarith
    then have "(of_int a :: rat) \<le> of_int b * of_int (a div b) + of_int b - 1"
      by (metis of_int_1 of_int_add of_int_diff of_int_le_iff of_int_mult)
    then show ?thesis unfolding q_def using b by (simp add: field_simps)
  qed
  have ge: "of_int (a div b) \<le> roundQ q" using lo q53 by (rule roundQ_ge_int)
  have lt: "roundQ q < of_int (a div b) + 1"
  proof (cases "a = 0")
    case True
    then show ?thesis by (simp add: q_def)
  next
    case False
    then have "1 \<le> a" using assms(1) by simp
    then have "2 powi (- 1022) \<le> \<bar>q\<bar>" unfolding q_def using assms(3,4) by (rule quotient_normal)
    from roundQ_error [OF this] have "roundQ q \<le> q + q / 2 ^ 53" using q0 unfolding abs_le_iff by linarith
    also have "q / 2 ^ 53 < 1 / of_int b" unfolding q_def using a53 b by (simp add: field_simps)
    finally show ?thesis using hi by simp
  qed
  show ?thesis using ge lt unfolding q_def by (simp add: floor_eq_iff)
qed


lemma roundQ_quotient_ceiling:
  assumes "0 \<le> a" "a < 2 ^ 53" "0 < b" "b < 2 ^ 53"
  shows "\<lceil>roundQ (of_int a / of_int b)\<rceil> = - (- a div b)"
proof (cases "b dvd a")
  case True
  then obtain k where k: "a = b * k" by blast
  then have "0 \<le> k" "k \<le> a" using assms by (auto simp: zero_le_mult_iff mult_le_cancel_right1)
  moreover have "- a div b = - k"
    using k assms(3) nonzero_mult_div_cancel_left [of b "- k"] by simp
  ultimately show ?thesis using k assms by (simp add: roundQ_int)
next
  case False
  define q :: rat where "q = of_int a / of_int b"
  have fl: "\<lfloor>roundQ q\<rfloor> = a div b" unfolding q_def using assms by (rule roundQ_quotient_floor)
  have e: "- (- a div b) = a div b + 1"
    using False assms(3) by (simp add: zdiv_zminus1_eq_if dvd_eq_mod_eq_0)
  have "of_int (a div b) < roundQ q"
  proof -
    have a1: "1 \<le> a" using False assms(1) by (cases "a = 0") auto
    have ab: "a = b * (a div b) + a mod b" "0 < a mod b"
      using assms(3) False by (simp_all add: dvd_eq_mod_eq_0 order_less_le)
    have b: "(0::rat) < of_int b" using assms by simp
    have a53: "(of_int a :: rat) < 2 ^ 53" and b53: "(of_int b :: rat) < 2 ^ 53"
      using assms int_abs_less_rat [of a 53] int_abs_less_rat [of b 53] by simp_all
    have "b * (a div b) + 1 \<le> a" using ab by linarith
    then have "(of_int b :: rat) * of_int (a div b) + 1 \<le> of_int a"
      by (metis of_int_1 of_int_add of_int_le_iff of_int_mult)
    then have "(of_int b * of_int (a div b) + 1) / of_int b \<le> q"
      unfolding q_def using b by (intro divide_right_mono) simp_all
    then have lo: "of_int (a div b) + 1 / of_int b \<le> q" using b by (simp add: add_divide_distrib)
    have q0: "0 \<le> q" using assms by (simp add: q_def)
    have q1: "2 powi (- 1022) \<le> \<bar>q\<bar>" unfolding q_def using a1 assms(3,4) by (rule quotient_normal)
    from roundQ_error [OF q1] have "q - q / 2 ^ 53 \<le> roundQ q" using q0 unfolding abs_le_iff by linarith
    moreover have "q / 2 ^ 53 < 1 / of_int b" unfolding q_def using a53 b by (simp add: field_simps)
    ultimately show ?thesis using lo by linarith
  qed
  moreover have "roundQ q < of_int (a div b) + 1" using fl by linarith
  ultimately have "\<lceil>roundQ q\<rceil> = a div b + 1" by (simp add: ceiling_eq_iff)
  with e show ?thesis by (simp add: q_def)
qed

text \<open>Whole seconds convert exactly, so the floor and ceiling of their quotient are exact.\<close>

lemma Seconds_whole:
  assumes "0 \<le> k" "k < 2 ^ 53"
  shows "Seconds (k * 1000000000) = Finite (of_int k)"
proof -
  have "goDiv (k * 1000000000) 1000000000 = k" using assms(1)
    by (cases "k = 0") (simp_all add: goDiv_def sgn_mult abs_mult)
  moreover have "roundF (of_int k) = Finite (of_int k)" "roundF 0 = Finite 0"
    using assms f64_of_int_exact [of k] f64_of_int_exact [of 0] by (simp_all add: f64_of_int_def)
  ultimately show ?thesis by (simp add: Seconds_def goMod_def f64_of_int_def)
qed

lemma fdiv_whole:
  assumes "0 \<le> k" "k < 2 ^ 53" "0 < n" "n < 2 ^ 53"
  shows "fdiv (Finite (of_int k)) (f64_of_int n) = Finite (roundQ (of_int k / of_int n))"
proof -
  have "\<lfloor>roundQ (of_int k / of_int n)\<rfloor> = k div n" using assms by (rule roundQ_quotient_floor)
  moreover have "0 \<le> k div n" "k div n \<le> k"
    using assms zdiv_mono2 [of k 1 n] by (simp_all add: pos_imp_zdiv_nonneg_iff)
  ultimately have "0 \<le> roundQ (of_int k / of_int n)" "roundQ (of_int k / of_int n) < of_int k + 1"
    by linarith+
  moreover have "(of_int (k + 1) :: rat) \<le> of_int (2 ^ 53)"
    using assms(2) by (simp only: of_int_le_iff)
  moreover have "(2::rat) ^ 53 \<le> 2 ^ 1024" by (rule power_increasing) simp_all
  ultimately have "\<bar>roundQ (of_int k / of_int n)\<bar> < 2 ^ 1024"
    unfolding of_int_add of_int_power of_int_numeral of_int_1 by linarith
  with assms show ?thesis by (simp add: f64_of_int_exact roundF_finite)
qed

end
