(* ===== verification/Model.thy ===== *)
theory Model
  imports GoTime Float64
begin

text \<open>
  The domain types of \<open>internal/model\<close> and \<open>internal/apperr\<close>: tenants, schedules, executions
  and attempts as records with the fields of the Go structs, pointers as options, the
  open string enumerations as strings with their declared constants, and the error a
  command is rejected with. Also the retry backoff and the header names the scheduler
  reserves, with the canonical form of MIME header keys they are compared in.
\<close>

section \<open>Errors (\<open>internal/apperr\<close>)\<close>

record CommandError =
  ceKind :: string
  ceMessage :: string
  ceField :: string
  ceDetails :: "(string \<times> string) list"

definition KindValidation :: string where "KindValidation = ''validation''"
definition KindConflict :: string where "KindConflict = ''conflict''"
definition KindNotFound :: string where "KindNotFound = ''not_found''"
definition KindStorage :: string where "KindStorage = ''storage''"

lemmas kind_defs [go_defs] = KindValidation_def KindConflict_def KindNotFound_def KindStorage_def

text \<open>
  How a Go call can fail: with a \<open>*CommandError\<close>, with any other \<open>error\<close> value, or by a
  run-time panic.
\<close>

datatype failure = Rejected CommandError | Error goerror | Panic string

definition cmdError :: "string \<Rightarrow> string \<Rightarrow> string \<Rightarrow> CommandError" where
  "cmdError kind field msg = \<lparr>ceKind = kind, ceMessage = msg, ceField = field, ceDetails = []\<rparr>"

abbreviation validationError :: "string \<Rightarrow> string \<Rightarrow> failure + 'a" where
  "validationError field msg \<equiv> Inl (Rejected (cmdError KindValidation field msg))"

abbreviation conflictError :: "string \<Rightarrow> string \<Rightarrow> failure + 'a" where
  "conflictError field msg \<equiv> Inl (Rejected (cmdError KindConflict field msg))"

abbreviation notFoundError :: "string \<Rightarrow> string \<Rightarrow> failure + 'a" where
  "notFoundError field msg \<equiv> Inl (Rejected (cmdError KindNotFound field msg))"

abbreviation storageError :: "string \<Rightarrow> failure + 'a" where
  "storageError msg \<equiv> Inl (Rejected (cmdError KindStorage [] msg))"

section \<open>Tenants\<close>

record Tenant =
  tnID :: string
  tnName :: string
  tnCreatedAt :: Time
  tnAPIKeyHash :: string

section \<open>Schedules\<close>

definition DefaultCallTimeout :: int where "DefaultCallTimeout = 30 * nanosPerSecond"
definition MinCallTimeout :: int where "MinCallTimeout = 1 * nanosPerSecond"
definition MaxCallTimeout :: int where "MaxCallTimeout = 5 * 60 * nanosPerSecond"

definition HeaderIdempotencyKey :: string where
  "HeaderIdempotencyKey = ''X-Scheduler-Idempotency-Key''"

definition HeaderAttemptID :: string where
  "HeaderAttemptID = ''X-Scheduler-Attempt-Id''"

text \<open>
  \<open>textproto.CanonicalMIMEHeaderKey\<close>: a key made of token characters gets an upper case
  letter at the start and after each hyphen and lower case letters elsewhere; any other
  key is left as it is.
\<close>

definition isLower :: "char \<Rightarrow> bool" where
  "isLower c \<longleftrightarrow> CHR ''a'' \<le> c \<and> c \<le> CHR ''z''"

definition isUpper :: "char \<Rightarrow> bool" where
  "isUpper c \<longleftrightarrow> CHR ''A'' \<le> c \<and> c \<le> CHR ''Z''"

definition toUpper :: "char \<Rightarrow> char" where
  "toUpper c = (if isLower c then char_of (of_char c - 32 :: nat) else c)"

definition toLower :: "char \<Rightarrow> char" where
  "toLower c = (if isUpper c then char_of (of_char c + 32 :: nat) else c)"

definition validHeaderFieldByte :: "char \<Rightarrow> bool" where
  "validHeaderFieldByte c \<longleftrightarrow>
     isLower c \<or> isUpper c \<or> (CHR ''0'' \<le> c \<and> c \<le> CHR ''9'') \<or>
     c \<in> {CHR ''!'', CHR ''#'', CHR ''$'', CHR ''%'', CHR ''&'', CHR 0x27, CHR ''*'', CHR ''+'',
          CHR ''-'', CHR ''.'', CHR ''^'', CHR ''_'', CHR 0x60, CHR ''|'', CHR ''~''}"

fun canonLetters :: "bool \<Rightarrow> string \<Rightarrow> string" where
  "canonLetters upper [] = []"
| "canonLetters upper (c # cs) =
     (let c' = (if upper then toUpper c else toLower c) in c' # canonLetters (c' = CHR ''-'') cs)"

definition CanonicalMIMEHeaderKey :: "string \<Rightarrow> string" where
  "CanonicalMIMEHeaderKey s = (if list_all validHeaderFieldByte s then canonLetters True s else s)"

definition ReservedHeaderKeys :: "string list" where
  "ReservedHeaderKeys = map CanonicalMIMEHeaderKey [''Content-Type'', HeaderIdempotencyKey, HeaderAttemptID]"

definition ScheduleTypeOnce :: string where "ScheduleTypeOnce = ''once''"
definition ScheduleTypeRecurring :: string where "ScheduleTypeRecurring = ''recurring''"

definition ScheduleStatusActive :: string where "ScheduleStatusActive = ''active''"
definition ScheduleStatusPaused :: string where "ScheduleStatusPaused = ''paused''"
definition ScheduleStatusCanceled :: string where "ScheduleStatusCanceled = ''canceled''"
definition ScheduleStatusCompleted :: string where "ScheduleStatusCompleted = ''completed''"

lemmas schedule_status_defs = ScheduleStatusActive_def ScheduleStatusPaused_def
  ScheduleStatusCanceled_def ScheduleStatusCompleted_def

lemmas schedule_type_defs = ScheduleTypeOnce_def ScheduleTypeRecurring_def

definition CatchUpPolicyAll :: string where "CatchUpPolicyAll = ''catch_up_all''"
definition CatchUpPolicySkipMissed :: string where "CatchUpPolicySkipMissed = ''skip_missed''"
definition CatchUpPolicyLatestOnly :: string where "CatchUpPolicyLatestOnly = ''catch_up_latest_only''"

lemmas catchup_defs = CatchUpPolicyAll_def CatchUpPolicySkipMissed_def CatchUpPolicyLatestOnly_def

definition CadenceMonthly :: string where "CadenceMonthly = ''monthly''"
definition CadenceWeekly :: string where "CadenceWeekly = ''weekly''"
definition CadenceDaily :: string where "CadenceDaily = ''daily''"
definition CadenceInterval :: string where "CadenceInterval = ''interval''"

lemmas cadence_defs = CadenceMonthly_def CadenceWeekly_def CadenceDaily_def CadenceInterval_def

record Recurrence =
  rCadence :: string
  rDayOfMonth :: "int option"
  rDayOfWeek :: "string option"
  rSeconds :: "int option"

record RetryBackoff =
  rbInitial :: int
  rbMultiplier :: f64
  rbMax :: int

text \<open>
  \<open>DelayForAttempt\<close>. The conversion of a product that does not fit a \<open>Duration\<close> is up to the
  implementation; it is the parameter \<open>oor\<close>.
\<close>

definition DelayForAttempt :: "(f64 \<Rightarrow> int) \<Rightarrow> RetryBackoff \<Rightarrow> int \<Rightarrow> int" where
  "DelayForAttempt oor rb attemptNumber =
     (let n = (if attemptNumber < 1 then 1 else attemptNumber);
          delay = f64_to_int oor
            (fmul (f64_of_int (rbInitial rb)) (Pow (rbMultiplier rb) (nat (n - 1))))
      in if 0 < rbMax rb \<and> rbMax rb < delay then rbMax rb else delay)"

definition CurrentScheduleSchemaVersion :: int where "CurrentScheduleSchemaVersion = 1"

record Schedule =
  sSchemaVersion :: int
  sID :: string
  sTenantID :: string
  sCreatedAt :: Time
  sUpdatedAt :: Time
  sCreatedBy :: string
  sCallbackURL :: string
  sPayload :: string
  sHeaders :: "(string \<times> string) list"
  sScheduleType :: string
  sFirstRunAt :: Time
  sRecurrence :: "Recurrence option"
  sTimezone :: string
  sMaxAttempts :: int
  sRetryBackoff :: RetryBackoff
  sCallTimeout :: "int option"
  sCatchUpPolicy :: string
  sStatus :: string
  sNextRunAt :: "Time option"

section \<open>Executions\<close>

definition DeriveIdempotencyKey :: "string \<Rightarrow> Time \<Rightarrow> string" where
  "DeriveIdempotencyKey scheduleID scheduledFor = scheduleID @ '':'' @ FormatRFC3339Nano scheduledFor"

definition CurrentExecutionSchemaVersion :: int where "CurrentExecutionSchemaVersion = 1"

definition ExecutionStatusPending :: string where "ExecutionStatusPending = ''pending''"
definition ExecutionStatusInFlight :: string where "ExecutionStatusInFlight = ''in_flight''"
definition ExecutionStatusSucceeded :: string where "ExecutionStatusSucceeded = ''succeeded''"
definition ExecutionStatusFailedTerminal :: string where "ExecutionStatusFailedTerminal = ''failed_terminal''"
definition ExecutionStatusFailedMaxRetries :: string where
  "ExecutionStatusFailedMaxRetries = ''failed_max_retries''"

lemmas execution_status_defs = ExecutionStatusPending_def ExecutionStatusInFlight_def
  ExecutionStatusSucceeded_def ExecutionStatusFailedTerminal_def ExecutionStatusFailedMaxRetries_def

definition FinalOutcomeTimedOut :: string where "FinalOutcomeTimedOut = ''timed out''"

record Execution =
  eSchemaVersion :: int
  eID :: string
  eTenantID :: string
  eScheduleID :: string
  eScheduledFor :: Time
  eIdempotencyKey :: string
  eOwnerNodeID :: string
  eClaimedAt :: "Time option"
  eStatus :: string
  eStartedAt :: "Time option"
  eCompletedAt :: "Time option"
  eAttemptCount :: int
  eLastAttemptID :: string
  eLastRetryAt :: "Time option"
  eFinalOutcome :: string

section \<open>Attempts\<close>

definition CurrentAttemptSchemaVersion :: int where "CurrentAttemptSchemaVersion = 1"

definition OutcomeSuccess :: string where "OutcomeSuccess = ''success''"
definition OutcomeRetry :: string where "OutcomeRetry = ''retry''"
definition OutcomeTerminalFailure :: string where "OutcomeTerminalFailure = ''terminal_failure''"

lemmas outcome_defs = OutcomeSuccess_def OutcomeRetry_def OutcomeTerminalFailure_def

record Attempt =
  aSchemaVersion :: int
  aID :: string
  aTenantID :: string
  aExecutionID :: string
  aNodeID :: string
  aAttemptNumber :: int
  aStartedAt :: "Time option"
  aCompletedAt :: "Time option"
  aRequestURL :: string
  aRequestHeaders :: "(string \<times> string) list"
  aRequestBodyHash :: string
  aResponseStatus :: int
  aResponseBodyExcerpt :: string
  aResponseHeaders :: "(string \<times> string) list"
  aOutcome :: string
  aRetryAt :: Time

section \<open>The platform\<close>

text \<open>
  What the Go implementation and its time zone data decide: \<open>time.LoadLocation\<close> on a zone
  name, and the result of an out-of-range float-to-integer conversion.
\<close>

record platform =
  LoadLocation :: "string \<Rightarrow> Location fallible"
  outOfRange :: "f64 \<Rightarrow> int"

end
