(* ===== verification/Bolt.thy ===== *)
theory Bolt
  imports Model
begin

text \<open>
  The interface of bbolt, the embedded key-value store the repository depends on. Its
  operations are parameters, collected in a record; what the storage layer relies on is
  the locale \<open>bolt_db\<close>, which states the documented behaviour: keys are kept in byte order,
  a cursor visits them in that order from the first or from the first key not below a
  given one, \<open>Put\<close> and \<open>Delete\<close> change one key, and a commit changes nothing that can be
  read. A positioned cursor is the list of the items from its position to the end of the
  bucket, so \<open>Next\<close> is the tail.
\<close>

record ('b, 'v) bolt =
  bGet :: "'b \<Rightarrow> string \<Rightarrow> string \<Rightarrow> 'v option"
  bPut :: "'b \<Rightarrow> string \<Rightarrow> string \<Rightarrow> 'v \<Rightarrow> 'b fallible"
  bDelete :: "'b \<Rightarrow> string \<Rightarrow> string \<Rightarrow> 'b fallible"
  bFirst :: "'b \<Rightarrow> string \<Rightarrow> (string \<times> 'v) list"
  bSeek :: "'b \<Rightarrow> string \<Rightarrow> string \<Rightarrow> (string \<times> 'v) list"
  bCommit :: "'b \<Rightarrow> 'b fallible"

locale bolt_db =
  fixes B :: "('b, 'v) bolt"
  assumes first_sorted: "sorted_keys (bFirst B s b)"
    and get_first: "bGet B s b k = map_of (bFirst B s b) k"
    and seek_first: "bSeek B s b k = dropWhile (\<lambda>(k', _). k' < k) (bFirst B s b)"
    and get_put: "bPut B s b k v = Inr s' \<Longrightarrow>
      bGet B s' b' k' = (if b' = b \<and> k' = k then Some v else bGet B s b' k')"
    and get_delete: "bDelete B s b k = Inr s' \<Longrightarrow>
      bGet B s' b' k' = (if b' = b \<and> k' = k then None else bGet B s b' k')"
    and first_commit: "bCommit B s = Inr s' \<Longrightarrow> bFirst B s' b = bFirst B s b"
begin

lemma get_commit: "bCommit B s = Inr s' \<Longrightarrow> bGet B s' b k = bGet B s b k"
  by (simp add: get_first first_commit)

lemma get_iff: "bGet B s b k = Some v \<longleftrightarrow> (k, v) \<in> set (bFirst B s b)"
  by (simp add: get_first sorted_keys_map_of first_sorted)

lemma seek_filter: "bSeek B s b k = filter (\<lambda>(k', _). k \<le> k') (bFirst B s b)"
  by (simp add: seek_first dropWhile_sorted_filter first_sorted)

lemma seek_sorted: "sorted_keys (bSeek B s b k)"
  unfolding seek_filter using first_sorted [of s b] by (simp add: sorted_wrt_map sorted_wrt_filter)

text \<open>Two states that answer every \<open>Get\<close> alike have the same cursors.\<close>

lemma first_determined:
  assumes "\<And>k. bGet B s b k = bGet B s' b' k"
  shows "bFirst B s b = bFirst B s' b'"
proof (rule map_sorted_distinct_set_unique [where f = fst])
  have eq: "(k, v) \<in> set (bFirst B s b) \<longleftrightarrow> (k, v) \<in> set (bFirst B s' b')" for k v
    using assms [of k] get_iff by metis
  then show "set (bFirst B s b) = set (bFirst B s' b')" by auto
  then show "inj_on fst (set (bFirst B s b) \<union> set (bFirst B s' b'))"
    using sorted_keys_distinct [OF first_sorted [of s b]] by (simp add: distinct_map)
qed (use first_sorted strict_sorted_iff in blast)+

end

section \<open>A reference store\<close>

text \<open>
  A store that satisfies the contract: the list of its entries, most recent write first,
  under bucket and key. A cursor sorts the keys of its bucket. \<open>Put\<close> rejects the empty key
  and keys over the documented maximum of 32768 bytes.
\<close>

type_synonym 'v mem = "((string \<times> string) \<times> 'v) list"

definition memPut :: "'v mem \<Rightarrow> string \<Rightarrow> string \<Rightarrow> 'v \<Rightarrow> 'v mem fallible" where
  "memPut s b k v =
     (if k = [] then Inl ''key required''
      else if 32768 < length k then Inl ''key too large''
      else Inr (((b, k), v) # s))"

definition memKeys :: "'v mem \<Rightarrow> string \<Rightarrow> string list" where
  "memKeys s b = sort (remdups (map (snd \<circ> fst) (filter (\<lambda>e. fst (fst e) = b) s)))"

definition memItems :: "'v mem \<Rightarrow> string \<Rightarrow> (string \<times> 'v) list" where
  "memItems s b = map (\<lambda>k. (k, the (map_of s (b, k)))) (memKeys s b)"

definition memBolt :: "('v mem, 'v) bolt" where
  "memBolt = \<lparr>
     bGet = (\<lambda>s b k. map_of s (b, k)),
     bPut = memPut,
     bDelete = (\<lambda>s b k. Inr (filter (\<lambda>e. fst e \<noteq> (b, k)) s)),
     bFirst = memItems,
     bSeek = (\<lambda>s b k. dropWhile (\<lambda>(k', _). k' < k) (memItems s b)),
     bCommit = Inr\<rparr>"

definition memEmpty :: "'v mem" where
  "memEmpty = []"

lemma set_memKeys: "k \<in> set (memKeys s b) \<longleftrightarrow> map_of s (b, k) \<noteq> None"
proof -
  have "map_of s (b, k) \<noteq> None \<longleftrightarrow> (b, k) \<in> fst ` set s" using map_of_eq_None_iff by metis
  then show ?thesis by (force simp: memKeys_def)
qed

lemma memItems_fst [simp]: "map fst (memItems s b) = memKeys s b"
  by (simp add: memItems_def comp_def)

lemma map_of_memItems: "map_of (memItems s b) k = map_of s (b, k)"
  by (auto simp: memItems_def map_of_map_restrict restrict_map_def set_memKeys)

lemma map_of_filter_other: "map_of (filter (\<lambda>e. fst e \<noteq> y) s) x = (if x = y then None else map_of s x)"
  by (induction s) auto

interpretation mem_db: bolt_db memBolt
proof
  fix s :: "'v mem" and b
  show "sorted_keys (bFirst memBolt s b)"
    by (simp add: memBolt_def strict_sorted_iff) (simp add: memKeys_def)
qed (auto simp: memBolt_def memPut_def map_of_memItems map_of_filter_other split: if_splits)

end
