(* ===== verification/Storage.thy ===== *)
theory Storage
  imports Bolt
begin

text \<open>
  The persistence layer \<open>internal/storage/storage.go\<close>: the \<open>Tx\<close> interface as a record of
  operations, and its implementation \<open>boltTx\<close> over the bbolt parameter, with the primary
  buckets, the secondary index buckets, the prefix scans and the paginated scans.

  A stored JSON document is represented by the value it encodes: \<open>json.Marshal\<close> fails
  exactly on a time it cannot represent, and \<open>json.Unmarshal\<close> of what \<open>Marshal\<close> produced
  gives the value back. Index entries carry no value.
\<close>

section \<open>Stored documents\<close>

datatype row = ScheduleRow Schedule | ExecutionRow Execution | AttemptRow Attempt | TenantRow Tenant | NoValue

definition marshalErr :: goerror where
  "marshalErr = ''json: error calling MarshalJSON for type time.Time''"

definition unmarshalErr :: goerror where
  "unmarshalErr = ''json: cannot unmarshal value''"

definition optTimeOK :: "Time option \<Rightarrow> bool" where
  "optTimeOK t \<longleftrightarrow> (case t of None \<Rightarrow> True | Some u \<Rightarrow> jsonTimeOK u)"

definition marshalSchedule :: "Schedule \<Rightarrow> row fallible" where
  "marshalSchedule x =
     (if jsonTimeOK (sCreatedAt x) \<and> jsonTimeOK (sUpdatedAt x) \<and> jsonTimeOK (sFirstRunAt x) \<and>
         optTimeOK (sNextRunAt x)
      then Inr (ScheduleRow x) else Inl marshalErr)"

definition marshalExecution :: "Execution \<Rightarrow> row fallible" where
  "marshalExecution x =
     (if jsonTimeOK (eScheduledFor x) \<and> optTimeOK (eClaimedAt x) \<and> optTimeOK (eStartedAt x) \<and>
         optTimeOK (eCompletedAt x) \<and> optTimeOK (eLastRetryAt x)
      then Inr (ExecutionRow x) else Inl marshalErr)"

definition marshalAttempt :: "Attempt \<Rightarrow> row fallible" where
  "marshalAttempt x =
     (if optTimeOK (aStartedAt x) \<and> optTimeOK (aCompletedAt x) \<and> jsonTimeOK (aRetryAt x)
      then Inr (AttemptRow x) else Inl marshalErr)"

definition marshalTenant :: "Tenant \<Rightarrow> row fallible" where
  "marshalTenant x = (if jsonTimeOK (tnCreatedAt x) then Inr (TenantRow x) else Inl marshalErr)"

fun unmarshalSchedule :: "row \<Rightarrow> Schedule fallible" where
  "unmarshalSchedule (ScheduleRow x) = Inr x"
| "unmarshalSchedule _ = Inl unmarshalErr"

fun unmarshalExecution :: "row \<Rightarrow> Execution fallible" where
  "unmarshalExecution (ExecutionRow x) = Inr x"
| "unmarshalExecution _ = Inl unmarshalErr"

fun unmarshalAttempt :: "row \<Rightarrow> Attempt fallible" where
  "unmarshalAttempt (AttemptRow x) = Inr x"
| "unmarshalAttempt _ = Inl unmarshalErr"

fun unmarshalTenant :: "row \<Rightarrow> Tenant fallible" where
  "unmarshalTenant (TenantRow x) = Inr x"
| "unmarshalTenant _ = Inl unmarshalErr"

lemma marshal_Inr [simp]:
  "marshalSchedule x = Inr r \<Longrightarrow> r = ScheduleRow x"
  "marshalExecution e = Inr r \<Longrightarrow> r = ExecutionRow e"
  "marshalAttempt a = Inr r \<Longrightarrow> r = AttemptRow a"
  "marshalTenant t = Inr r \<Longrightarrow> r = TenantRow t"
  by (auto simp: marshalSchedule_def marshalExecution_def marshalAttempt_def marshalTenant_def
      split: if_splits)

section \<open>Buckets and keys\<close>

definition bucketSchedules :: string where "bucketSchedules = ''schedules''"
definition bucketExecutions :: string where "bucketExecutions = ''executions''"
definition bucketAttempts :: string where "bucketAttempts = ''attempts''"
definition bucketTenants :: string where "bucketTenants = ''tenants''"
definition bucketExecutionsBySchedule :: string where "bucketExecutionsBySchedule = ''executions_by_schedule''"
definition bucketExecutionsByStatus :: string where "bucketExecutionsByStatus = ''executions_by_status''"
definition bucketAttemptsByExecution :: string where "bucketAttemptsByExecution = ''attempts_by_execution''"
definition bucketSchedulesByStatus :: string where "bucketSchedulesByStatus = ''schedules_by_status''"

lemmas bucket_defs [simp] = bucketSchedules_def bucketExecutions_def bucketAttempts_def
  bucketTenants_def bucketExecutionsBySchedule_def bucketExecutionsByStatus_def
  bucketAttemptsByExecution_def bucketSchedulesByStatus_def

definition scheduleKey :: "string \<Rightarrow> string \<Rightarrow> string" where
  "scheduleKey tenantID i = tenantID @ '':'' @ i"

definition executionKey :: "string \<Rightarrow> string \<Rightarrow> string" where
  "executionKey tenantID i = tenantID @ '':'' @ i"

definition attemptKey :: "string \<Rightarrow> string \<Rightarrow> string" where
  "attemptKey tenantID i = tenantID @ '':'' @ i"

definition executionByScheduleKey :: "string \<Rightarrow> string \<Rightarrow> string \<Rightarrow> string" where
  "executionByScheduleKey tenantID scheduleID i = tenantID @ '':'' @ scheduleID @ '':'' @ i"

definition executionByStatusKey :: "string \<Rightarrow> string \<Rightarrow> string \<Rightarrow> string" where
  "executionByStatusKey tenantID status i = tenantID @ '':'' @ status @ '':'' @ i"

definition attemptsByExecutionKey :: "string \<Rightarrow> string \<Rightarrow> string \<Rightarrow> string" where
  "attemptsByExecutionKey tenantID executionID i = tenantID @ '':'' @ executionID @ '':'' @ i"

definition scheduleByStatusKey :: "string \<Rightarrow> string \<Rightarrow> string \<Rightarrow> string" where
  "scheduleByStatusKey tenantID status i = tenantID @ '':'' @ status @ '':'' @ i"

lemmas key_defs = scheduleKey_def executionKey_def attemptKey_def executionByScheduleKey_def
  executionByStatusKey_def attemptsByExecutionKey_def scheduleByStatusKey_def

section \<open>The transaction interface\<close>

text \<open>
  The interface \<open>Tx\<close>. The listing methods take a callback that may stop the iteration; they
  are represented by the sequence of rows the callback is handed, in order, followed by
  the error the iteration itself ends with, if any. A callback that stops early sees a
  prefix of that sequence.
\<close>

type_synonym 'r listing = "'r list \<times> goerror option"
type_synonym 'r page = "('r list \<times> string) fallible"

record 's Tx =
  GetSchedule :: "'s \<Rightarrow> string \<Rightarrow> string \<Rightarrow> Schedule option fallible"
  PutSchedule :: "'s \<Rightarrow> Schedule \<Rightarrow> 's fallible"
  GetExecution :: "'s \<Rightarrow> string \<Rightarrow> string \<Rightarrow> Execution option fallible"
  PutExecution :: "'s \<Rightarrow> Execution \<Rightarrow> 's fallible"
  GetAttempt :: "'s \<Rightarrow> string \<Rightarrow> string \<Rightarrow> Attempt option fallible"
  PutAttempt :: "'s \<Rightarrow> Attempt \<Rightarrow> 's fallible"
  PutTenant :: "'s \<Rightarrow> Tenant \<Rightarrow> 's fallible"
  GetTenant :: "'s \<Rightarrow> string \<Rightarrow> Tenant option fallible"
  ListTenants :: "'s \<Rightarrow> Tenant list fallible"
  ListExecutionsBySchedule :: "'s \<Rightarrow> string \<Rightarrow> string \<Rightarrow> Execution listing"
  ListExecutionsByStatus :: "'s \<Rightarrow> string \<Rightarrow> string \<Rightarrow> Execution listing"
  ListAttemptsByExecution :: "'s \<Rightarrow> string \<Rightarrow> string \<Rightarrow> Attempt listing"
  ListSchedulesDue :: "'s \<Rightarrow> string \<Rightarrow> Time \<Rightarrow> Schedule listing"
  ListTenantsPage :: "'s \<Rightarrow> int \<Rightarrow> string \<Rightarrow> Tenant page"
  ListExecutionsBySchedulePage :: "'s \<Rightarrow> string \<Rightarrow> string \<Rightarrow> int \<Rightarrow> string \<Rightarrow> Execution page"
  ListExecutionsByStatusPage :: "'s \<Rightarrow> string \<Rightarrow> string \<Rightarrow> int \<Rightarrow> string \<Rightarrow> Execution page"
  ListAttemptsByExecutionPage :: "'s \<Rightarrow> string \<Rightarrow> string \<Rightarrow> int \<Rightarrow> string \<Rightarrow> Attempt page"

section \<open>The bbolt transaction\<close>

definition getRow :: "('b, row) bolt \<Rightarrow> 'b \<Rightarrow> string \<Rightarrow> string \<Rightarrow> (row \<Rightarrow> 'r fallible) \<Rightarrow> 'r option fallible" where
  "getRow B s bucket key unmarshal =
     (case bGet B s bucket key of
        None \<Rightarrow> Inr None
      | Some raw \<Rightarrow> (case unmarshal raw of Inl err \<Rightarrow> Inl err | Inr x \<Rightarrow> Inr (Some x)))"

definition boltGetSchedule :: "('b, row) bolt \<Rightarrow> 'b \<Rightarrow> string \<Rightarrow> string \<Rightarrow> Schedule option fallible" where
  "boltGetSchedule B s tenantID i = getRow B s bucketSchedules (scheduleKey tenantID i) unmarshalSchedule"

definition boltPutSchedule :: "('b, row) bolt \<Rightarrow> 'b \<Rightarrow> Schedule \<Rightarrow> 'b fallible" where
  "boltPutSchedule B s x =
     andThen (wrapErr ''Could not find the schedule '' (boltGetSchedule B s (sTenantID x) (sID x)))
       (\<lambda>oldRow.
     andThen (case oldRow of
                None \<Rightarrow> Inr s
              | Some old \<Rightarrow> wrapErr ''Delete was not successful ''
                  (bDelete B s bucketSchedulesByStatus
                     (scheduleByStatusKey (sTenantID old) (sStatus old) (sID old))))
       (\<lambda>s1.
     andThen (marshalSchedule x) (\<lambda>jsonData.
     andThen (wrapErr ''Put to Schedules Bucket was unsuccessful ''
                (bPut B s1 bucketSchedules (scheduleKey (sTenantID x) (sID x)) jsonData))
       (\<lambda>s2. wrapErr ''Put to Schedules By Status Bucket was unsuccessful ''
                (bPut B s2 bucketSchedulesByStatus
                   (scheduleByStatusKey (sTenantID x) (sStatus x) (sID x)) NoValue)))))"

definition boltGetExecution :: "('b, row) bolt \<Rightarrow> 'b \<Rightarrow> string \<Rightarrow> string \<Rightarrow> Execution option fallible" where
  "boltGetExecution B s tenantID i = getRow B s bucketExecutions (executionKey tenantID i) unmarshalExecution"

definition boltPutExecution :: "('b, row) bolt \<Rightarrow> 'b \<Rightarrow> Execution \<Rightarrow> 'b fallible" where
  "boltPutExecution B s ex =
     andThen (wrapErr ''Could not find the execution '' (boltGetExecution B s (eTenantID ex) (eID ex)))
       (\<lambda>oldRow.
     andThen (case oldRow of
                None \<Rightarrow> Inr s
              | Some old \<Rightarrow> wrapErr ''Delete was not successful ''
                  (bDelete B s bucketExecutionsByStatus
                     (executionByStatusKey (eTenantID old) (eStatus old) (eID old))))
       (\<lambda>s1.
     andThen (marshalExecution ex) (\<lambda>jsonData.
     andThen (wrapErr ''Put to Executions Bucket was unsuccessful ''
                (bPut B s1 bucketExecutions (executionKey (eTenantID ex) (eID ex)) jsonData))
       (\<lambda>s2.
     andThen (wrapErr ''Put to Executions By Status was Bucket was unsuccessful ''
                (bPut B s2 bucketExecutionsByStatus
                   (executionByStatusKey (eTenantID ex) (eStatus ex) (eID ex)) NoValue))
       (\<lambda>s3. wrapErr ''Put to Executions By Schedule Bucket was unsuccessful ''
                (bPut B s3 bucketExecutionsBySchedule
                   (executionByScheduleKey (eTenantID ex) (eScheduleID ex) (eID ex)) NoValue))))))"

definition boltGetAttempt :: "('b, row) bolt \<Rightarrow> 'b \<Rightarrow> string \<Rightarrow> string \<Rightarrow> Attempt option fallible" where
  "boltGetAttempt B s tenantID i = getRow B s bucketAttempts (attemptKey tenantID i) unmarshalAttempt"

definition boltPutAttempt :: "('b, row) bolt \<Rightarrow> 'b \<Rightarrow> Attempt \<Rightarrow> 'b fallible" where
  "boltPutAttempt B s a =
     andThen (marshalAttempt a) (\<lambda>jsonData.
     andThen (wrapErr ''Put to Attempts Bucket was unsuccessful ''
                (bPut B s bucketAttempts (attemptKey (aTenantID a) (aID a)) jsonData))
       (\<lambda>s1. wrapErr ''Put to Attempts By Execution Bucket was unsuccessful ''
                (bPut B s1 bucketAttemptsByExecution
                   (attemptsByExecutionKey (aTenantID a) (aExecutionID a) (aID a)) NoValue)))"

definition boltPutTenant :: "('b, row) bolt \<Rightarrow> 'b \<Rightarrow> Tenant \<Rightarrow> 'b fallible" where
  "boltPutTenant B s tenant =
     andThen (marshalTenant tenant) (\<lambda>jsonData. bPut B s bucketTenants (tnID tenant) jsonData)"

definition boltGetTenant :: "('b, row) bolt \<Rightarrow> 'b \<Rightarrow> string \<Rightarrow> Tenant option fallible" where
  "boltGetTenant B s i = getRow B s bucketTenants i unmarshalTenant"

text \<open>\<open>ForEach\<close> over the bucket, decoding each value and stopping at the first that fails.\<close>

fun decodeAll :: "('v \<Rightarrow> 'r fallible) \<Rightarrow> (string \<times> 'v) list \<Rightarrow> 'r list fallible" where
  "decodeAll unmarshal [] = Inr []"
| "decodeAll unmarshal ((k, raw) # rest) =
     andThen (unmarshal raw) (\<lambda>x. andThen (decodeAll unmarshal rest) (\<lambda>xs. Inr (x # xs)))"

definition boltListTenants :: "('b, row) bolt \<Rightarrow> 'b \<Rightarrow> Tenant list fallible" where
  "boltListTenants B s = decodeAll unmarshalTenant (bFirst B s bucketTenants)"

text \<open>
  The loop of the paginated methods: \<open>acc\<close> holds the items collected so far in reverse,
  \<open>fetch\<close> loads the item of a key and value. When \<open>limit\<close> items are collected and one
  more key matches, the last collected item's ID is the next cursor.
\<close>

fun pageLoop ::
  "(string \<Rightarrow> bool) \<Rightarrow> (string \<times> 'v \<Rightarrow> 'r fallible) \<Rightarrow> ('r \<Rightarrow> string) \<Rightarrow> int \<Rightarrow> 'r list \<Rightarrow>
   (string \<times> 'v) list \<Rightarrow> 'r page" where
  "pageLoop matches fetch idOf limit acc [] = Inr (rev acc, [])"
| "pageLoop matches fetch idOf limit acc ((k, v) # rest) =
     (if \<not> matches k then Inr (rev acc, [])
      else if int (length acc) = limit then Inr (rev acc, idOf (hd acc))
      else andThen (fetch (k, v)) (\<lambda>x. pageLoop matches fetch idOf limit (x # acc) rest))"

text \<open>The start of a page: the cursor's own key is skipped if it is still there.\<close>

definition resumeAt :: "string \<Rightarrow> string \<Rightarrow> (string \<times> 'v) list \<Rightarrow> (string \<times> 'v) list" where
  "resumeAt cursor startKey items =
     (if cursor \<noteq> [] \<and> items \<noteq> [] \<and> fst (hd items) = startKey then tl items else items)"

definition boltListTenantsPage :: "('b, row) bolt \<Rightarrow> 'b \<Rightarrow> int \<Rightarrow> string \<Rightarrow> Tenant page" where
  "boltListTenantsPage B s limit cursor =
     (if limit \<le> 0 then Inr ([], [])
      else pageLoop (\<lambda>_. True) (\<lambda>(k, v). unmarshalTenant v) tnID limit []
        (if cursor = [] then bFirst B s bucketTenants
         else resumeAt cursor cursor (bSeek B s bucketTenants cursor)))"

text \<open>
  The loop of the prefix scans: for each index key with the prefix the row it names is
  loaded; an index entry without a row ends the scan with an error.
\<close>

fun prefixScan :: "string \<Rightarrow> (string \<Rightarrow> 'r option fallible) \<Rightarrow> (string \<Rightarrow> goerror) \<Rightarrow> (string \<times> 'v) list \<Rightarrow> 'r listing" where
  "prefixScan p get missing [] = ([], None)"
| "prefixScan p get missing ((k, _) # rest) =
     (if \<not> prefix p k then ([], None)
      else case get (drop (length p) k) of
        Inl err \<Rightarrow> ([], Some err)
      | Inr None \<Rightarrow> ([], Some (missing (drop (length p) k)))
      | Inr (Some x) \<Rightarrow> (let (xs, err) = prefixScan p get missing rest in (x # xs, err)))"

definition missingExecution :: "string \<Rightarrow> string \<Rightarrow> goerror" where
  "missingExecution tenantID execID =
     ''index entry references missing execution: tenant='' @ tenantID @ '' exec_id='' @ execID"

definition missingSchedule :: "string \<Rightarrow> string \<Rightarrow> goerror" where
  "missingSchedule tenantID schedID =
     ''index entry references missing schedule: tenant='' @ tenantID @ '' schedule_id='' @ schedID"

definition missingAttempt :: "string \<Rightarrow> string \<Rightarrow> goerror" where
  "missingAttempt tenantID attemptID =
     ''index entry references missing attempt: tenant='' @ tenantID @ '' attempt_id='' @ attemptID"

definition scanIndex ::
  "('b, row) bolt \<Rightarrow> 'b \<Rightarrow> string \<Rightarrow> string \<Rightarrow> (string \<Rightarrow> 'r option fallible) \<Rightarrow> (string \<Rightarrow> goerror) \<Rightarrow> 'r listing" where
  "scanIndex B s bucket p get missing = prefixScan p get missing (bSeek B s bucket p)"

definition fetchIndexed :: "string \<Rightarrow> (string \<Rightarrow> 'r option fallible) \<Rightarrow> (string \<Rightarrow> goerror) \<Rightarrow> string \<times> 'v \<Rightarrow> 'r fallible" where
  "fetchIndexed p get missing kv =
     (let i = drop (length p) (fst kv)
      in case get i of Inl err \<Rightarrow> Inl err | Inr None \<Rightarrow> Inl (missing i) | Inr (Some x) \<Rightarrow> Inr x)"

definition pageIndex ::
  "('b, row) bolt \<Rightarrow> 'b \<Rightarrow> string \<Rightarrow> string \<Rightarrow> (string \<Rightarrow> 'r option fallible) \<Rightarrow> (string \<Rightarrow> goerror) \<Rightarrow>
   ('r \<Rightarrow> string) \<Rightarrow> int \<Rightarrow> string \<Rightarrow> 'r page" where
  "pageIndex B s bucket p get missing idOf limit cursor =
     (if limit \<le> 0 then Inr ([], [])
      else let startKey = (if cursor \<noteq> [] then p @ cursor else p)
           in pageLoop (prefix p) (fetchIndexed p get missing) idOf limit []
                (resumeAt cursor startKey (bSeek B s bucket startKey)))"

definition boltListExecutionsBySchedule :: "('b, row) bolt \<Rightarrow> 'b \<Rightarrow> string \<Rightarrow> string \<Rightarrow> Execution listing" where
  "boltListExecutionsBySchedule B s tenantID scheduleID =
     scanIndex B s bucketExecutionsBySchedule (executionByScheduleKey tenantID scheduleID [])
       (boltGetExecution B s tenantID) (missingExecution tenantID)"

definition boltListExecutionsBySchedulePage ::
  "('b, row) bolt \<Rightarrow> 'b \<Rightarrow> string \<Rightarrow> string \<Rightarrow> int \<Rightarrow> string \<Rightarrow> Execution page" where
  "boltListExecutionsBySchedulePage B s tenantID scheduleID =
     pageIndex B s bucketExecutionsBySchedule (executionByScheduleKey tenantID scheduleID [])
       (boltGetExecution B s tenantID) (missingExecution tenantID) eID"

definition boltListExecutionsByStatus :: "('b, row) bolt \<Rightarrow> 'b \<Rightarrow> string \<Rightarrow> string \<Rightarrow> Execution listing" where
  "boltListExecutionsByStatus B s tenantID status =
     scanIndex B s bucketExecutionsByStatus (executionByStatusKey tenantID status [])
       (boltGetExecution B s tenantID) (missingExecution tenantID)"

definition boltListExecutionsByStatusPage ::
  "('b, row) bolt \<Rightarrow> 'b \<Rightarrow> string \<Rightarrow> string \<Rightarrow> int \<Rightarrow> string \<Rightarrow> Execution page" where
  "boltListExecutionsByStatusPage B s tenantID status =
     pageIndex B s bucketExecutionsByStatus (executionByStatusKey tenantID status [])
       (boltGetExecution B s tenantID) (missingExecution tenantID) eID"

text \<open>Rows without a next run, or with one in the future, are skipped.\<close>

definition isDue :: "Time \<Rightarrow> Schedule \<Rightarrow> bool" where
  "isDue now x \<longleftrightarrow> (case sNextRunAt x of None \<Rightarrow> False | Some t \<Rightarrow> \<not> After t now)"

definition boltListSchedulesDue :: "('b, row) bolt \<Rightarrow> 'b \<Rightarrow> string \<Rightarrow> Time \<Rightarrow> Schedule listing" where
  "boltListSchedulesDue B s tenantID now =
     (let (xs, err) = scanIndex B s bucketSchedulesByStatus
            (scheduleByStatusKey tenantID ScheduleStatusActive [])
            (boltGetSchedule B s tenantID) (missingSchedule tenantID)
      in (filter (isDue now) xs, err))"

definition boltListAttemptsByExecution :: "('b, row) bolt \<Rightarrow> 'b \<Rightarrow> string \<Rightarrow> string \<Rightarrow> Attempt listing" where
  "boltListAttemptsByExecution B s tenantID executionID =
     scanIndex B s bucketAttemptsByExecution (attemptsByExecutionKey tenantID executionID [])
       (boltGetAttempt B s tenantID) (missingAttempt tenantID)"

definition boltListAttemptsByExecutionPage ::
  "('b, row) bolt \<Rightarrow> 'b \<Rightarrow> string \<Rightarrow> string \<Rightarrow> int \<Rightarrow> string \<Rightarrow> Attempt page" where
  "boltListAttemptsByExecutionPage B s tenantID executionID =
     pageIndex B s bucketAttemptsByExecution (attemptsByExecutionKey tenantID executionID [])
       (boltGetAttempt B s tenantID) (missingAttempt tenantID) aID"

definition boltTx :: "('b, row) bolt \<Rightarrow> 'b Tx" where
  "boltTx B = \<lparr>
     GetSchedule = boltGetSchedule B, PutSchedule = boltPutSchedule B,
     GetExecution = boltGetExecution B, PutExecution = boltPutExecution B,
     GetAttempt = boltGetAttempt B, PutAttempt = boltPutAttempt B,
     PutTenant = boltPutTenant B, GetTenant = boltGetTenant B, ListTenants = boltListTenants B,
     ListExecutionsBySchedule = boltListExecutionsBySchedule B,
     ListExecutionsByStatus = boltListExecutionsByStatus B,
     ListAttemptsByExecution = boltListAttemptsByExecution B,
     ListSchedulesDue = boltListSchedulesDue B,
     ListTenantsPage = boltListTenantsPage B,
     ListExecutionsBySchedulePage = boltListExecutionsBySchedulePage B,
     ListExecutionsByStatusPage = boltListExecutionsByStatusPage B,
     ListAttemptsByExecutionPage = boltListAttemptsByExecutionPage B\<rparr>"

section \<open>Managed transactions\<close>

text \<open>
  \<open>BoltStorage.Update\<close> runs the function in a read-write transaction: it commits when the
  function returns no error and rolls everything back otherwise. \<open>View\<close> runs it on a
  read-only one.
\<close>

definition storageUpdate :: "('b, row) bolt \<Rightarrow> 'b \<Rightarrow> ('b \<Rightarrow> failure + 'b \<times> 'r) \<Rightarrow> 'b \<times> (failure + 'r)" where
  "storageUpdate B s fn =
     (case fn s of
        Inl err \<Rightarrow> (s, Inl err)
      | Inr (s1, r) \<Rightarrow>
          (case bCommit B s1 of Inl err \<Rightarrow> (s, Inl (Error err)) | Inr s2 \<Rightarrow> (s2, Inr r)))"

definition storageView :: "'b \<Rightarrow> ('b \<Rightarrow> 'r fallible) \<Rightarrow> 'r fallible" where
  "storageView s fn = fn s"

end
