(* ===== verification/TxContract.thy ===== *)
theory TxContract
  imports Storage
begin

text \<open>
  What the layers above rely on from a storage transaction: the abstract database a
  transaction state stands for, four finite maps, and the locale \<open>tx_spec\<close> with the laws
  of the \<open>Tx\<close> interface over it. The commands are verified against these laws only; that
  \<open>boltTx\<close> satisfies them is shown in \<open>StorageCorrect\<close>.

  Composite keys are joined with colons and never escaped, so the laws ask for IDs
  without a colon wherever an ID is followed by another component in some key.
\<close>

record db =
  dbSchedules :: "string \<times> string \<Rightarrow> Schedule option"
  dbExecutions :: "string \<times> string \<Rightarrow> Execution option"
  dbAttempts :: "string \<times> string \<Rightarrow> Attempt option"
  dbTenants :: "string \<Rightarrow> Tenant option"

definition schedule_storable :: "Schedule \<Rightarrow> bool" where
  "schedule_storable x \<longleftrightarrow> no_colon (sTenantID x) \<and> no_colon (sStatus x)"

definition execution_storable :: "db \<Rightarrow> Execution \<Rightarrow> bool" where
  "execution_storable d x \<longleftrightarrow>
     no_colon (eTenantID x) \<and> no_colon (eStatus x) \<and> no_colon (eScheduleID x) \<and>
     (\<forall>old. dbExecutions d (eTenantID x, eID x) = Some old \<longrightarrow> eScheduleID old = eScheduleID x)"

definition attempt_storable :: "db \<Rightarrow> Attempt \<Rightarrow> bool" where
  "attempt_storable d x \<longleftrightarrow>
     no_colon (aTenantID x) \<and> no_colon (aExecutionID x) \<and>
     (\<forall>old. dbAttempts d (aTenantID x, aID x) = Some old \<longrightarrow> aExecutionID old = aExecutionID x)"

text \<open>A listing is correct when it ends without error and holds the matching rows by ID.\<close>

definition lists_rows :: "'r listing \<Rightarrow> ('r \<Rightarrow> string) \<Rightarrow> 'r set \<Rightarrow> bool" where
  "lists_rows l idOf S \<longleftrightarrow> snd l = None \<and> sorted_wrt (\<lambda>x y. idOf x < idOf y) (fst l) \<and> set (fst l) = S"

lemma lists_rowsE:
  assumes "lists_rows l idOf S"
  obtains xs where "l = (xs, None)" "sorted_wrt (\<lambda>x y. idOf x < idOf y) xs" "set xs = S"
  using assms by (cases l) (auto simp: lists_rows_def)

locale tx_spec =
  fixes T :: "'s Tx" and inv :: "'s \<Rightarrow> bool" and view :: "'s \<Rightarrow> db"
  assumes get_tenant: "inv s \<Longrightarrow> GetTenant T s t = Inr (dbTenants (view s) t)"
    and get_schedule: "inv s \<Longrightarrow> no_colon t \<Longrightarrow> GetSchedule T s t i = Inr (dbSchedules (view s) (t, i))"
    and get_execution: "inv s \<Longrightarrow> no_colon t \<Longrightarrow> GetExecution T s t i = Inr (dbExecutions (view s) (t, i))"
    and get_attempt: "inv s \<Longrightarrow> no_colon t \<Longrightarrow> GetAttempt T s t i = Inr (dbAttempts (view s) (t, i))"
    and put_tenant: "inv s \<Longrightarrow> PutTenant T s n = Inr s' \<Longrightarrow>
      inv s' \<and> view s' = (view s)\<lparr>dbTenants := (dbTenants (view s))(tnID n \<mapsto> n)\<rparr>"
    and put_schedule: "inv s \<Longrightarrow> schedule_storable x \<Longrightarrow> PutSchedule T s x = Inr s' \<Longrightarrow>
      inv s' \<and> view s' = (view s)\<lparr>dbSchedules := (dbSchedules (view s))((sTenantID x, sID x) \<mapsto> x)\<rparr>"
    and put_execution: "inv s \<Longrightarrow> execution_storable (view s) e \<Longrightarrow> PutExecution T s e = Inr s' \<Longrightarrow>
      inv s' \<and> view s' = (view s)\<lparr>dbExecutions := (dbExecutions (view s))((eTenantID e, eID e) \<mapsto> e)\<rparr>"
    and put_attempt: "inv s \<Longrightarrow> attempt_storable (view s) a \<Longrightarrow> PutAttempt T s a = Inr s' \<Longrightarrow>
      inv s' \<and> view s' = (view s)\<lparr>dbAttempts := (dbAttempts (view s))((aTenantID a, aID a) \<mapsto> a)\<rparr>"
    and list_by_schedule: "inv s \<Longrightarrow> no_colon t \<Longrightarrow> no_colon j \<Longrightarrow>
      lists_rows (ListExecutionsBySchedule T s t j) eID
        {e. \<exists>i. dbExecutions (view s) (t, i) = Some e \<and> eScheduleID e = j}"
    and list_by_status: "inv s \<Longrightarrow> no_colon t \<Longrightarrow> no_colon st \<Longrightarrow>
      lists_rows (ListExecutionsByStatus T s t st) eID
        {e. \<exists>i. dbExecutions (view s) (t, i) = Some e \<and> eStatus e = st}"
    and list_attempts: "inv s \<Longrightarrow> no_colon t \<Longrightarrow> no_colon j \<Longrightarrow>
      lists_rows (ListAttemptsByExecution T s t j) aID
        {a. \<exists>i. dbAttempts (view s) (t, i) = Some a \<and> aExecutionID a = j}"
    and list_due: "inv s \<Longrightarrow> no_colon t \<Longrightarrow>
      lists_rows (ListSchedulesDue T s t now) sID
        {x. \<exists>i. dbSchedules (view s) (t, i) = Some x \<and> sStatus x = ScheduleStatusActive \<and> isDue now x}"
    and schedule_rows: "inv s \<Longrightarrow> dbSchedules (view s) (t, i) = Some x \<Longrightarrow>
      sTenantID x = t \<and> sID x = i \<and> schedule_storable x"
    and execution_rows: "inv s \<Longrightarrow> dbExecutions (view s) (t, i) = Some e \<Longrightarrow>
      eTenantID e = t \<and> eID e = i \<and> execution_storable (view s) e"
    and attempt_rows: "inv s \<Longrightarrow> dbAttempts (view s) (t, i) = Some a \<Longrightarrow>
      aTenantID a = t \<and> aID a = i \<and> attempt_storable (view s) a"
    and tenant_rows: "inv s \<Longrightarrow> dbTenants (view s) t = Some n \<Longrightarrow> tnID n = t"
begin

lemmas get_laws = get_tenant get_schedule get_execution get_attempt
lemmas put_laws = put_tenant put_schedule put_execution put_attempt
lemmas row_laws = schedule_rows execution_rows attempt_rows tenant_rows

end

end
