(* ===== verification/StorageCorrect.thy ===== *)
theory StorageCorrect
  imports TxContract
begin

text \<open>
  The bbolt transaction keeps its secondary indexes consistent with the primary buckets
  and implements the abstract database: \<open>store_inv\<close> is the consistency invariant, \<open>store_view\<close>
  the abstract database of a store, and the sublocale shows the laws of \<open>tx_spec\<close> for
  \<open>boltTx\<close> over any store that behaves as bbolt documents.
\<close>

section \<open>Keys\<close>

lemma scheduleKey_inject [key_simps]:
  "no_colon t \<Longrightarrow> no_colon t' \<Longrightarrow> scheduleKey t i = scheduleKey t' i' \<longleftrightarrow> t = t' \<and> i = i'"
  by (simp add: key_defs key_simps)

lemma executionKey_inject [key_simps]:
  "no_colon t \<Longrightarrow> no_colon t' \<Longrightarrow> executionKey t i = executionKey t' i' \<longleftrightarrow> t = t' \<and> i = i'"
  by (simp add: key_defs key_simps)

lemma attemptKey_inject [key_simps]:
  "no_colon t \<Longrightarrow> no_colon t' \<Longrightarrow> attemptKey t i = attemptKey t' i' \<longleftrightarrow> t = t' \<and> i = i'"
  by (simp add: key_defs key_simps)

text \<open>The four index keys have one shape; their facts are shown for the shape.\<close>

definition indexKey :: "string \<Rightarrow> string \<Rightarrow> string \<Rightarrow> string" where
  "indexKey t m i = t @ colon # m @ colon # i"

lemma index_keys:
  "scheduleByStatusKey = indexKey" "executionByStatusKey = indexKey"
  "executionByScheduleKey = indexKey" "attemptsByExecutionKey = indexKey"
  by (simp_all add: fun_eq_iff key_defs indexKey_def)

lemma indexKey_inject [key_simps]:
  "no_colon t \<Longrightarrow> no_colon t' \<Longrightarrow> no_colon m \<Longrightarrow> no_colon m' \<Longrightarrow>
   indexKey t m i = indexKey t' m' i' \<longleftrightarrow> t = t' \<and> m = m' \<and> i = i'"
  by (simp add: indexKey_def key_simps)

lemma indexKey_prefix [key_simps]:
  "no_colon t \<Longrightarrow> no_colon t' \<Longrightarrow> no_colon m \<Longrightarrow> no_colon m' \<Longrightarrow>
   prefix (indexKey t m []) (indexKey t' m' i) \<longleftrightarrow> t = t' \<and> m = m'"
  by (simp add: indexKey_def key_simps)

lemma indexKey_append: "indexKey t m [] @ i = indexKey t m i"
  by (simp add: indexKey_def)

lemma indexKey_less: "indexKey t m i < indexKey t m i' \<longleftrightarrow> i < i'"
  by (simp add: indexKey_def)

section \<open>The invariant\<close>

text \<open>An index bucket holds exactly the keys of the rows of its primary bucket.\<close>

definition index_ok :: "('b, row) bolt \<Rightarrow> 'b \<Rightarrow> string \<Rightarrow> ('x \<Rightarrow> string) \<Rightarrow> 'x set \<Rightarrow> bool" where
  "index_ok B s b key X \<longleftrightarrow> (\<forall>k. bGet B s b k \<noteq> None \<longleftrightarrow> k \<in> key ` X)"

definition schedules_of :: "('b, row) bolt \<Rightarrow> 'b \<Rightarrow> Schedule set" where
  "schedules_of B s = {x. bGet B s bucketSchedules (scheduleKey (sTenantID x) (sID x)) = Some (ScheduleRow x)}"

definition executions_of :: "('b, row) bolt \<Rightarrow> 'b \<Rightarrow> Execution set" where
  "executions_of B s = {x. bGet B s bucketExecutions (executionKey (eTenantID x) (eID x)) = Some (ExecutionRow x)}"

definition attempts_of :: "('b, row) bolt \<Rightarrow> 'b \<Rightarrow> Attempt set" where
  "attempts_of B s = {x. bGet B s bucketAttempts (attemptKey (aTenantID x) (aID x)) = Some (AttemptRow x)}"

definition schedules_inv :: "('b, row) bolt \<Rightarrow> 'b \<Rightarrow> bool" where
  "schedules_inv B s \<longleftrightarrow>
     (\<forall>k r. bGet B s bucketSchedules k = Some r \<longrightarrow>
        (\<exists>x. r = ScheduleRow x \<and> k = scheduleKey (sTenantID x) (sID x) \<and>
             no_colon (sTenantID x) \<and> no_colon (sStatus x))) \<and>
     index_ok B s bucketSchedulesByStatus
       (\<lambda>x. indexKey (sTenantID x) (sStatus x) (sID x)) (schedules_of B s)"

definition executions_inv :: "('b, row) bolt \<Rightarrow> 'b \<Rightarrow> bool" where
  "executions_inv B s \<longleftrightarrow>
     (\<forall>k r. bGet B s bucketExecutions k = Some r \<longrightarrow>
        (\<exists>x. r = ExecutionRow x \<and> k = executionKey (eTenantID x) (eID x) \<and>
             no_colon (eTenantID x) \<and> no_colon (eStatus x) \<and> no_colon (eScheduleID x))) \<and>
     index_ok B s bucketExecutionsByStatus
       (\<lambda>x. indexKey (eTenantID x) (eStatus x) (eID x)) (executions_of B s) \<and>
     index_ok B s bucketExecutionsBySchedule
       (\<lambda>x. indexKey (eTenantID x) (eScheduleID x) (eID x)) (executions_of B s)"

definition attempts_inv :: "('b, row) bolt \<Rightarrow> 'b \<Rightarrow> bool" where
  "attempts_inv B s \<longleftrightarrow>
     (\<forall>k r. bGet B s bucketAttempts k = Some r \<longrightarrow>
        (\<exists>x. r = AttemptRow x \<and> k = attemptKey (aTenantID x) (aID x) \<and>
             no_colon (aTenantID x) \<and> no_colon (aExecutionID x))) \<and>
     index_ok B s bucketAttemptsByExecution
       (\<lambda>x. indexKey (aTenantID x) (aExecutionID x) (aID x)) (attempts_of B s)"

definition tenants_inv :: "('b, row) bolt \<Rightarrow> 'b \<Rightarrow> bool" where
  "tenants_inv B s \<longleftrightarrow>
     (\<forall>k r. bGet B s bucketTenants k = Some r \<longrightarrow> (\<exists>x. r = TenantRow x \<and> k = tnID x))"

definition store_inv :: "('b, row) bolt \<Rightarrow> 'b \<Rightarrow> bool" where
  "store_inv B s \<longleftrightarrow> schedules_inv B s \<and> executions_inv B s \<and> attempts_inv B s \<and> tenants_inv B s"

fun theSchedule :: "row \<Rightarrow> Schedule option" where
  "theSchedule (ScheduleRow x) = Some x"
| "theSchedule _ = None"

fun theExecution :: "row \<Rightarrow> Execution option" where
  "theExecution (ExecutionRow x) = Some x"
| "theExecution _ = None"

fun theAttempt :: "row \<Rightarrow> Attempt option" where
  "theAttempt (AttemptRow x) = Some x"
| "theAttempt _ = None"

fun theTenant :: "row \<Rightarrow> Tenant option" where
  "theTenant (TenantRow x) = Some x"
| "theTenant _ = None"

definition store_view :: "('b, row) bolt \<Rightarrow> 'b \<Rightarrow> db" where
  "store_view B s = \<lparr>
     dbSchedules = (\<lambda>(t, i). if no_colon t then Option.bind (bGet B s bucketSchedules (scheduleKey t i)) theSchedule else None),
     dbExecutions = (\<lambda>(t, i). if no_colon t then Option.bind (bGet B s bucketExecutions (executionKey t i)) theExecution else None),
     dbAttempts = (\<lambda>(t, i). if no_colon t then Option.bind (bGet B s bucketAttempts (attemptKey t i)) theAttempt else None),
     dbTenants = (\<lambda>t. Option.bind (bGet B s bucketTenants t) theTenant)\<rparr>"


lemmas store_inv_defs = schedules_inv_def executions_inv_def attempts_inv_def tenants_inv_def

lemma index_replace:
  assumes "index_ok B s b key X"
    and "\<And>y z. y \<in> insert x X \<Longrightarrow> z \<in> insert x X \<Longrightarrow> key y = key z \<Longrightarrow> pk y = pk z"
    and "\<And>k. bGet B s' b k \<noteq> None \<longleftrightarrow>
      k = key x \<or> (bGet B s b k \<noteq> None \<and> (\<forall>y \<in> X. pk y = pk x \<longrightarrow> k \<noteq> key y))"
  shows "index_ok B s' b key (insert x {y \<in> X. pk y \<noteq> pk x})"
  using assms unfolding index_ok_def by (auto simp: image_iff) metis+

lemma index_extend:
  assumes "index_ok B s b key X"
    and "\<And>y. y \<in> X \<Longrightarrow> pk y = pk x \<Longrightarrow> key y = key x"
    and "\<And>k. bGet B s' b k \<noteq> None \<longleftrightarrow> k = key x \<or> bGet B s b k \<noteq> None"
  shows "index_ok B s' b key (insert x {y \<in> X. pk y \<noteq> pk x})"
  using assms unfolding index_ok_def by (auto simp: image_iff)

lemma index_ok_cong:
  "index_ok B s b key X \<Longrightarrow> (\<And>k. bGet B s' b k = bGet B s b k) \<Longrightarrow> X' = X \<Longrightarrow> index_ok B s' b key X'"
  by (simp add: index_ok_def)

locale row_store = bolt_db B for B :: "('b, row) bolt"
begin

section \<open>Writes\<close>

lemma get_put_schedule:
  assumes "boltPutSchedule B s x = Inr s'"
  shows "bGet B s' b k =
    (if b = bucketSchedulesByStatus \<and> k = indexKey (sTenantID x) (sStatus x) (sID x) then Some NoValue
     else if b = bucketSchedules \<and> k = scheduleKey (sTenantID x) (sID x) then Some (ScheduleRow x)
     else if b = bucketSchedulesByStatus \<and>
       (\<exists>y. bGet B s bucketSchedules (scheduleKey (sTenantID x) (sID x)) = Some (ScheduleRow y) \<and>
            k = indexKey (sTenantID y) (sStatus y) (sID y)) then None
     else bGet B s b k)"
proof -
  from assms obtain old s1 d s2 where
    old: "boltGetSchedule B s (sTenantID x) (sID x) = Inr old"
    and s1: "(case old of None \<Rightarrow> Inr s
      | Some y \<Rightarrow> wrapErr ''Delete was not successful ''
          (bDelete B s bucketSchedulesByStatus (indexKey (sTenantID y) (sStatus y) (sID y)))) = Inr s1"
    and d: "marshalSchedule x = Inr d"
    and s2: "bPut B s1 bucketSchedules (scheduleKey (sTenantID x) (sID x)) d = Inr s2"
    and s': "bPut B s2 bucketSchedulesByStatus (indexKey (sTenantID x) (sStatus x) (sID x)) NoValue = Inr s'"
    unfolding boltPutSchedule_def index_keys andThen_Inr_iff wrapErr_Inr_iff by blast
  have get_old: "bGet B s bucketSchedules (scheduleKey (sTenantID x) (sID x)) = map_option ScheduleRow old"
    using old by (auto simp: boltGetSchedule_def getRow_def split: option.splits sum.splits elim: unmarshalSchedule.elims)
  have "bGet B s1 b k = (if b = bucketSchedulesByStatus \<and>
      (\<exists>y. old = Some y \<and> k = indexKey (sTenantID y) (sStatus y) (sID y)) then None else bGet B s b k)"
    using s1 by (cases old) (auto simp: get_delete)
  then show ?thesis
    unfolding get_put [OF s'] get_put [OF s2] get_old marshal_Inr(1) [OF d] by auto
qed

lemma get_put_execution:
  assumes "boltPutExecution B s x = Inr s'"
  shows "bGet B s' b k =
    (if b = bucketExecutionsBySchedule \<and> k = indexKey (eTenantID x) (eScheduleID x) (eID x) then Some NoValue
     else if b = bucketExecutionsByStatus \<and> k = indexKey (eTenantID x) (eStatus x) (eID x) then Some NoValue
     else if b = bucketExecutions \<and> k = executionKey (eTenantID x) (eID x) then Some (ExecutionRow x)
     else if b = bucketExecutionsByStatus \<and>
       (\<exists>y. bGet B s bucketExecutions (executionKey (eTenantID x) (eID x)) = Some (ExecutionRow y) \<and>
            k = indexKey (eTenantID y) (eStatus y) (eID y)) then None
     else bGet B s b k)"
proof -
  from assms obtain old s1 d s2 s3 where
    old: "boltGetExecution B s (eTenantID x) (eID x) = Inr old"
    and s1: "(case old of None \<Rightarrow> Inr s
      | Some y \<Rightarrow> wrapErr ''Delete was not successful ''
          (bDelete B s bucketExecutionsByStatus (indexKey (eTenantID y) (eStatus y) (eID y)))) = Inr s1"
    and d: "marshalExecution x = Inr d"
    and s2: "bPut B s1 bucketExecutions (executionKey (eTenantID x) (eID x)) d = Inr s2"
    and s3: "bPut B s2 bucketExecutionsByStatus (indexKey (eTenantID x) (eStatus x) (eID x)) NoValue = Inr s3"
    and s': "bPut B s3 bucketExecutionsBySchedule (indexKey (eTenantID x) (eScheduleID x) (eID x)) NoValue = Inr s'"
    unfolding boltPutExecution_def index_keys andThen_Inr_iff wrapErr_Inr_iff by blast
  have get_old: "bGet B s bucketExecutions (executionKey (eTenantID x) (eID x)) = map_option ExecutionRow old"
    using old by (auto simp: boltGetExecution_def getRow_def split: option.splits sum.splits elim: unmarshalExecution.elims)
  have "bGet B s1 b k = (if b = bucketExecutionsByStatus \<and>
      (\<exists>y. old = Some y \<and> k = indexKey (eTenantID y) (eStatus y) (eID y)) then None else bGet B s b k)"
    using s1 by (cases old) (auto simp: get_delete)
  then show ?thesis
    unfolding get_put [OF s'] get_put [OF s3] get_put [OF s2] get_old marshal_Inr(2) [OF d] by auto
qed

lemma get_put_attempt:
  assumes "boltPutAttempt B s x = Inr s'"
  shows "bGet B s' b k =
    (if b = bucketAttemptsByExecution \<and> k = indexKey (aTenantID x) (aExecutionID x) (aID x) then Some NoValue
     else if b = bucketAttempts \<and> k = attemptKey (aTenantID x) (aID x) then Some (AttemptRow x)
     else bGet B s b k)"
proof -
  from assms obtain d s1 where d: "marshalAttempt x = Inr d"
    and s1: "bPut B s bucketAttempts (attemptKey (aTenantID x) (aID x)) d = Inr s1"
    and s': "bPut B s1 bucketAttemptsByExecution (indexKey (aTenantID x) (aExecutionID x) (aID x)) NoValue = Inr s'"
    unfolding boltPutAttempt_def index_keys andThen_Inr_iff wrapErr_Inr_iff by blast
  show ?thesis unfolding get_put [OF s'] get_put [OF s1] marshal_Inr(3) [OF d] by auto
qed

lemma get_put_tenant:
  assumes "boltPutTenant B s x = Inr s'"
  shows "bGet B s' b k = (if b = bucketTenants \<and> k = tnID x then Some (TenantRow x) else bGet B s b k)"
proof -
  from assms obtain d where d: "marshalTenant x = Inr d" and s': "bPut B s bucketTenants (tnID x) d = Inr s'"
    unfolding boltPutTenant_def andThen_Inr_iff by blast
  show ?thesis unfolding get_put [OF s'] marshal_Inr(4) [OF d] by simp
qed

section \<open>The invariant is kept\<close>

lemma schedules_of_ok:
  "schedules_inv B s \<Longrightarrow> y \<in> schedules_of B s \<Longrightarrow> no_colon (sTenantID y) \<and> no_colon (sStatus y)"
  by (fastforce simp: schedules_inv_def schedules_of_def)

lemma executions_of_ok:
  "executions_inv B s \<Longrightarrow> y \<in> executions_of B s \<Longrightarrow>
   no_colon (eTenantID y) \<and> no_colon (eStatus y) \<and> no_colon (eScheduleID y)"
  by (fastforce simp: executions_inv_def executions_of_def)

lemma attempts_of_ok:
  "attempts_inv B s \<Longrightarrow> y \<in> attempts_of B s \<Longrightarrow> no_colon (aTenantID y) \<and> no_colon (aExecutionID y)"
  by (fastforce simp: attempts_inv_def attempts_of_def)

lemma get_schedules_iff:
  assumes "schedules_inv B s" "no_colon t"
  shows "bGet B s bucketSchedules (scheduleKey t i) = Some r \<longleftrightarrow>
    (\<exists>y \<in> schedules_of B s. sTenantID y = t \<and> sID y = i \<and> r = ScheduleRow y)"
proof
  assume *: "bGet B s bucketSchedules (scheduleKey t i) = Some r"
  with assms(1) obtain y where "r = ScheduleRow y" "scheduleKey t i = scheduleKey (sTenantID y) (sID y)"
    "no_colon (sTenantID y)"
    unfolding schedules_inv_def by blast
  with * assms(2) show "\<exists>y \<in> schedules_of B s. sTenantID y = t \<and> sID y = i \<and> r = ScheduleRow y"
    by (auto simp: schedules_of_def scheduleKey_inject)
qed (auto simp: schedules_of_def)

lemma schedules_of_put:
  assumes inv: "schedules_inv B s" and x: "no_colon (sTenantID x)" and put: "boltPutSchedule B s x = Inr s'"
  shows "schedules_of B s' =
    insert x {y \<in> schedules_of B s. (sTenantID y, sID y) \<noteq> (sTenantID x, sID x)}"
proof (intro set_eqI)
  fix y
  have s': "y \<in> schedules_of B s' \<longleftrightarrow>
      (if scheduleKey (sTenantID y) (sID y) = scheduleKey (sTenantID x) (sID x) then y = x
       else y \<in> schedules_of B s)"
    by (auto simp: schedules_of_def get_put_schedule [OF put])
  have "y \<in> schedules_of B s \<Longrightarrow>
      scheduleKey (sTenantID y) (sID y) = scheduleKey (sTenantID x) (sID x) \<longleftrightarrow>
      (sTenantID y, sID y) = (sTenantID x, sID x)"
    using schedules_of_ok [OF inv] x by (simp add: scheduleKey_inject)
  then show "y \<in> schedules_of B s' \<longleftrightarrow>
      y \<in> insert x {y \<in> schedules_of B s. (sTenantID y, sID y) \<noteq> (sTenantID x, sID x)}"
    unfolding s' by auto
qed

lemma get_executions_iff:
  assumes "executions_inv B s" "no_colon t"
  shows "bGet B s bucketExecutions (executionKey t i) = Some r \<longleftrightarrow>
    (\<exists>y \<in> executions_of B s. eTenantID y = t \<and> eID y = i \<and> r = ExecutionRow y)"
proof
  assume *: "bGet B s bucketExecutions (executionKey t i) = Some r"
  with assms(1) obtain y where "r = ExecutionRow y" "executionKey t i = executionKey (eTenantID y) (eID y)"
    "no_colon (eTenantID y)"
    unfolding executions_inv_def by blast
  with * assms(2) show "\<exists>y \<in> executions_of B s. eTenantID y = t \<and> eID y = i \<and> r = ExecutionRow y"
    by (auto simp: executions_of_def executionKey_inject)
qed (auto simp: executions_of_def)

lemma executions_of_put:
  assumes inv: "executions_inv B s" and x: "no_colon (eTenantID x)" and put: "boltPutExecution B s x = Inr s'"
  shows "executions_of B s' =
    insert x {y \<in> executions_of B s. (eTenantID y, eID y) \<noteq> (eTenantID x, eID x)}"
proof (intro set_eqI)
  fix y
  have s': "y \<in> executions_of B s' \<longleftrightarrow>
      (if executionKey (eTenantID y) (eID y) = executionKey (eTenantID x) (eID x) then y = x
       else y \<in> executions_of B s)"
    by (auto simp: executions_of_def get_put_execution [OF put])
  have "y \<in> executions_of B s \<Longrightarrow>
      executionKey (eTenantID y) (eID y) = executionKey (eTenantID x) (eID x) \<longleftrightarrow>
      (eTenantID y, eID y) = (eTenantID x, eID x)"
    using executions_of_ok [OF inv] x by (simp add: executionKey_inject)
  then show "y \<in> executions_of B s' \<longleftrightarrow>
      y \<in> insert x {y \<in> executions_of B s. (eTenantID y, eID y) \<noteq> (eTenantID x, eID x)}"
    unfolding s' by auto
qed

lemma get_attempts_iff:
  assumes "attempts_inv B s" "no_colon t"
  shows "bGet B s bucketAttempts (attemptKey t i) = Some r \<longleftrightarrow>
    (\<exists>y \<in> attempts_of B s. aTenantID y = t \<and> aID y = i \<and> r = AttemptRow y)"
proof
  assume *: "bGet B s bucketAttempts (attemptKey t i) = Some r"
  with assms(1) obtain y where "r = AttemptRow y" "attemptKey t i = attemptKey (aTenantID y) (aID y)"
    "no_colon (aTenantID y)"
    unfolding attempts_inv_def by blast
  with * assms(2) show "\<exists>y \<in> attempts_of B s. aTenantID y = t \<and> aID y = i \<and> r = AttemptRow y"
    by (auto simp: attempts_of_def attemptKey_inject)
qed (auto simp: attempts_of_def)

lemma attempts_of_put:
  assumes inv: "attempts_inv B s" and x: "no_colon (aTenantID x)" and put: "boltPutAttempt B s x = Inr s'"
  shows "attempts_of B s' =
    insert x {y \<in> attempts_of B s. (aTenantID y, aID y) \<noteq> (aTenantID x, aID x)}"
proof (intro set_eqI)
  fix y
  have s': "y \<in> attempts_of B s' \<longleftrightarrow>
      (if attemptKey (aTenantID y) (aID y) = attemptKey (aTenantID x) (aID x) then y = x
       else y \<in> attempts_of B s)"
    by (auto simp: attempts_of_def get_put_attempt [OF put])
  have "y \<in> attempts_of B s \<Longrightarrow>
      attemptKey (aTenantID y) (aID y) = attemptKey (aTenantID x) (aID x) \<longleftrightarrow>
      (aTenantID y, aID y) = (aTenantID x, aID x)"
    using attempts_of_ok [OF inv] x by (simp add: attemptKey_inject)
  then show "y \<in> attempts_of B s' \<longleftrightarrow>
      y \<in> insert x {y \<in> attempts_of B s. (aTenantID y, aID y) \<noteq> (aTenantID x, aID x)}"
    unfolding s' by auto
qed

lemma put_schedule_inv:
  assumes inv: "schedules_inv B s" and x: "schedule_storable x" and put: "boltPutSchedule B s x = Inr s'"
  shows "schedules_inv B s'"
  unfolding schedules_inv_def
proof (intro conjI allI impI)
  fix k r assume "bGet B s' bucketSchedules k = Some r"
  then show "\<exists>x. r = ScheduleRow x \<and> k = scheduleKey (sTenantID x) (sID x) \<and>
      no_colon (sTenantID x) \<and> no_colon (sStatus x)"
    using inv x by (auto simp: get_put_schedule [OF put] schedules_inv_def schedule_storable_def split: if_splits)
next
  have nx: "no_colon (sTenantID x)" "no_colon (sStatus x)" using x by (auto simp: schedule_storable_def)
  have old: "bGet B s bucketSchedules (scheduleKey (sTenantID x) (sID x)) = Some (ScheduleRow y) \<longleftrightarrow>
      y \<in> schedules_of B s \<and> (sTenantID y, sID y) = (sTenantID x, sID x)" for y
    using get_schedules_iff [OF inv nx(1)] by auto
  show "index_ok B s' bucketSchedulesByStatus (\<lambda>x. indexKey (sTenantID x) (sStatus x) (sID x)) (schedules_of B s')"
    unfolding schedules_of_put [OF inv nx(1) put]
  proof (rule index_replace)
    show "index_ok B s bucketSchedulesByStatus (\<lambda>x. indexKey (sTenantID x) (sStatus x) (sID x)) (schedules_of B s)"
      using inv by (simp add: schedules_inv_def)
  next
    fix y z assume "y \<in> insert x (schedules_of B s)" "z \<in> insert x (schedules_of B s)"
      "indexKey (sTenantID y) (sStatus y) (sID y) = indexKey (sTenantID z) (sStatus z) (sID z)"
    then show "(sTenantID y, sID y) = (sTenantID z, sID z)"
      using schedules_of_ok [OF inv] nx by (auto simp: indexKey_inject)
  next
    fix k
    show "(bGet B s' bucketSchedulesByStatus k \<noteq> None) \<longleftrightarrow>
      k = indexKey (sTenantID x) (sStatus x) (sID x) \<or>
      (bGet B s bucketSchedulesByStatus k \<noteq> None \<and>
       (\<forall>y \<in> schedules_of B s. (sTenantID y, sID y) = (sTenantID x, sID x) \<longrightarrow>
          k \<noteq> indexKey (sTenantID y) (sStatus y) (sID y)))"
      unfolding get_put_schedule [OF put] old by auto
  qed
qed

lemma put_execution_inv:
  assumes inv: "executions_inv B s" and nx: "no_colon (eTenantID x)" "no_colon (eStatus x)" "no_colon (eScheduleID x)"
    and same: "\<And>y. y \<in> executions_of B s \<Longrightarrow> (eTenantID y, eID y) = (eTenantID x, eID x) \<Longrightarrow> eScheduleID y = eScheduleID x"
    and put: "boltPutExecution B s x = Inr s'"
  shows "executions_inv B s'"
  unfolding executions_inv_def
proof (intro conjI allI impI)
  fix k r assume "bGet B s' bucketExecutions k = Some r"
  then show "\<exists>x. r = ExecutionRow x \<and> k = executionKey (eTenantID x) (eID x) \<and>
      no_colon (eTenantID x) \<and> no_colon (eStatus x) \<and> no_colon (eScheduleID x)"
    using inv nx by (auto simp: get_put_execution [OF put] executions_inv_def split: if_splits)
next
  note of_put = executions_of_put [OF inv nx(1) put] and ok = executions_of_ok [OF inv]
  have old: "bGet B s bucketExecutions (executionKey (eTenantID x) (eID x)) = Some (ExecutionRow y) \<longleftrightarrow>
      y \<in> executions_of B s \<and> (eTenantID y, eID y) = (eTenantID x, eID x)" for y
    using get_executions_iff [OF inv nx(1)] by auto
  show "index_ok B s' bucketExecutionsByStatus (\<lambda>x. indexKey (eTenantID x) (eStatus x) (eID x)) (executions_of B s')"
    unfolding of_put
  proof (rule index_replace)
    show "index_ok B s bucketExecutionsByStatus (\<lambda>x. indexKey (eTenantID x) (eStatus x) (eID x)) (executions_of B s)"
      using inv by (simp add: executions_inv_def)
  next
    fix y z assume "y \<in> insert x (executions_of B s)" "z \<in> insert x (executions_of B s)"
      "indexKey (eTenantID y) (eStatus y) (eID y) = indexKey (eTenantID z) (eStatus z) (eID z)"
    then show "(eTenantID y, eID y) = (eTenantID z, eID z)"
      using ok nx by (auto simp: indexKey_inject)
  next
    fix k
    show "(bGet B s' bucketExecutionsByStatus k \<noteq> None) \<longleftrightarrow>
      k = indexKey (eTenantID x) (eStatus x) (eID x) \<or>
      (bGet B s bucketExecutionsByStatus k \<noteq> None \<and>
       (\<forall>y \<in> executions_of B s. (eTenantID y, eID y) = (eTenantID x, eID x) \<longrightarrow>
          k \<noteq> indexKey (eTenantID y) (eStatus y) (eID y)))"
      unfolding get_put_execution [OF put] old by auto
  qed
  show "index_ok B s' bucketExecutionsBySchedule (\<lambda>x. indexKey (eTenantID x) (eScheduleID x) (eID x)) (executions_of B s')"
    unfolding of_put
  proof (rule index_extend)
    show "index_ok B s bucketExecutionsBySchedule (\<lambda>x. indexKey (eTenantID x) (eScheduleID x) (eID x)) (executions_of B s)"
      using inv by (simp add: executions_inv_def)
    show "(bGet B s' bucketExecutionsBySchedule k \<noteq> None) \<longleftrightarrow>
      k = indexKey (eTenantID x) (eScheduleID x) (eID x) \<or> bGet B s bucketExecutionsBySchedule k \<noteq> None" for k
      unfolding get_put_execution [OF put] by auto
  qed (use same in auto)
qed

lemma put_attempt_inv:
  assumes inv: "attempts_inv B s" and nx: "no_colon (aTenantID x)" "no_colon (aExecutionID x)"
    and same: "\<And>y. y \<in> attempts_of B s \<Longrightarrow> (aTenantID y, aID y) = (aTenantID x, aID x) \<Longrightarrow> aExecutionID y = aExecutionID x"
    and put: "boltPutAttempt B s x = Inr s'"
  shows "attempts_inv B s'"
  unfolding attempts_inv_def
proof (intro conjI allI impI)
  fix k r assume "bGet B s' bucketAttempts k = Some r"
  then show "\<exists>x. r = AttemptRow x \<and> k = attemptKey (aTenantID x) (aID x) \<and>
      no_colon (aTenantID x) \<and> no_colon (aExecutionID x)"
    using inv nx by (auto simp: get_put_attempt [OF put] attempts_inv_def split: if_splits)
next
  show "index_ok B s' bucketAttemptsByExecution (\<lambda>x. indexKey (aTenantID x) (aExecutionID x) (aID x)) (attempts_of B s')"
    unfolding attempts_of_put [OF inv nx(1) put]
  proof (rule index_extend)
    show "index_ok B s bucketAttemptsByExecution (\<lambda>x. indexKey (aTenantID x) (aExecutionID x) (aID x)) (attempts_of B s)"
      using inv by (simp add: attempts_inv_def)
    show "(bGet B s' bucketAttemptsByExecution k \<noteq> None) \<longleftrightarrow>
      k = indexKey (aTenantID x) (aExecutionID x) (aID x) \<or> bGet B s bucketAttemptsByExecution k \<noteq> None" for k
      unfolding get_put_attempt [OF put] by auto
  qed (use same in auto)
qed

text \<open>Each part of the invariant depends on its own buckets only.\<close>

lemma inv_frames:
  "(\<And>k. bGet B s' bucketSchedules k = bGet B s bucketSchedules k) \<Longrightarrow>
   (\<And>k. bGet B s' bucketSchedulesByStatus k = bGet B s bucketSchedulesByStatus k) \<Longrightarrow>
   schedules_inv B s \<Longrightarrow> schedules_inv B s'"
  "(\<And>k. bGet B s' bucketExecutions k = bGet B s bucketExecutions k) \<Longrightarrow>
   (\<And>k. bGet B s' bucketExecutionsByStatus k = bGet B s bucketExecutionsByStatus k) \<Longrightarrow>
   (\<And>k. bGet B s' bucketExecutionsBySchedule k = bGet B s bucketExecutionsBySchedule k) \<Longrightarrow>
   executions_inv B s \<Longrightarrow> executions_inv B s'"
  "(\<And>k. bGet B s' bucketAttempts k = bGet B s bucketAttempts k) \<Longrightarrow>
   (\<And>k. bGet B s' bucketAttemptsByExecution k = bGet B s bucketAttemptsByExecution k) \<Longrightarrow>
   attempts_inv B s \<Longrightarrow> attempts_inv B s'"
  "(\<And>k. bGet B s' bucketTenants k = bGet B s bucketTenants k) \<Longrightarrow> tenants_inv B s \<Longrightarrow> tenants_inv B s'"
  by (simp_all add: store_inv_defs schedules_of_def executions_of_def attempts_of_def index_ok_def)

lemma put_store_inv:
  assumes "store_inv B s"
  shows "schedule_storable x \<Longrightarrow> boltPutSchedule B s x = Inr s' \<Longrightarrow> store_inv B s'"
    and "no_colon (eTenantID e) \<Longrightarrow> no_colon (eStatus e) \<Longrightarrow> no_colon (eScheduleID e) \<Longrightarrow>
      (\<And>y. y \<in> executions_of B s \<Longrightarrow> (eTenantID y, eID y) = (eTenantID e, eID e) \<Longrightarrow> eScheduleID y = eScheduleID e) \<Longrightarrow>
      boltPutExecution B s e = Inr s' \<Longrightarrow> store_inv B s'"
    and "no_colon (aTenantID a) \<Longrightarrow> no_colon (aExecutionID a) \<Longrightarrow>
      (\<And>y. y \<in> attempts_of B s \<Longrightarrow> (aTenantID y, aID y) = (aTenantID a, aID a) \<Longrightarrow> aExecutionID y = aExecutionID a) \<Longrightarrow>
      boltPutAttempt B s a = Inr s' \<Longrightarrow> store_inv B s'"
    and "boltPutTenant B s n = Inr s' \<Longrightarrow> store_inv B s'"
proof -
  from assms have i: "schedules_inv B s" "executions_inv B s" "attempts_inv B s" "tenants_inv B s"
    by (simp_all add: store_inv_def)
  note f = inv_frames [of s' s]
  show "schedule_storable x \<Longrightarrow> boltPutSchedule B s x = Inr s' \<Longrightarrow> store_inv B s'"
    using put_schedule_inv [OF i(1)] f(2-4) i(2-4) unfolding store_inv_def by (simp add: get_put_schedule)
  show "no_colon (eTenantID e) \<Longrightarrow> no_colon (eStatus e) \<Longrightarrow> no_colon (eScheduleID e) \<Longrightarrow>
      (\<And>y. y \<in> executions_of B s \<Longrightarrow> (eTenantID y, eID y) = (eTenantID e, eID e) \<Longrightarrow> eScheduleID y = eScheduleID e) \<Longrightarrow>
      boltPutExecution B s e = Inr s' \<Longrightarrow> store_inv B s'"
    using put_execution_inv [OF i(2)] f(1,3,4) i(1,3,4) unfolding store_inv_def by (simp add: get_put_execution)
  show "no_colon (aTenantID a) \<Longrightarrow> no_colon (aExecutionID a) \<Longrightarrow>
      (\<And>y. y \<in> attempts_of B s \<Longrightarrow> (aTenantID y, aID y) = (aTenantID a, aID a) \<Longrightarrow> aExecutionID y = aExecutionID a) \<Longrightarrow>
      boltPutAttempt B s a = Inr s' \<Longrightarrow> store_inv B s'"
    using put_attempt_inv [OF i(3)] f(1,2,4) i(1,2,4) unfolding store_inv_def by (simp add: get_put_attempt)
  show "boltPutTenant B s n = Inr s' \<Longrightarrow> store_inv B s'"
    using f(1-3) i unfolding store_inv_def by (auto simp: get_put_tenant tenants_inv_def split: if_splits)
qed

section \<open>Scans\<close>

lemma prefixScan_rel:
  assumes "\<forall>(k, v) \<in> set (takeWhile (\<lambda>(k, v). prefix p k) kvs).
    \<exists>x. get (drop (length p) k) = Inr (Some x) \<and> R k x"
  shows "\<exists>xs. prefixScan p get missing kvs = (xs, None) \<and>
    list_all2 (\<lambda>(k, v) x. R k x) (takeWhile (\<lambda>(k, v). prefix p k) kvs) xs"
  using assms
proof (induction kvs)
  case (Cons kv kvs)
  obtain k v where kv: "kv = (k, v)" by fastforce
  show ?case
  proof (cases "prefix p k")
    case True
    with Cons.prems kv obtain x where x: "get (drop (length p) k) = Inr (Some x)" "R k x" by auto
    from Cons True kv obtain xs where "prefixScan p get missing kvs = (xs, None)"
      "list_all2 (\<lambda>(k, v) x. R k x) (takeWhile (\<lambda>(k, v). prefix p k) kvs) xs" by auto
    with True kv x show ?thesis by simp
  qed (use kv in simp)
qed simp

lemma seek_prefix_filter:
  "takeWhile (\<lambda>(k, v). prefix p k) (bSeek B s b p) = filter (\<lambda>(k, v). prefix p k) (bFirst B s b)"
proof -
  have "takeWhile (\<lambda>(k, v). prefix p k) (bSeek B s b p) = filter (\<lambda>(k, v). prefix p k) (bSeek B s b p)"
    by (rule takeWhile_prefix_filter [OF seek_sorted]) (auto simp: seek_filter)
  also have "\<dots> = filter (\<lambda>(k, v). prefix p k) (bFirst B s b)"
    unfolding seek_filter by (auto intro!: filter_cong simp: prefix_imp_le)
  finally show ?thesis .
qed

text \<open>
  A scan of an index bucket returns the indexed rows with the tenant and the middle
  component of the prefix, in the order of their IDs.
\<close>

lemma scan_index:
  assumes idx: "index_ok B s b (\<lambda>x. indexKey (tn x) (md x) (idf x)) X"
    and ok: "\<And>x. x \<in> X \<Longrightarrow> no_colon (tn x) \<and> no_colon (md x)"
    and t: "no_colon t" "no_colon m"
    and get: "\<And>x. x \<in> X \<Longrightarrow> tn x = t \<Longrightarrow> get (idf x) = Inr (Some x)"
  obtains xs where "scanIndex B s b (indexKey t m []) get missing = (xs, None)"
    "map fst (filter (\<lambda>(k, v). prefix (indexKey t m []) k) (bFirst B s b)) = map (\<lambda>x. indexKey t m (idf x)) xs"
    "sorted_wrt (\<lambda>x y. idf x < idf y) xs" "set xs = {x \<in> X. tn x = t \<and> md x = m}"
proof -
  let ?p = "indexKey t m []"
  define kvs where "kvs = takeWhile (\<lambda>(k, v). prefix ?p k) (bSeek B s b ?p)"
  define R where "R k x \<longleftrightarrow> x \<in> X \<and> tn x = t \<and> md x = m \<and> k = indexKey t m (idf x)" for k x
  have kvs: "kvs = filter (\<lambda>(k, v). prefix ?p k) (bFirst B s b)"
    unfolding kvs_def by (rule seek_prefix_filter)
  have mem: "(\<exists>v. (k, v) \<in> set kvs) \<longleftrightarrow> prefix ?p k \<and> (\<exists>x \<in> X. k = indexKey (tn x) (md x) (idf x))" for k
    using idx unfolding kvs index_ok_def by (auto simp: get_iff [symmetric] image_iff)
  have all: "\<forall>(k, v) \<in> set kvs. \<exists>x. get (drop (length ?p) k) = Inr (Some x) \<and> R k x"
  proof (clarify)
    fix k v assume "(k, v) \<in> set kvs"
    with mem obtain x where x: "x \<in> X" "k = indexKey (tn x) (md x) (idf x)" "prefix ?p k" by blast
    then have e: "tn x = t" "md x = m" using ok t indexKey_prefix by metis+
    with x have "drop (length ?p) k = idf x" by (simp add: indexKey_def)
    with x e get show "\<exists>x. get (drop (length ?p) k) = Inr (Some x) \<and> R k x" by (auto simp: R_def)
  qed
  from prefixScan_rel [of ?p "bSeek B s b ?p" get R missing, folded kvs_def, OF all]
  obtain xs where xs: "scanIndex B s b ?p get missing = (xs, None)"
    and l2: "list_all2 (\<lambda>(k, v) x. R k x) kvs xs"
    unfolding scanIndex_def by blast
  have keys: "map fst kvs = map (\<lambda>x. indexKey t m (idf x)) xs"
    using l2 by (induction rule: list_all2_induct) (auto simp: R_def)
  have inX: "\<forall>x \<in> set xs. x \<in> X \<and> tn x = t \<and> md x = m"
    using l2 by (induction rule: list_all2_induct) (auto simp: R_def)
  have "sorted_keys kvs" unfolding kvs using first_sorted [of s b] by (simp add: sorted_wrt_map sorted_wrt_filter)
  then have sorted: "sorted_wrt (\<lambda>x y. idf x < idf y) xs"
    unfolding keys by (simp add: sorted_wrt_map indexKey_less)
  have "x \<in> set xs" if x: "x \<in> X" "tn x = t" "md x = m" for x
  proof -
    have "indexKey t m (idf x) \<in> set (map fst kvs)"
      using mem [of "indexKey t m (idf x)"] x t by (force simp: indexKey_prefix)
    then obtain y where y: "y \<in> set xs" "idf x = idf y" unfolding keys using t by (auto simp: indexKey_inject)
    have yX: "y \<in> X" "tn y = t" using bspec [OF inX y(1)] by blast+
    from get [OF x(1,2)] get [OF yX] have "x = y" unfolding y(2) by simp
    with y show ?thesis by simp
  qed
  with inX have "set xs = {x \<in> X. tn x = t \<and> md x = m}" by auto
  with xs keys sorted kvs that show ?thesis by simp
qed

lemma scan_rows:
  assumes "index_ok B s b (\<lambda>x. indexKey (tn x) (md x) (idf x)) X"
    and "\<And>x. x \<in> X \<Longrightarrow> no_colon (tn x) \<and> no_colon (md x)" "no_colon t" "no_colon m"
    and "\<And>x. x \<in> X \<Longrightarrow> tn x = t \<Longrightarrow> get (idf x) = Inr (Some x)"
  shows "lists_rows (scanIndex B s b (indexKey t m []) get missing) idf {x \<in> X. tn x = t \<and> md x = m}"
proof (rule scan_index [OF assms])
  fix xs assume "scanIndex B s b (indexKey t m []) get missing = (xs, None)"
    "sorted_wrt (\<lambda>x y. idf x < idf y) xs" "set xs = {x \<in> X. tn x = t \<and> md x = m}"
  then show ?thesis by (simp add: lists_rows_def)
qed

section \<open>The laws of the transaction interface\<close>

lemma view_lookup:
  assumes "store_inv B s"
  shows "dbSchedules (store_view B s) (t, i) = Some x \<longleftrightarrow> x \<in> schedules_of B s \<and> sTenantID x = t \<and> sID x = i"
    and "dbExecutions (store_view B s) (t, i) = Some e \<longleftrightarrow> e \<in> executions_of B s \<and> eTenantID e = t \<and> eID e = i"
    and "dbAttempts (store_view B s) (t, i) = Some a \<longleftrightarrow> a \<in> attempts_of B s \<and> aTenantID a = t \<and> aID a = i"
proof -
  from assms have i: "schedules_inv B s" "executions_inv B s" "attempts_inv B s"
    by (simp_all add: store_inv_def)
  show "dbSchedules (store_view B s) (t, i) = Some x \<longleftrightarrow> x \<in> schedules_of B s \<and> sTenantID x = t \<and> sID x = i"
    using get_schedules_iff [OF i(1), of t i] schedules_of_ok [OF i(1), of x]
    by (auto simp: store_view_def bind_eq_Some_conv)
  show "dbExecutions (store_view B s) (t, i) = Some e \<longleftrightarrow> e \<in> executions_of B s \<and> eTenantID e = t \<and> eID e = i"
    using get_executions_iff [OF i(2), of t i] executions_of_ok [OF i(2), of e]
    by (auto simp: store_view_def bind_eq_Some_conv)
  show "dbAttempts (store_view B s) (t, i) = Some a \<longleftrightarrow> a \<in> attempts_of B s \<and> aTenantID a = t \<and> aID a = i"
    using get_attempts_iff [OF i(3), of t i] attempts_of_ok [OF i(3), of a]
    by (auto simp: store_view_def bind_eq_Some_conv)
qed

lemma get_laws:
  assumes "store_inv B s"
  shows "no_colon t \<Longrightarrow> boltGetSchedule B s t i = Inr (dbSchedules (store_view B s) (t, i))"
    and "no_colon t \<Longrightarrow> boltGetExecution B s t i = Inr (dbExecutions (store_view B s) (t, i))"
    and "no_colon t \<Longrightarrow> boltGetAttempt B s t i = Inr (dbAttempts (store_view B s) (t, i))"
    and "boltGetTenant B s t = Inr (dbTenants (store_view B s) t)"
  using assms
  by (fastforce simp: store_inv_def store_inv_defs store_view_def getRow_def boltGetSchedule_def
      boltGetExecution_def boltGetAttempt_def boltGetTenant_def split: option.splits)+

lemma storable_rows:
  assumes "store_inv B s"
  shows "x \<in> schedules_of B s \<Longrightarrow> schedule_storable x"
    and "e \<in> executions_of B s \<Longrightarrow> execution_storable (store_view B s) e"
    and "a \<in> attempts_of B s \<Longrightarrow> attempt_storable (store_view B s) a"
  using assms schedules_of_ok [of s x] executions_of_ok [of s e] attempts_of_ok [of s a]
  by (auto simp: schedule_storable_def execution_storable_def attempt_storable_def view_lookup [OF assms]
      store_inv_def executions_of_def attempts_of_def)

lemma put_laws:
  assumes inv: "store_inv B s"
  shows "schedule_storable x \<Longrightarrow> boltPutSchedule B s x = Inr s' \<Longrightarrow> store_inv B s' \<and>
      store_view B s' = (store_view B s)\<lparr>dbSchedules := (dbSchedules (store_view B s))((sTenantID x, sID x) \<mapsto> x)\<rparr>"
    and "execution_storable (store_view B s) e \<Longrightarrow> boltPutExecution B s e = Inr s' \<Longrightarrow> store_inv B s' \<and>
      store_view B s' = (store_view B s)\<lparr>dbExecutions := (dbExecutions (store_view B s))((eTenantID e, eID e) \<mapsto> e)\<rparr>"
    and "attempt_storable (store_view B s) a \<Longrightarrow> boltPutAttempt B s a = Inr s' \<Longrightarrow> store_inv B s' \<and>
      store_view B s' = (store_view B s)\<lparr>dbAttempts := (dbAttempts (store_view B s))((aTenantID a, aID a) \<mapsto> a)\<rparr>"
    and "boltPutTenant B s n = Inr s' \<Longrightarrow> store_inv B s' \<and>
      store_view B s' = (store_view B s)\<lparr>dbTenants := (dbTenants (store_view B s))(tnID n \<mapsto> n)\<rparr>"
proof -
  show "store_inv B s' \<and>
      store_view B s' = (store_view B s)\<lparr>dbSchedules := (dbSchedules (store_view B s))((sTenantID x, sID x) \<mapsto> x)\<rparr>"
    if "schedule_storable x" "boltPutSchedule B s x = Inr s'"
    using that put_store_inv(1) [OF inv that]
    by (auto simp: store_view_def get_put_schedule schedule_storable_def scheduleKey_inject fun_eq_iff)
  show "store_inv B s' \<and>
      store_view B s' = (store_view B s)\<lparr>dbExecutions := (dbExecutions (store_view B s))((eTenantID e, eID e) \<mapsto> e)\<rparr>"
    if "execution_storable (store_view B s) e" "boltPutExecution B s e = Inr s'"
  proof -
    from that(1) have e: "no_colon (eTenantID e)" "no_colon (eStatus e)" "no_colon (eScheduleID e)"
      "\<And>y. y \<in> executions_of B s \<Longrightarrow> (eTenantID y, eID y) = (eTenantID e, eID e) \<Longrightarrow> eScheduleID y = eScheduleID e"
      by (auto simp: execution_storable_def view_lookup [OF inv])
    show ?thesis using put_store_inv(2) [OF inv e that(2)] e(1)
      by (auto simp: store_view_def get_put_execution [OF that(2)] executionKey_inject fun_eq_iff)
  qed
  show "store_inv B s' \<and>
      store_view B s' = (store_view B s)\<lparr>dbAttempts := (dbAttempts (store_view B s))((aTenantID a, aID a) \<mapsto> a)\<rparr>"
    if "attempt_storable (store_view B s) a" "boltPutAttempt B s a = Inr s'"
  proof -
    from that(1) have a: "no_colon (aTenantID a)" "no_colon (aExecutionID a)"
      "\<And>y. y \<in> attempts_of B s \<Longrightarrow> (aTenantID y, aID y) = (aTenantID a, aID a) \<Longrightarrow> aExecutionID y = aExecutionID a"
      by (auto simp: attempt_storable_def view_lookup [OF inv])
    show ?thesis using put_store_inv(3) [OF inv a that(2)] a(1)
      by (auto simp: store_view_def get_put_attempt [OF that(2)] attemptKey_inject fun_eq_iff)
  qed
  show "store_inv B s' \<and>
      store_view B s' = (store_view B s)\<lparr>dbTenants := (dbTenants (store_view B s))(tnID n \<mapsto> n)\<rparr>"
    if "boltPutTenant B s n = Inr s'"
    using that put_store_inv(4) [OF inv that] by (auto simp: store_view_def get_put_tenant fun_eq_iff)
qed

lemma list_laws:
  assumes inv: "store_inv B s" and t: "no_colon t"
  shows "no_colon j \<Longrightarrow> lists_rows (boltListExecutionsBySchedule B s t j) eID
      {e. \<exists>i. dbExecutions (store_view B s) (t, i) = Some e \<and> eScheduleID e = j}"
    and "no_colon st \<Longrightarrow> lists_rows (boltListExecutionsByStatus B s t st) eID
      {e. \<exists>i. dbExecutions (store_view B s) (t, i) = Some e \<and> eStatus e = st}"
    and "no_colon j \<Longrightarrow> lists_rows (boltListAttemptsByExecution B s t j) aID
      {a. \<exists>i. dbAttempts (store_view B s) (t, i) = Some a \<and> aExecutionID a = j}"
    and "lists_rows (boltListSchedulesDue B s t now) sID
      {x. \<exists>i. dbSchedules (store_view B s) (t, i) = Some x \<and> sStatus x = ScheduleStatusActive \<and> isDue now x}"
proof -
  from inv have i: "schedules_inv B s" "executions_inv B s" "attempts_inv B s"
    by (simp_all add: store_inv_def)
  note v = view_lookup [OF inv] and g = get_laws [OF inv]
  have ge: "boltGetExecution B s t (eID e) = Inr (Some e)" if "e \<in> executions_of B s" "eTenantID e = t" for e
    using that g(2) [OF t] v(2) [of t "eID e" e] by simp
  have ga: "boltGetAttempt B s t (aID a) = Inr (Some a)" if "a \<in> attempts_of B s" "aTenantID a = t" for a
    using that g(3) [OF t] v(3) [of t "aID a" a] by simp
  have gs: "boltGetSchedule B s t (sID x) = Inr (Some x)" if "x \<in> schedules_of B s" "sTenantID x = t" for x
    using that g(1) [OF t] v(1) [of t "sID x" x] by simp
  show "lists_rows (boltListExecutionsBySchedule B s t j) eID
      {e. \<exists>i. dbExecutions (store_view B s) (t, i) = Some e \<and> eScheduleID e = j}" if "no_colon j"
    using scan_rows [of s bucketExecutionsBySchedule eTenantID eScheduleID eID "executions_of B s" t j
        "boltGetExecution B s t" "missingExecution t"] i(2) executions_of_ok [OF i(2)] t that ge
    by (simp add: boltListExecutionsBySchedule_def index_keys executions_inv_def v conj_ac)
  show "lists_rows (boltListExecutionsByStatus B s t st) eID
      {e. \<exists>i. dbExecutions (store_view B s) (t, i) = Some e \<and> eStatus e = st}" if "no_colon st"
    using scan_rows [of s bucketExecutionsByStatus eTenantID eStatus eID "executions_of B s" t st
        "boltGetExecution B s t" "missingExecution t"] i(2) executions_of_ok [OF i(2)] t that ge
    by (simp add: boltListExecutionsByStatus_def index_keys executions_inv_def v conj_ac)
  show "lists_rows (boltListAttemptsByExecution B s t j) aID
      {a. \<exists>i. dbAttempts (store_view B s) (t, i) = Some a \<and> aExecutionID a = j}" if "no_colon j"
    using scan_rows [of s bucketAttemptsByExecution aTenantID aExecutionID aID "attempts_of B s" t j
        "boltGetAttempt B s t" "missingAttempt t"] i(3) attempts_of_ok [OF i(3)] t that ga
    by (simp add: boltListAttemptsByExecution_def index_keys attempts_inv_def v conj_ac)
  have "lists_rows (scanIndex B s bucketSchedulesByStatus (indexKey t ScheduleStatusActive [])
      (boltGetSchedule B s t) (missingSchedule t)) sID
      {x \<in> schedules_of B s. sTenantID x = t \<and> sStatus x = ScheduleStatusActive}"
    using i(1) schedules_of_ok [OF i(1)] t gs
    by (intro scan_rows) (auto simp: schedules_inv_def no_colon_def schedule_status_defs)
  then show "lists_rows (boltListSchedulesDue B s t now) sID
      {x. \<exists>i. dbSchedules (store_view B s) (t, i) = Some x \<and> sStatus x = ScheduleStatusActive \<and> isDue now x}"
    by (auto simp: boltListSchedulesDue_def index_keys lists_rows_def split_def v sorted_wrt_filter)
qed

sublocale tx: tx_spec "boltTx B" "store_inv B" "store_view B"
proof (unfold_locales, unfold boltTx_def Tx.simps, goal_cases)
  case (13 s t i x) then show ?case using view_lookup storable_rows by simp
next
  case (14 s t i e) then show ?case using view_lookup storable_rows by simp
next
  case (15 s t i a) then show ?case using view_lookup storable_rows by simp
next
  case (16 s t n)
  then show ?case by (auto simp: store_inv_def tenants_inv_def store_view_def bind_eq_Some_conv)
    (metis theTenant.simps(1) option.inject)
qed (assumption | rule get_laws put_laws list_laws)+

lemma is_tx: "tx_spec (boltTx B) (store_inv B) (store_view B)"
  by unfold_locales

end

interpretation mem_rows: row_store memBolt
  by unfold_locales

end
