(* ===== verification/Recurrence.thy ===== *)
theory Recurrence
  imports Model
begin

text \<open>
  The recurrence arithmetic of \<open>internal/model/recurrence.go\<close>: for each cadence the first
  slot on or after, the first slot after, and the latest slot on or before an instant,
  and the three dispatching functions the commands call. A nil result is \<open>None\<close>; reading
  an absent \<open>Seconds\<close> or \<open>DayOfMonth\<close> is the nil dereference it is in Go.
\<close>

section \<open>The model\<close>

definition resolveTimezone :: "platform \<Rightarrow> string \<Rightarrow> failure + Location" where
  "resolveTimezone P timezone =
     (if timezone = ''Local''
      then validationError ''timezone''
        (''timezone: Local is not allowed: it depends on the machine running Apply, which breaks '' @
         ''Raft FSM determinism across replicas'')
      else case LoadLocation P timezone of
        Inl err \<Rightarrow> validationError ''timezone'' (''timezone: '' @ err)
      | Inr loc \<Rightarrow> Inr loc)"

definition intervalSlot :: "platform \<Rightarrow> Time \<Rightarrow> int \<Rightarrow> f64 \<Rightarrow> Time" where
  "intervalSlot P firstRunAt seconds N =
     (let offset = wrap64 (wrap64 (f64_to_int (outOfRange P) N * seconds) * nanosPerSecond)
      in UTC (Add firstRunAt offset))"

definition computeIntervalOnOrAfter ::
  "platform \<Rightarrow> Time \<Rightarrow> int \<Rightarrow> Time \<Rightarrow> failure + Time option" where
  "computeIntervalOnOrAfter P firstRunAt seconds from =
     (if Before from firstRunAt \<or> Equal from firstRunAt then Inr (Some (UTC firstRunAt))
      else let timeDifference = Sub from firstRunAt;
               N = fceil (fdiv (Seconds timeDifference) (f64_of_int seconds))
           in Inr (Some (intervalSlot P firstRunAt seconds N)))"

text \<open>The wall clock time of the first run on another day: \<open>time.Date\<close> with its clock reading.\<close>

definition atClock :: "Location \<Rightarrow> Time \<Rightarrow> int \<Rightarrow> int \<Rightarrow> int \<Rightarrow> Time" where
  "atClock loc firstRunAt year month day =
     Date year month day (Hour loc firstRunAt) (Minute loc firstRunAt) (Second loc firstRunAt) 0 loc"

definition computeDailyOnOrAfter :: "Time \<Rightarrow> Time \<Rightarrow> Location \<Rightarrow> failure + Time option" where
  "computeDailyOnOrAfter firstRunAt from loc =
     (if Before from firstRunAt then Inr (Some (UTC firstRunAt))
      else let candidate = atClock loc firstRunAt (Year loc from) (Month loc from) (Day loc from);
               candidate' = (if Before candidate from then AddDate loc candidate 0 0 1 else candidate)
           in Inr (Some (UTC candidate')))"

definition computeWeeklyOnOrAfter :: "Time \<Rightarrow> Time \<Rightarrow> Location \<Rightarrow> failure + Time option" where
  "computeWeeklyOnOrAfter firstRunAt from loc =
     (if Before from firstRunAt then Inr (Some (UTC firstRunAt))
      else let targetWeekday = Weekday loc firstRunAt;
               daysUntilTarget = goMod (targetWeekday - Weekday loc from + 7) 7;
               candidate = atClock loc firstRunAt (Year loc from) (Month loc from)
                             (Day loc from + daysUntilTarget);
               candidate' = (if Before candidate from then AddDate loc candidate 0 0 7 else candidate)
           in Inr (Some (UTC candidate')))"

definition lastDayOf :: "int \<Rightarrow> int \<Rightarrow> int" where
  "lastDayOf year month = Day utcLoc (Date year (month + 1) 0 0 0 0 0 utcLoc)"

text \<open>
  The loop over months: at most \<open>n\<close> iterations, each trying the month's candidate with the
  test \<open>ok\<close> and otherwise stepping \<open>step\<close> months (1 forwards, -1 backwards).
\<close>

fun monthlyLoop ::
  "nat \<Rightarrow> int \<Rightarrow> (Time \<Rightarrow> bool) \<Rightarrow> Location \<Rightarrow> Time \<Rightarrow> int \<Rightarrow> int \<Rightarrow> int \<Rightarrow> Time option" where
  "monthlyLoop 0 step ok loc firstRunAt dayOfMonth year month = None"
| "monthlyLoop (Suc n) step ok loc firstRunAt dayOfMonth year month =
     (let actualDay = min dayOfMonth (lastDayOf year month);
          candidate = atClock loc firstRunAt year month actualDay
      in if ok candidate then Some candidate
         else let next = Date year (month + step) 1 0 0 0 0 utcLoc
              in monthlyLoop n step ok loc firstRunAt dayOfMonth (Year utcLoc next) (Month utcLoc next))"

definition monthlyResult :: "string \<Rightarrow> Time option \<Rightarrow> failure + Time option" where
  "monthlyResult name r =
     (case r of
        Some candidate \<Rightarrow> Inr (Some (UTC candidate))
      | None \<Rightarrow> validationError ''day_of_month'' (name @ '': no slot found within 120 months''))"

definition computeMonthlyOnOrAfter ::
  "Time \<Rightarrow> int \<Rightarrow> Time \<Rightarrow> Location \<Rightarrow> failure + Time option" where
  "computeMonthlyOnOrAfter firstRunAt dayOfMonth from loc =
     (if Before from firstRunAt then Inr (Some (UTC firstRunAt))
      else monthlyResult ''computeMonthlyOnOrAfter''
        (monthlyLoop 120 1 (\<lambda>c. \<not> Before c from) loc firstRunAt dayOfMonth (Year loc from) (Month loc from)))"

text \<open>Dispatch on the cadence, shared by the three exported functions.\<close>

definition dispatchCadence ::
  "platform \<Rightarrow> Recurrence option \<Rightarrow> string \<Rightarrow> (int \<Rightarrow> failure + Time option) \<Rightarrow>
   (Location \<Rightarrow> failure + Time option) \<Rightarrow> (Location \<Rightarrow> failure + Time option) \<Rightarrow>
   (int \<Rightarrow> Location \<Rightarrow> failure + Time option) \<Rightarrow> failure + Time option" where
  "dispatchCadence P recurrence timezone interval daily weekly monthly =
     (case recurrence of
        None \<Rightarrow> validationError ''recurrence'' ''recurrence: no recurrence, cannot compute''
      | Some r \<Rightarrow>
          (case resolveTimezone P timezone of
             Inl err \<Rightarrow> Inl err
           | Inr loc \<Rightarrow>
               if rCadence r = CadenceInterval then
                 (case rSeconds r of
                    None \<Rightarrow> Inl (Panic ''nil pointer dereference: recurrence.Seconds'')
                  | Some s \<Rightarrow> interval s)
               else if rCadence r = CadenceDaily then daily loc
               else if rCadence r = CadenceWeekly then weekly loc
               else if rCadence r = CadenceMonthly then
                 (case rDayOfMonth r of
                    None \<Rightarrow> Inl (Panic ''nil pointer dereference: recurrence.DayOfMonth'')
                  | Some d \<Rightarrow> monthly d loc)
               else validationError ''cadence'' ''recurrence.cadence: unknown cadence''))"

definition ComputeNextRunOnOrAfter ::
  "platform \<Rightarrow> Recurrence option \<Rightarrow> string \<Rightarrow> Time \<Rightarrow> Time \<Rightarrow> failure + Time option" where
  "ComputeNextRunOnOrAfter P recurrence timezone firstRunAt from =
     dispatchCadence P recurrence timezone
       (\<lambda>s. computeIntervalOnOrAfter P firstRunAt s from)
       (\<lambda>loc. computeDailyOnOrAfter firstRunAt from loc)
       (\<lambda>loc. computeWeeklyOnOrAfter firstRunAt from loc)
       (\<lambda>d loc. computeMonthlyOnOrAfter firstRunAt d from loc)"

definition computeIntervalAfter ::
  "platform \<Rightarrow> Time \<Rightarrow> int \<Rightarrow> Time \<Rightarrow> failure + Time option" where
  "computeIntervalAfter P firstRunAt seconds from =
     (if Before from firstRunAt then Inr (Some (UTC firstRunAt))
      else let timeDifference = Sub from firstRunAt;
               N = fadd (ffloor (fdiv (Seconds timeDifference) (f64_of_int seconds))) (Finite 1)
           in Inr (Some (intervalSlot P firstRunAt seconds N)))"

definition computeDailyAfter :: "Time \<Rightarrow> Time \<Rightarrow> Location \<Rightarrow> failure + Time option" where
  "computeDailyAfter firstRunAt from loc =
     (if Before from firstRunAt then Inr (Some (UTC firstRunAt))
      else let candidate = atClock loc firstRunAt (Year loc from) (Month loc from) (Day loc from);
               candidate' = (if \<not> After candidate from then AddDate loc candidate 0 0 1 else candidate)
           in Inr (Some (UTC candidate')))"

definition computeWeeklyAfter :: "Time \<Rightarrow> Time \<Rightarrow> Location \<Rightarrow> failure + Time option" where
  "computeWeeklyAfter firstRunAt from loc =
     (if Before from firstRunAt then Inr (Some (UTC firstRunAt))
      else let candidate = atClock loc firstRunAt (Year loc from) (Month loc from) (Day loc from);
               candidate' = (if \<not> After candidate from then AddDate loc candidate 0 0 7 else candidate)
           in Inr (Some (UTC candidate')))"

definition computeMonthlyAfter ::
  "Time \<Rightarrow> int \<Rightarrow> Time \<Rightarrow> Location \<Rightarrow> failure + Time option" where
  "computeMonthlyAfter firstRunAt dayOfMonth from loc =
     (if Before from firstRunAt then Inr (Some (UTC firstRunAt))
      else monthlyResult ''computeMonthlyAfter''
        (monthlyLoop 120 1 (\<lambda>c. After c from) loc firstRunAt dayOfMonth (Year loc from) (Month loc from)))"

definition ComputeNextRunAfter ::
  "platform \<Rightarrow> Recurrence option \<Rightarrow> string \<Rightarrow> Time \<Rightarrow> Time \<Rightarrow> failure + Time option" where
  "ComputeNextRunAfter P recurrence timezone firstRunAt from =
     dispatchCadence P recurrence timezone
       (\<lambda>s. computeIntervalAfter P firstRunAt s from)
       (\<lambda>loc. computeDailyAfter firstRunAt from loc)
       (\<lambda>loc. computeWeeklyAfter firstRunAt from loc)
       (\<lambda>d loc. computeMonthlyAfter firstRunAt d from loc)"

definition computeIntervalLatestOnOrBefore ::
  "platform \<Rightarrow> Time \<Rightarrow> int \<Rightarrow> Time \<Rightarrow> failure + Time option" where
  "computeIntervalLatestOnOrBefore P firstRunAt seconds from =
     (if Before from firstRunAt then Inr None
      else let timeDifference = Sub from firstRunAt;
               N = ffloor (fdiv (Seconds timeDifference) (f64_of_int seconds))
           in Inr (Some (intervalSlot P firstRunAt seconds N)))"

definition computeDailyLatestOnOrBefore :: "Time \<Rightarrow> Time \<Rightarrow> Location \<Rightarrow> failure + Time option" where
  "computeDailyLatestOnOrBefore firstRunAt from loc =
     (if Before from firstRunAt then Inr None
      else let candidate = atClock loc firstRunAt (Year loc from) (Month loc from) (Day loc from);
               candidate' = (if After candidate from then AddDate loc candidate 0 0 (- 1) else candidate)
           in Inr (Some (UTC candidate')))"

definition computeWeeklyLatestOnOrBefore :: "Time \<Rightarrow> Time \<Rightarrow> Location \<Rightarrow> failure + Time option" where
  "computeWeeklyLatestOnOrBefore firstRunAt from loc =
     (if Before from firstRunAt then Inr None
      else let targetWeekday = Weekday loc firstRunAt;
               daysBackToTarget = goMod (Weekday loc from - targetWeekday + 7) 7;
               candidate = atClock loc firstRunAt (Year loc from) (Month loc from)
                             (Day loc from - daysBackToTarget);
               candidate' = (if After candidate from then AddDate loc candidate 0 0 (- 7) else candidate)
           in Inr (Some (UTC candidate')))"

definition computeMonthlyLatestOnOrBefore ::
  "Time \<Rightarrow> int \<Rightarrow> Time \<Rightarrow> Location \<Rightarrow> failure + Time option" where
  "computeMonthlyLatestOnOrBefore firstRunAt dayOfMonth from loc =
     (if Before from firstRunAt then Inr None
      else monthlyResult ''computeMonthlyLatestOnOrBefore''
        (monthlyLoop 120 (- 1) (\<lambda>c. \<not> After c from) loc firstRunAt dayOfMonth (Year loc from) (Month loc from)))"

definition ComputeLatestRunOnOrBefore ::
  "platform \<Rightarrow> Recurrence option \<Rightarrow> string \<Rightarrow> Time \<Rightarrow> Time \<Rightarrow> failure + Time option" where
  "ComputeLatestRunOnOrBefore P recurrence timezone firstRunAt from =
     dispatchCadence P recurrence timezone
       (\<lambda>s. computeIntervalLatestOnOrBefore P firstRunAt s from)
       (\<lambda>loc. computeDailyLatestOnOrBefore firstRunAt from loc)
       (\<lambda>loc. computeWeeklyLatestOnOrBefore firstRunAt from loc)
       (\<lambda>d loc. computeMonthlyLatestOnOrBefore firstRunAt d from loc)"

end
