(* ===== verification/Commands.thy ===== *)
theory Commands
  imports Recurrence TxContract
begin

text \<open>
  The state transitions of \<open>internal/command\<close>: one record per command struct, one function
  per \<open>Apply...\<close> handler over an arbitrary implementation of the \<open>Tx\<close> interface, and
  \<open>Dispatch\<close>. A handler returns the new transaction state with its result, or the failure
  it returns; every guard, early return and storage error of the source is a branch.
\<close>

section \<open>Tenants (\<open>tenant.go\<close>)\<close>

record CreateTenantCommand =
  ctID :: string
  ctName :: string
  ctAPIKeyHash :: string

definition ApplyCreateTenant :: "'s Tx \<Rightarrow> 's \<Rightarrow> CreateTenantCommand \<Rightarrow> Time \<Rightarrow> failure + 's \<times> Tenant" where
  "ApplyCreateTenant T s cmd proposedAt =
     (if ctID cmd = [] then validationError ''id'' ''id is missing''
      else if ctAPIKeyHash cmd = [] then validationError ''api_key_hash'' ''api_key_hash is missing''
      else case GetTenant T s (ctID cmd) of
        Inl err \<Rightarrow> storageError (''read failed: '' @ err)
      | Inr (Some _) \<Rightarrow> conflictError ''id'' ''tenant with this ID already exists''
      | Inr None \<Rightarrow>
          (let tenant = \<lparr>tnID = ctID cmd, tnName = ctName cmd, tnCreatedAt = proposedAt,
                         tnAPIKeyHash = ctAPIKeyHash cmd\<rparr>
           in case PutTenant T s tenant of
                Inl err \<Rightarrow> storageError (''write failed: '' @ err)
              | Inr s' \<Rightarrow> Inr (s', tenant)))"

section \<open>Schedules (\<open>schedule.go\<close>)\<close>

record CreateScheduleCommand =
  csID :: string
  csTenantID :: string
  csCreatedBy :: string
  csCallbackURL :: string
  csPayload :: string
  csHeaders :: "(string \<times> string) list"
  csScheduleType :: string
  csFirstRunAt :: Time
  csRecurrence :: "Recurrence option"
  csTimezone :: string
  csMaxAttempts :: int
  csRetryBackoff :: RetryBackoff
  csCallTimeout :: "int option"
  csCatchUpPolicy :: string

record UpdateScheduleCommand =
  usTenantID :: string
  usID :: string
  usCallbackURL :: "string option"
  usHeaders :: "(string \<times> string) list option"
  usPayload :: "string option"
  usRetryBackoff :: "RetryBackoff option"
  usMaxAttempts :: "int option"
  usCallTimeout :: "int option"

record PauseScheduleCommand =
  psTenantID :: string
  psID :: string

record CancelScheduleCommand =
  xsTenantID :: string
  xsID :: string

record ResumeScheduleCommand =
  rsTenantID :: string
  rsID :: string

text \<open>
  \<open>validateHeaders\<close>. A Go map is listed in the order its \<open>range\<close> loop happens to visit it;
  the reserved keys found are sorted before they are reported.
\<close>

fun joinStrings :: "string \<Rightarrow> string list \<Rightarrow> string" where
  "joinStrings sep [] = []"
| "joinStrings sep [x] = x"
| "joinStrings sep (x # xs) = x @ sep @ joinStrings sep xs"

definition reservedIn :: "(string \<times> string) list \<Rightarrow> string list" where
  "reservedIn headers = filter (\<lambda>k. k \<in> set ReservedHeaderKeys) (map (CanonicalMIMEHeaderKey \<circ> fst) headers)"

definition validateHeaders :: "(string \<times> string) list \<Rightarrow> failure + unit" where
  "validateHeaders headers =
     (let reserved = reservedIn headers
      in if reserved = [] then Inr ()
         else validationError ''headers''
           (''reserved header keys not allowed: ['' @ joinStrings '', '' (sort reserved) @ '']''))"

definition callTimeoutMsg :: string where
  "callTimeoutMsg = ''call_timeout must be between 1s and 5m0s''"

definition ApplyCreateSchedule ::
  "'s Tx \<Rightarrow> platform \<Rightarrow> 's \<Rightarrow> CreateScheduleCommand \<Rightarrow> Time \<Rightarrow> failure + 's \<times> Schedule" where
  "ApplyCreateSchedule T P s cmd proposedAt =
     (if csTenantID cmd = [] then validationError ''tenant_id'' ''tenant_id is missing''
      else if csID cmd = [] then validationError ''id'' ''id is missing''
      else andThen (validateHeaders (csHeaders cmd)) (\<lambda>_.
      case GetSchedule T s (csTenantID cmd) (csID cmd) of
        Inl err \<Rightarrow> storageError (''read failed: '' @ err)
      | Inr (Some _) \<Rightarrow> conflictError ''id'' ''schedule with this ID already exists''
      | Inr None \<Rightarrow>
          andThen (if csScheduleType cmd = ScheduleTypeOnce then Inr (Some (csFirstRunAt cmd))
                   else ComputeNextRunOnOrAfter P (csRecurrence cmd) (csTimezone cmd)
                          (csFirstRunAt cmd) (csFirstRunAt cmd))
            (\<lambda>nextRun.
          if (case csCallTimeout cmd of
                None \<Rightarrow> False
              | Some d \<Rightarrow> d < MinCallTimeout \<or> MaxCallTimeout < d)
          then validationError ''call_timeout'' callTimeoutMsg
          else
            let schedule = \<lparr>
                  sSchemaVersion = CurrentScheduleSchemaVersion, sID = csID cmd,
                  sTenantID = csTenantID cmd, sCreatedAt = proposedAt, sUpdatedAt = proposedAt,
                  sCreatedBy = csCreatedBy cmd, sCallbackURL = csCallbackURL cmd,
                  sPayload = csPayload cmd, sHeaders = csHeaders cmd,
                  sScheduleType = csScheduleType cmd, sFirstRunAt = csFirstRunAt cmd,
                  sRecurrence = csRecurrence cmd, sTimezone = csTimezone cmd,
                  sMaxAttempts = csMaxAttempts cmd, sRetryBackoff = csRetryBackoff cmd,
                  sCallTimeout = csCallTimeout cmd, sCatchUpPolicy = csCatchUpPolicy cmd,
                  sStatus = ScheduleStatusActive, sNextRunAt = nextRun\<rparr>
            in case PutSchedule T s schedule of
                 Inl err \<Rightarrow> storageError (''write failed: '' @ err)
               | Inr s' \<Rightarrow> Inr (s', schedule))))"

text \<open>The field-by-field overwrite of \<open>ApplyUpdateSchedule\<close>, then its treatment of the call timeout.\<close>

definition updatedFields :: "UpdateScheduleCommand \<Rightarrow> Schedule \<Rightarrow> Schedule" where
  "updatedFields cmd x = x\<lparr>
     sCallbackURL := (case usCallbackURL cmd of None \<Rightarrow> sCallbackURL x | Some u \<Rightarrow> u),
     sHeaders := (case usHeaders cmd of None \<Rightarrow> sHeaders x | Some h \<Rightarrow> h),
     sPayload := (case usPayload cmd of None \<Rightarrow> sPayload x | Some p \<Rightarrow> p),
     sRetryBackoff := (case usRetryBackoff cmd of None \<Rightarrow> sRetryBackoff x | Some b \<Rightarrow> b),
     sMaxAttempts := (case usMaxAttempts cmd of None \<Rightarrow> sMaxAttempts x | Some m \<Rightarrow> m)\<rparr>"

definition updatedTimeout :: "UpdateScheduleCommand \<Rightarrow> Schedule \<Rightarrow> failure + Schedule" where
  "updatedTimeout cmd x =
     (case usCallTimeout cmd of
        None \<Rightarrow> Inr x
      | Some d \<Rightarrow>
          if d = 0 then Inr (x\<lparr>sCallTimeout := None\<rparr>)
          else if d < MinCallTimeout \<or> MaxCallTimeout < d then validationError ''call_timeout'' callTimeoutMsg
          else Inr (x\<lparr>sCallTimeout := Some d\<rparr>))"

definition ApplyUpdateSchedule ::
  "'s Tx \<Rightarrow> 's \<Rightarrow> UpdateScheduleCommand \<Rightarrow> Time \<Rightarrow> failure + 's \<times> Schedule" where
  "ApplyUpdateSchedule T s cmd proposedAt =
     (if usTenantID cmd = [] then validationError ''tenant_id'' ''tenant_id is missing''
      else if usID cmd = [] then validationError ''id'' ''id is missing''
      else andThen (case usHeaders cmd of None \<Rightarrow> Inr () | Some h \<Rightarrow> validateHeaders h) (\<lambda>_.
      case GetSchedule T s (usTenantID cmd) (usID cmd) of
        Inl err \<Rightarrow> storageError (''Getting prexisiting row failed: '' @ err)
      | Inr None \<Rightarrow> notFoundError ''id'' ''schedule not found''
      | Inr (Some existing) \<Rightarrow>
          if sStatus existing = ScheduleStatusCanceled
          then conflictError ''status'' ''you cannot modify a canceled schedule''
          else andThen (updatedTimeout cmd (updatedFields cmd existing)) (\<lambda>updated0.
            let updated = updated0\<lparr>sUpdatedAt := proposedAt\<rparr>
            in case PutSchedule T s updated of
                 Inl err \<Rightarrow> storageError (''update failed: '' @ err)
               | Inr s' \<Rightarrow> Inr (s', updated))))"

definition ApplyPauseSchedule ::
  "'s Tx \<Rightarrow> 's \<Rightarrow> PauseScheduleCommand \<Rightarrow> Time \<Rightarrow> failure + 's \<times> Schedule" where
  "ApplyPauseSchedule T s cmd proposedAt =
     (if psTenantID cmd = [] then validationError ''tenant_id'' ''tenant_id is missing''
      else if psID cmd = [] then validationError ''id'' ''id is missing''
      else case GetSchedule T s (psTenantID cmd) (psID cmd) of
        Inl err \<Rightarrow> storageError (''Getting preexisiting row failed: '' @ err)
      | Inr None \<Rightarrow> notFoundError ''id'' ''schedule not found''
      | Inr (Some existing) \<Rightarrow>
          if sStatus existing = ScheduleStatusPaused then Inr (s, existing)
          else if sStatus existing = ScheduleStatusCanceled
          then conflictError ''status'' ''you cannot pause a canceled schedule''
          else if sStatus existing = ScheduleStatusCompleted
          then conflictError ''status'' ''you cannot pause a completed schedule''
          else
            let updated = existing\<lparr>sStatus := ScheduleStatusPaused, sNextRunAt := None,
                                   sUpdatedAt := proposedAt\<rparr>
            in case PutSchedule T s updated of
                 Inl err \<Rightarrow> storageError (''pause: put schedule failed: '' @ err)
               | Inr s' \<Rightarrow> Inr (s', updated))"

definition ApplyCancelSchedule ::
  "'s Tx \<Rightarrow> 's \<Rightarrow> CancelScheduleCommand \<Rightarrow> Time \<Rightarrow> failure + 's \<times> Schedule" where
  "ApplyCancelSchedule T s cmd proposedAt =
     (if xsTenantID cmd = [] then validationError ''tenant_id'' ''tenant_id is missing''
      else if xsID cmd = [] then validationError ''id'' ''id is missing''
      else case GetSchedule T s (xsTenantID cmd) (xsID cmd) of
        Inl err \<Rightarrow> storageError (''Getting preexisiting row failed: '' @ err)
      | Inr None \<Rightarrow> notFoundError ''id'' ''schedule not found''
      | Inr (Some existing) \<Rightarrow>
          if sStatus existing = ScheduleStatusCanceled then Inr (s, existing)
          else if sStatus existing = ScheduleStatusCompleted then Inr (s, existing)
          else
            let updated = existing\<lparr>sStatus := ScheduleStatusCanceled, sNextRunAt := None,
                                   sUpdatedAt := proposedAt\<rparr>
            in case PutSchedule T s updated of
                 Inl err \<Rightarrow> storageError (''schedule canceled: '' @ err)
               | Inr s' \<Rightarrow> Inr (s', updated))"

definition IsTerminal :: "string \<Rightarrow> bool" where
  "IsTerminal st \<longleftrightarrow>
     st = ExecutionStatusSucceeded \<or> st = ExecutionStatusFailedTerminal \<or> st = ExecutionStatusFailedMaxRetries"

text \<open>The callback of \<open>findMostRecentTerminalExecution\<close>, folded over the listing.\<close>

definition moreRecent :: "Execution option \<Rightarrow> Execution \<Rightarrow> Execution option" where
  "moreRecent best e =
     (if \<not> IsTerminal (eStatus e) then best
      else case best of
        None \<Rightarrow> Some e
      | Some b \<Rightarrow> if After (eScheduledFor e) (eScheduledFor b) then Some e else best)"

definition findMostRecentTerminalExecution ::
  "'s Tx \<Rightarrow> 's \<Rightarrow> string \<Rightarrow> string \<Rightarrow> Execution option fallible" where
  "findMostRecentTerminalExecution T s tenantID scheduleID =
     (let (es, err) = ListExecutionsBySchedule T s tenantID scheduleID
      in case err of Some e \<Rightarrow> Inl e | None \<Rightarrow> Inr (foldl moreRecent None es))"

definition catchUpRun :: "platform \<Rightarrow> Schedule \<Rightarrow> Execution option \<Rightarrow> Time \<Rightarrow> failure + Time option" where
  "catchUpRun P existing anchor proposedAt =
     (let rec = sRecurrence existing; tz = sTimezone existing; firstRunAt = sFirstRunAt existing
      in if sCatchUpPolicy existing = CatchUpPolicyAll then
           (case anchor of
              None \<Rightarrow> ComputeNextRunOnOrAfter P rec tz firstRunAt firstRunAt
            | Some a \<Rightarrow> ComputeNextRunAfter P rec tz firstRunAt (eScheduledFor a))
         else if sCatchUpPolicy existing = CatchUpPolicyLatestOnly then
           andThen (ComputeLatestRunOnOrBefore P rec tz firstRunAt proposedAt) (\<lambda>nextRun.
             Inr (case nextRun of None \<Rightarrow> Some firstRunAt | Some t \<Rightarrow> Some t))
         else if sCatchUpPolicy existing = CatchUpPolicySkipMissed then
           ComputeNextRunAfter P rec tz firstRunAt proposedAt
         else Inr None)"

definition resumeNextRun ::
  "'s Tx \<Rightarrow> platform \<Rightarrow> 's \<Rightarrow> Schedule \<Rightarrow> Time \<Rightarrow> failure + Time option" where
  "resumeNextRun T P s existing proposedAt =
     (if sScheduleType existing = ScheduleTypeOnce then Inr (Some (sFirstRunAt existing))
      else case findMostRecentTerminalExecution T s (sTenantID existing) (sID existing) of
        Inl err \<Rightarrow> storageError (''Could not find the most recent terminal execution: '' @ err)
      | Inr anchor \<Rightarrow> catchUpRun P existing anchor proposedAt)"

definition ApplyResumeSchedule ::
  "'s Tx \<Rightarrow> platform \<Rightarrow> 's \<Rightarrow> ResumeScheduleCommand \<Rightarrow> Time \<Rightarrow> failure + 's \<times> Schedule" where
  "ApplyResumeSchedule T P s cmd proposedAt =
     (if rsTenantID cmd = [] then validationError ''tenant_id'' ''tenant_id is missing''
      else if rsID cmd = [] then validationError ''id'' ''id is missing''
      else case GetSchedule T s (rsTenantID cmd) (rsID cmd) of
        Inl err \<Rightarrow> storageError (''Getting preexisiting row failed: '' @ err)
      | Inr None \<Rightarrow> notFoundError ''id'' ''schedule not found''
      | Inr (Some existing) \<Rightarrow>
          if sStatus existing = ScheduleStatusActive then Inr (s, existing)
          else if sStatus existing = ScheduleStatusCanceled
          then conflictError ''status'' ''you cannot resume a canceled schedule''
          else if sStatus existing = ScheduleStatusCompleted
          then conflictError ''status'' ''you cannot resume a completed schedule''
          else andThen (resumeNextRun T P s existing proposedAt) (\<lambda>nextRun.
            let updated = existing\<lparr>sNextRunAt := nextRun, sStatus := ScheduleStatusActive,
                                   sUpdatedAt := proposedAt\<rparr>
            in case PutSchedule T s updated of
                 Inl err \<Rightarrow> storageError (''resume: put schedule failed: '' @ err)
               | Inr s' \<Rightarrow> Inr (s', updated)))"

section \<open>Executions (\<open>execution.go\<close>)\<close>

record ClaimExecutionCommand =
  clID :: string
  clTenantID :: string
  clScheduleID :: string
  clScheduledFor :: Time
  clOwnerNodeID :: string

record AdoptExecutionCommand =
  adTenantID :: string
  adExecutionID :: string
  adPreviousOwner :: string
  adNewOwner :: string

record RecordAttemptCommand =
  raTenantID :: string
  raExecutionID :: string
  raID :: string
  raNodeID :: string
  raStartedAt :: "Time option"
  raCompletedAt :: "Time option"
  raOutcome :: string
  raRetryAt :: "Time option"
  raRequestURL :: string
  raRequestHeaders :: "(string \<times> string) list"
  raRequestBodyHash :: string
  raResponseStatus :: int
  raResponseBodyExcerpt :: string
  raResponseHeaders :: "(string \<times> string) list"

record CompleteExecutionCommand =
  coTenantID :: string
  coExecutionID :: string
  coFinalStatus :: string
  coFinalOutcome :: string
  coNextRunAt :: "Time option"

record FailExecutionTimeoutCommand =
  feTenantID :: string
  feExecutionID :: string
  feFinalOutcome :: string

definition claimedExecution :: "ClaimExecutionCommand \<Rightarrow> Time \<Rightarrow> Execution" where
  "claimedExecution cmd proposedAt = \<lparr>
     eSchemaVersion = CurrentExecutionSchemaVersion, eID = clID cmd,
     eTenantID = clTenantID cmd, eScheduleID = clScheduleID cmd,
     eScheduledFor = clScheduledFor cmd,
     eIdempotencyKey = DeriveIdempotencyKey (clScheduleID cmd) (clScheduledFor cmd),
     eOwnerNodeID = clOwnerNodeID cmd, eClaimedAt = Some proposedAt,
     eStatus = ExecutionStatusInFlight, eStartedAt = None, eCompletedAt = None,
     eAttemptCount = 0, eLastAttemptID = [], eLastRetryAt = None, eFinalOutcome = []\<rparr>"

text \<open>
  The listing callback of \<open>ApplyClaimExecution\<close> stops at the first execution for the same
  instant; a listing error counts only if no such execution was reached before it.
\<close>

definition ApplyClaimExecution ::
  "'s Tx \<Rightarrow> 's \<Rightarrow> ClaimExecutionCommand \<Rightarrow> Time \<Rightarrow> failure + 's \<times> Execution" where
  "ApplyClaimExecution T s cmd proposedAt =
     (if clTenantID cmd = [] then validationError ''tenant_id'' ''tenant_id is missing''
      else if clScheduleID cmd = [] then validationError ''schedule_id'' ''schedule_id is missing''
      else if clID cmd = [] then validationError ''id'' ''id is missing''
      else if IsZero (clScheduledFor cmd) then validationError ''scheduled_for'' ''scheduled_for is zero''
      else if clOwnerNodeID cmd = [] then validationError ''owner_node_id'' ''owner_node_id is missing''
      else
        let (es, err) = ListExecutionsBySchedule T s (clTenantID cmd) (clScheduleID cmd)
        in case find (\<lambda>ex. Equal (eScheduledFor ex) (clScheduledFor cmd)) es of
             Some existing \<Rightarrow>
               Inl (Rejected \<lparr>ceKind = KindConflict,
                 ceMessage = ''an execution already exists for this schedule at scheduled_for'',
                 ceField = ''scheduled_for'',
                 ceDetails = [(''existing_execution_id'', eID existing)]\<rparr>)
           | None \<Rightarrow>
               (case err of
                  Some e \<Rightarrow> storageError (''list executions failed: '' @ e)
                | None \<Rightarrow>
                    let ex = claimedExecution cmd proposedAt
                    in case PutExecution T s ex of
                         Inl e \<Rightarrow> storageError (''write failed: '' @ e)
                       | Inr s' \<Rightarrow> Inr (s', ex)))"

definition ApplyAdoptExecution ::
  "'s Tx \<Rightarrow> 's \<Rightarrow> AdoptExecutionCommand \<Rightarrow> Time \<Rightarrow> failure + 's \<times> Execution" where
  "ApplyAdoptExecution T s cmd proposedAt =
     (if adTenantID cmd = [] then validationError ''tenant_id'' ''tenant_id is missing''
      else if adExecutionID cmd = [] then validationError ''execution_id'' ''execution_id is missing''
      else if adPreviousOwner cmd = [] then validationError ''current_owner'' ''current_owner is missing''
      else if adNewOwner cmd = [] then validationError ''new_owner'' ''new_owner is missing''
      else if adNewOwner cmd = adPreviousOwner cmd
      then validationError ''new_owner'' ''new_owner is the same as current owner''
      else case GetExecution T s (adTenantID cmd) (adExecutionID cmd) of
        Inl err \<Rightarrow> storageError (''get execution failed: '' @ err)
      | Inr None \<Rightarrow> notFoundError [] ''no execution exists''
      | Inr (Some ex) \<Rightarrow>
          if eStatus ex \<noteq> ExecutionStatusInFlight then conflictError ''status'' ''status must be in flight''
          else if eOwnerNodeID ex \<noteq> adPreviousOwner cmd
          then conflictError ''owner_node_id'' ''owner node mismatch''
          else
            let updated = ex\<lparr>eOwnerNodeID := adNewOwner cmd\<rparr>
            in case PutExecution T s updated of
                 Inl err \<Rightarrow> storageError (''write failed: '' @ err)
               | Inr s' \<Rightarrow> Inr (s', updated))"

definition recordedAttempt :: "RecordAttemptCommand \<Rightarrow> Execution \<Rightarrow> Attempt" where
  "recordedAttempt cmd ex = \<lparr>
     aSchemaVersion = CurrentAttemptSchemaVersion, aID = raID cmd,
     aTenantID = raTenantID cmd, aExecutionID = raExecutionID cmd,
     aNodeID = raNodeID cmd, aAttemptNumber = eAttemptCount ex + 1,
     aStartedAt = raStartedAt cmd, aCompletedAt = raCompletedAt cmd,
     aRequestURL = raRequestURL cmd, aRequestHeaders = raRequestHeaders cmd,
     aRequestBodyHash = raRequestBodyHash cmd, aResponseStatus = raResponseStatus cmd,
     aResponseBodyExcerpt = raResponseBodyExcerpt cmd,
     aResponseHeaders = raResponseHeaders cmd, aOutcome = raOutcome cmd,
     aRetryAt = (case raRetryAt cmd of None \<Rightarrow> ZeroTime | Some t \<Rightarrow> t)\<rparr>"

definition ApplyRecordAttempt ::
  "'s Tx \<Rightarrow> 's \<Rightarrow> RecordAttemptCommand \<Rightarrow> Time \<Rightarrow> failure + 's \<times> Attempt" where
  "ApplyRecordAttempt T s cmd proposedAt =
     (if raTenantID cmd = [] then validationError ''tenant_id'' ''tenant_id is missing''
      else if raExecutionID cmd = [] then validationError ''execution_id'' ''execution_id is missing''
      else if raID cmd = [] then validationError ''id'' ''id is missing''
      else if raNodeID cmd = [] then validationError ''node_id'' ''node_id is missing''
      else if raOutcome cmd = [] then validationError ''outcome'' ''outcome is missing''
      else if raStartedAt cmd = None then validationError ''started_at'' ''started_at is missing''
      else if IsZero (the (raStartedAt cmd)) then validationError ''started_at'' ''started_at is zero''
      else if raCompletedAt cmd = None then validationError ''completed_at'' ''completed_at is missing''
      else if IsZero (the (raCompletedAt cmd)) then validationError ''completed_at'' ''completed_at is zero''
      else if raRequestURL cmd = [] then validationError ''request_url'' ''request_url is missing''
      else if raOutcome cmd = OutcomeSuccess \<and> raResponseStatus cmd = 0
      then validationError ''response_status'' ''response_status is missing''
      else case GetExecution T s (raTenantID cmd) (raExecutionID cmd) of
        Inl err \<Rightarrow> storageError (''get execution failed: '' @ err)
      | Inr None \<Rightarrow> notFoundError [] ''no execution exists''
      | Inr (Some ex) \<Rightarrow>
          if eStatus ex \<noteq> ExecutionStatusInFlight then conflictError ''status'' ''status must be in flight''
          else if eOwnerNodeID ex \<noteq> raNodeID cmd
          then conflictError ''owner_node_id'' ''owner node mismatch''
          else
            let attempt = recordedAttempt cmd ex
            in case PutAttempt T s attempt of
                 Inl err \<Rightarrow> storageError (''write failed: '' @ err)
               | Inr s1 \<Rightarrow>
                   (let updated = ex\<lparr>eAttemptCount := eAttemptCount ex + 1,
                                     eLastAttemptID := aID attempt, eLastRetryAt := raRetryAt cmd\<rparr>
                    in case PutExecution T s1 updated of
                         Inl err \<Rightarrow> storageError (''write failed: '' @ err)
                       | Inr s2 \<Rightarrow> Inr (s2, attempt)))"

text \<open>
  The common tail of \<open>ApplyCompleteExecution\<close> and \<open>ApplyFailExecutionTimeout\<close>: store the
  finished execution, then advance or complete its schedule. The next run is computed in
  UTC, whatever the schedule's time zone. \<open>msg\<close> is the text of the rejection when no next
  run can be computed; a nil dereference in the computation stays a panic.
\<close>

definition advancedSchedule :: "platform \<Rightarrow> string \<Rightarrow> Execution \<Rightarrow> Schedule \<Rightarrow> failure + Schedule" where
  "advancedSchedule P msg ex schedule =
     (if sScheduleType schedule = ScheduleTypeRecurring then
        if sStatus schedule = ScheduleStatusActive then
          (case ComputeNextRunAfter P (sRecurrence schedule) ''UTC'' (sFirstRunAt schedule) (eScheduledFor ex) of
             Inl (Panic p) \<Rightarrow> Inl (Panic p)
           | Inl _ \<Rightarrow> validationError ''recurrence'' msg
           | Inr t \<Rightarrow> Inr (schedule\<lparr>sNextRunAt := t\<rparr>))
        else Inr schedule
      else Inr (schedule\<lparr>sStatus := ScheduleStatusCompleted, sNextRunAt := None\<rparr>))"

definition finishExecution ::
  "'s Tx \<Rightarrow> platform \<Rightarrow> string \<Rightarrow> 's \<Rightarrow> string \<Rightarrow> Execution \<Rightarrow> Execution \<Rightarrow> failure + 's \<times> Execution" where
  "finishExecution T P msg s tenantID ex updated =
     (case PutExecution T s updated of
        Inl err \<Rightarrow> storageError (''write failed: '' @ err)
      | Inr s1 \<Rightarrow>
          (case GetSchedule T s1 tenantID (eScheduleID ex) of
             Inl err \<Rightarrow> storageError (''get schedule failed: '' @ err)
           | Inr None \<Rightarrow> notFoundError [] ''no schedule exists''
           | Inr (Some schedule) \<Rightarrow>
               andThen (advancedSchedule P msg ex schedule) (\<lambda>newSchedule.
                 case PutSchedule T s1 newSchedule of
                   Inl err \<Rightarrow> storageError (''write failed: '' @ err)
                 | Inr s2 \<Rightarrow> Inr (s2, updated))))"

definition ApplyCompleteExecution ::
  "'s Tx \<Rightarrow> platform \<Rightarrow> 's \<Rightarrow> CompleteExecutionCommand \<Rightarrow> Time \<Rightarrow> failure + 's \<times> Execution" where
  "ApplyCompleteExecution T P s cmd proposedAt =
     (if coTenantID cmd = [] then validationError ''tenant_id'' ''tenant_id is missing''
      else if coExecutionID cmd = [] then validationError ''execution_id'' ''execution_id is missing''
      else if coFinalStatus cmd = [] then validationError ''final_status'' ''final_status is missing''
      else if coFinalOutcome cmd = [] then validationError ''final_outcome'' ''final_outcome is missing''
      else if \<not> IsTerminal (coFinalStatus cmd)
      then validationError ''status'' ''final_status must be terminal''
      else case GetExecution T s (coTenantID cmd) (coExecutionID cmd) of
        Inl err \<Rightarrow> storageError (''get execution failed: '' @ err)
      | Inr None \<Rightarrow> notFoundError [] ''no execution exists''
      | Inr (Some ex) \<Rightarrow>
          if IsTerminal (eStatus ex) then conflictError ''status'' ''execution is already terminal''
          else finishExecution T P ''next run at could now be found'' s (coTenantID cmd) ex
                 (ex\<lparr>eStatus := coFinalStatus cmd, eFinalOutcome := coFinalOutcome cmd,
                     eCompletedAt := Some proposedAt, eOwnerNodeID := []\<rparr>))"

definition ApplyFailExecutionTimeout ::
  "'s Tx \<Rightarrow> platform \<Rightarrow> 's \<Rightarrow> FailExecutionTimeoutCommand \<Rightarrow> Time \<Rightarrow> failure + 's \<times> Execution" where
  "ApplyFailExecutionTimeout T P s cmd proposedAt =
     (if feTenantID cmd = [] then validationError ''tenant_id'' ''tenant_id is missing''
      else if feExecutionID cmd = [] then validationError ''execution_id'' ''execution_id is missing''
      else if feFinalOutcome cmd = [] then validationError ''final_outcome'' ''final_outcome is missing''
      else case GetExecution T s (feTenantID cmd) (feExecutionID cmd) of
        Inl err \<Rightarrow> storageError (''get execution failed: '' @ err)
      | Inr None \<Rightarrow> notFoundError [] ''no execution exists''
      | Inr (Some ex) \<Rightarrow>
          if IsTerminal (eStatus ex) then conflictError ''status'' ''execution is already terminal''
          else finishExecution T P ''next run at could not be found'' s (feTenantID cmd) ex
                 (ex\<lparr>eStatus := ExecutionStatusFailedMaxRetries, eFinalOutcome := feFinalOutcome cmd,
                     eCompletedAt := Some proposedAt, eOwnerNodeID := []\<rparr>))"

section \<open>Dispatch (\<open>command.go\<close>)\<close>

text \<open>
  A decoded log payload: the command the entry's type announces, a payload
  \<open>json.Unmarshal\<close> rejects with an error, or a type no case of the switch handles.
\<close>

datatype Command =
    CreateTenant CreateTenantCommand
  | CreateSchedule CreateScheduleCommand
  | UpdateSchedule UpdateScheduleCommand
  | PauseSchedule PauseScheduleCommand
  | CancelSchedule CancelScheduleCommand
  | ResumeSchedule ResumeScheduleCommand
  | ClaimExecution ClaimExecutionCommand
  | AdoptExecution AdoptExecutionCommand
  | RecordAttempt RecordAttemptCommand
  | CompleteExecution CompleteExecutionCommand
  | FailExecutionTimeout FailExecutionTimeoutCommand
  | BadPayload goerror
  | UnknownType string

record LogEntry =
  lePayload :: Command
  leProposedAt :: Time

datatype Result =
    ResTenant Tenant | ResSchedule Schedule | ResExecution Execution | ResAttempt Attempt

definition withResult :: "('r \<Rightarrow> Result) \<Rightarrow> failure + 's \<times> 'r \<Rightarrow> failure + 's \<times> Result" where
  "withResult f m = andThen m (\<lambda>(s', r). Inr (s', f r))"

fun Dispatch :: "'s Tx \<Rightarrow> platform \<Rightarrow> 's \<Rightarrow> Command \<Rightarrow> Time \<Rightarrow> failure + 's \<times> Result" where
  "Dispatch T P s (CreateTenant cmd) proposedAt = withResult ResTenant (ApplyCreateTenant T s cmd proposedAt)"
| "Dispatch T P s (CreateSchedule cmd) proposedAt = withResult ResSchedule (ApplyCreateSchedule T P s cmd proposedAt)"
| "Dispatch T P s (UpdateSchedule cmd) proposedAt = withResult ResSchedule (ApplyUpdateSchedule T s cmd proposedAt)"
| "Dispatch T P s (PauseSchedule cmd) proposedAt = withResult ResSchedule (ApplyPauseSchedule T s cmd proposedAt)"
| "Dispatch T P s (CancelSchedule cmd) proposedAt = withResult ResSchedule (ApplyCancelSchedule T s cmd proposedAt)"
| "Dispatch T P s (ResumeSchedule cmd) proposedAt = withResult ResSchedule (ApplyResumeSchedule T P s cmd proposedAt)"
| "Dispatch T P s (ClaimExecution cmd) proposedAt = withResult ResExecution (ApplyClaimExecution T s cmd proposedAt)"
| "Dispatch T P s (AdoptExecution cmd) proposedAt = withResult ResExecution (ApplyAdoptExecution T s cmd proposedAt)"
| "Dispatch T P s (RecordAttempt cmd) proposedAt = withResult ResAttempt (ApplyRecordAttempt T s cmd proposedAt)"
| "Dispatch T P s (CompleteExecution cmd) proposedAt = withResult ResExecution (ApplyCompleteExecution T P s cmd proposedAt)"
| "Dispatch T P s (FailExecutionTimeout cmd) proposedAt = withResult ResExecution (ApplyFailExecutionTimeout T P s cmd proposedAt)"
| "Dispatch T P s (BadPayload err) proposedAt = Inl (Error err)"
| "Dispatch T P s (UnknownType ty) proposedAt = Inl (Error (''unknown log entry type: '' @ CHR 0x22 # ty @ [CHR 0x22]))"

end
