(* ===== verification/CommandSpec.thy ===== *)
theory CommandSpec
  imports Commands
begin

text \<open>
  What each command promises, over the abstract database of \<open>TxContract\<close>: \<open>db_step\<close> has one
  rule per command that changes something and one per accepted command that changes
  nothing. The lemmas of \<open>tx_spec\<close> show that every handler, run on any transaction that
  satisfies the contract, takes such a step when it succeeds.
\<close>

section \<open>The abstract operations\<close>

definition setTenant :: "db \<Rightarrow> Tenant \<Rightarrow> db" where
  "setTenant d n = d\<lparr>dbTenants := (dbTenants d)(tnID n \<mapsto> n)\<rparr>"

definition setSchedule :: "db \<Rightarrow> Schedule \<Rightarrow> db" where
  "setSchedule d x = d\<lparr>dbSchedules := (dbSchedules d)((sTenantID x, sID x) \<mapsto> x)\<rparr>"

definition setExecution :: "db \<Rightarrow> Execution \<Rightarrow> db" where
  "setExecution d e = d\<lparr>dbExecutions := (dbExecutions d)((eTenantID e, eID e) \<mapsto> e)\<rparr>"

definition setAttempt :: "db \<Rightarrow> Attempt \<Rightarrow> db" where
  "setAttempt d a = d\<lparr>dbAttempts := (dbAttempts d)((aTenantID a, aID a) \<mapsto> a)\<rparr>"

lemma set_rows [simp]:
  "dbTenants (setTenant d n) = (dbTenants d)(tnID n \<mapsto> n)"
  "dbSchedules (setTenant d n) = dbSchedules d"
  "dbExecutions (setTenant d n) = dbExecutions d"
  "dbAttempts (setTenant d n) = dbAttempts d"
  "dbTenants (setSchedule d x) = dbTenants d"
  "dbSchedules (setSchedule d x) = (dbSchedules d)((sTenantID x, sID x) \<mapsto> x)"
  "dbExecutions (setSchedule d x) = dbExecutions d"
  "dbAttempts (setSchedule d x) = dbAttempts d"
  "dbTenants (setExecution d e) = dbTenants d"
  "dbSchedules (setExecution d e) = dbSchedules d"
  "dbExecutions (setExecution d e) = (dbExecutions d)((eTenantID e, eID e) \<mapsto> e)"
  "dbAttempts (setExecution d e) = dbAttempts d"
  "dbTenants (setAttempt d a) = dbTenants d"
  "dbSchedules (setAttempt d a) = dbSchedules d"
  "dbExecutions (setAttempt d a) = dbExecutions d"
  "dbAttempts (setAttempt d a) = (dbAttempts d)((aTenantID a, aID a) \<mapsto> a)"
  by (simp_all add: setTenant_def setSchedule_def setExecution_def setAttempt_def)

text \<open>The executions of a schedule, and the latest of its finished ones by scheduled time.\<close>

definition executionsFor :: "db \<Rightarrow> string \<Rightarrow> string \<Rightarrow> Execution set" where
  "executionsFor d t j = {e. \<exists>i. dbExecutions d (t, i) = Some e \<and> eScheduleID e = j}"

definition is_anchor :: "db \<Rightarrow> string \<Rightarrow> string \<Rightarrow> Execution option \<Rightarrow> bool" where
  "is_anchor d t j anchor \<longleftrightarrow>
     (let finished = {e \<in> executionsFor d t j. IsTerminal (eStatus e)}
      in case anchor of
           None \<Rightarrow> finished = {}
         | Some a \<Rightarrow> a \<in> finished \<and> (\<forall>e \<in> finished. \<not> After (eScheduledFor e) (eScheduledFor a)))"

definition in_bounds :: "int option \<Rightarrow> bool" where
  "in_bounds timeout \<longleftrightarrow> (case timeout of None \<Rightarrow> True | Some d \<Rightarrow> MinCallTimeout \<le> d \<and> d \<le> MaxCallTimeout)"

definition finished :: "Execution \<Rightarrow> string \<Rightarrow> string \<Rightarrow> Time \<Rightarrow> Execution" where
  "finished e status outcome now =
     e\<lparr>eStatus := status, eFinalOutcome := outcome, eCompletedAt := Some now, eOwnerNodeID := []\<rparr>"

inductive db_step :: "platform \<Rightarrow> Time \<Rightarrow> Command \<Rightarrow> db \<Rightarrow> Result \<Rightarrow> db \<Rightarrow> bool" for P now where
  create_tenant:
    "ctID c \<noteq> [] \<Longrightarrow> dbTenants d (ctID c) = None \<Longrightarrow> tnID n = ctID c \<Longrightarrow> tnName n = ctName c \<Longrightarrow>
     tnAPIKeyHash n = ctAPIKeyHash c \<Longrightarrow> tnAPIKeyHash n \<noteq> [] \<Longrightarrow> tnCreatedAt n = now \<Longrightarrow>
     db_step P now (CreateTenant c) d (ResTenant n) (setTenant d n)"
| create_schedule:
    "sTenantID x = csTenantID c \<Longrightarrow> sID x = csID c \<Longrightarrow> sTenantID x \<noteq> [] \<Longrightarrow> sID x \<noteq> [] \<Longrightarrow>
     dbSchedules d (csTenantID c, csID c) = None \<Longrightarrow> reservedIn (sHeaders x) = [] \<Longrightarrow>
     in_bounds (sCallTimeout x) \<Longrightarrow> sStatus x = ScheduleStatusActive \<Longrightarrow>
     sScheduleType x = csScheduleType c \<Longrightarrow> sFirstRunAt x = csFirstRunAt c \<Longrightarrow>
     (if csScheduleType c = ScheduleTypeOnce then Inr (Some (csFirstRunAt c))
      else ComputeNextRunOnOrAfter P (csRecurrence c) (csTimezone c) (csFirstRunAt c) (csFirstRunAt c))
       = Inr (sNextRunAt x) \<Longrightarrow>
     db_step P now (CreateSchedule c) d (ResSchedule x) (setSchedule d x)"
| update_schedule:
    "dbSchedules d (usTenantID c, usID c) = Some x \<Longrightarrow> sStatus x \<noteq> ScheduleStatusCanceled \<Longrightarrow>
     (case usHeaders c of None \<Rightarrow> True | Some h \<Rightarrow> reservedIn h = []) \<Longrightarrow>
     updatedTimeout c (updatedFields c x) = Inr y \<Longrightarrow>
     db_step P now (UpdateSchedule c) d (ResSchedule (y\<lparr>sUpdatedAt := now\<rparr>))
       (setSchedule d (y\<lparr>sUpdatedAt := now\<rparr>))"
| pause_schedule:
    "dbSchedules d (psTenantID c, psID c) = Some x \<Longrightarrow>
     sStatus x \<notin> {ScheduleStatusPaused, ScheduleStatusCanceled, ScheduleStatusCompleted} \<Longrightarrow>
     y = x\<lparr>sStatus := ScheduleStatusPaused, sNextRunAt := None, sUpdatedAt := now\<rparr> \<Longrightarrow>
     db_step P now (PauseSchedule c) d (ResSchedule y) (setSchedule d y)"
| pause_again:
    "dbSchedules d (psTenantID c, psID c) = Some x \<Longrightarrow> sStatus x = ScheduleStatusPaused \<Longrightarrow>
     db_step P now (PauseSchedule c) d (ResSchedule x) d"
| cancel_schedule:
    "dbSchedules d (xsTenantID c, xsID c) = Some x \<Longrightarrow>
     sStatus x \<notin> {ScheduleStatusCanceled, ScheduleStatusCompleted} \<Longrightarrow>
     y = x\<lparr>sStatus := ScheduleStatusCanceled, sNextRunAt := None, sUpdatedAt := now\<rparr> \<Longrightarrow>
     db_step P now (CancelSchedule c) d (ResSchedule y) (setSchedule d y)"
| cancel_again:
    "dbSchedules d (xsTenantID c, xsID c) = Some x \<Longrightarrow>
     sStatus x \<in> {ScheduleStatusCanceled, ScheduleStatusCompleted} \<Longrightarrow>
     db_step P now (CancelSchedule c) d (ResSchedule x) d"
| resume_schedule:
    "dbSchedules d (rsTenantID c, rsID c) = Some x \<Longrightarrow>
     sStatus x \<notin> {ScheduleStatusActive, ScheduleStatusCanceled, ScheduleStatusCompleted} \<Longrightarrow>
     is_anchor d (sTenantID x) (sID x) anchor \<Longrightarrow>
     (if sScheduleType x = ScheduleTypeOnce then Inr (Some (sFirstRunAt x))
      else catchUpRun P x anchor now) = Inr next \<Longrightarrow>
     y = x\<lparr>sNextRunAt := next, sStatus := ScheduleStatusActive, sUpdatedAt := now\<rparr> \<Longrightarrow>
     db_step P now (ResumeSchedule c) d (ResSchedule y) (setSchedule d y)"
| resume_again:
    "dbSchedules d (rsTenantID c, rsID c) = Some x \<Longrightarrow> sStatus x = ScheduleStatusActive \<Longrightarrow>
     db_step P now (ResumeSchedule c) d (ResSchedule x) d"
| claim_execution:
    "\<forall>e \<in> executionsFor d (clTenantID c) (clScheduleID c). \<not> Equal (eScheduledFor e) (clScheduledFor c) \<Longrightarrow>
     clID c \<noteq> [] \<Longrightarrow> clOwnerNodeID c \<noteq> [] \<Longrightarrow> \<not> IsZero (clScheduledFor c) \<Longrightarrow> e = claimedExecution c now \<Longrightarrow>
     db_step P now (ClaimExecution c) d (ResExecution e) (setExecution d e)"
| adopt_execution:
    "dbExecutions d (adTenantID c, adExecutionID c) = Some e \<Longrightarrow> eStatus e = ExecutionStatusInFlight \<Longrightarrow>
     eOwnerNodeID e = adPreviousOwner c \<Longrightarrow> adNewOwner c \<notin> {[], adPreviousOwner c} \<Longrightarrow>
     e' = e\<lparr>eOwnerNodeID := adNewOwner c\<rparr> \<Longrightarrow>
     db_step P now (AdoptExecution c) d (ResExecution e') (setExecution d e')"
| record_attempt:
    "dbExecutions d (raTenantID c, raExecutionID c) = Some e \<Longrightarrow> eStatus e = ExecutionStatusInFlight \<Longrightarrow>
     eOwnerNodeID e = raNodeID c \<Longrightarrow> raID c \<noteq> [] \<Longrightarrow> a = recordedAttempt c e \<Longrightarrow>
     e' = e\<lparr>eAttemptCount := eAttemptCount e + 1, eLastAttemptID := raID c, eLastRetryAt := raRetryAt c\<rparr> \<Longrightarrow>
     db_step P now (RecordAttempt c) d (ResAttempt a) (setExecution (setAttempt d a) e')"
| complete_execution:
    "dbExecutions d (coTenantID c, coExecutionID c) = Some e \<Longrightarrow> \<not> IsTerminal (eStatus e) \<Longrightarrow>
     IsTerminal (coFinalStatus c) \<Longrightarrow> coFinalOutcome c \<noteq> [] \<Longrightarrow>
     dbSchedules d (coTenantID c, eScheduleID e) = Some x \<Longrightarrow>
     advancedSchedule P msg e x = Inr y \<Longrightarrow> e' = finished e (coFinalStatus c) (coFinalOutcome c) now \<Longrightarrow>
     db_step P now (CompleteExecution c) d (ResExecution e') (setSchedule (setExecution d e') y)"
| fail_execution_timeout:
    "dbExecutions d (feTenantID c, feExecutionID c) = Some e \<Longrightarrow> \<not> IsTerminal (eStatus e) \<Longrightarrow>
     feFinalOutcome c \<noteq> [] \<Longrightarrow> dbSchedules d (feTenantID c, eScheduleID e) = Some x \<Longrightarrow>
     advancedSchedule P msg e x = Inr y \<Longrightarrow>
     e' = finished e ExecutionStatusFailedMaxRetries (feFinalOutcome c) now \<Longrightarrow>
     db_step P now (FailExecutionTimeout c) d (ResExecution e') (setSchedule (setExecution d e') y)"

section \<open>What a command must satisfy\<close>

text \<open>
  The IDs of a command, which the handlers never check for the key separator, and the
  freshness of the IDs its sender draws at random.
\<close>

fun ids_ok :: "Command \<Rightarrow> bool" where
  "ids_ok (CreateTenant c) \<longleftrightarrow> True"
| "ids_ok (CreateSchedule c) \<longleftrightarrow> no_colon (csTenantID c) \<and> no_colon (csID c)"
| "ids_ok (UpdateSchedule c) \<longleftrightarrow> no_colon (usTenantID c)"
| "ids_ok (PauseSchedule c) \<longleftrightarrow> no_colon (psTenantID c)"
| "ids_ok (CancelSchedule c) \<longleftrightarrow> no_colon (xsTenantID c)"
| "ids_ok (ResumeSchedule c) \<longleftrightarrow> no_colon (rsTenantID c) \<and> no_colon (rsID c)"
| "ids_ok (ClaimExecution c) \<longleftrightarrow> no_colon (clTenantID c) \<and> no_colon (clScheduleID c)"
| "ids_ok (AdoptExecution c) \<longleftrightarrow> no_colon (adTenantID c)"
| "ids_ok (RecordAttempt c) \<longleftrightarrow> no_colon (raTenantID c) \<and> no_colon (raExecutionID c)"
| "ids_ok (CompleteExecution c) \<longleftrightarrow> no_colon (coTenantID c)"
| "ids_ok (FailExecutionTimeout c) \<longleftrightarrow> no_colon (feTenantID c)"
| "ids_ok _ \<longleftrightarrow> True"

fun fresh_ids :: "db \<Rightarrow> Command \<Rightarrow> bool" where
  "fresh_ids d (ClaimExecution c) \<longleftrightarrow> dbExecutions d (clTenantID c, clID c) = None"
| "fresh_ids d (RecordAttempt c) \<longleftrightarrow> dbAttempts d (raTenantID c, raID c) = None"
| "fresh_ids d _ \<longleftrightarrow> True"

section \<open>Facts about the pure parts of the handlers\<close>

lemma validateHeaders_Inr [simp]: "validateHeaders h = Inr u \<longleftrightarrow> reservedIn h = []"
  by (simp add: validateHeaders_def Let_def)

lemma updated_static:
  assumes "updatedTimeout c (updatedFields c x) = Inr y"
  shows "sTenantID y = sTenantID x" "sID y = sID x" "sStatus y = sStatus x" "sNextRunAt y = sNextRunAt x"
    "sScheduleType y = sScheduleType x" "sRecurrence y = sRecurrence x" "sFirstRunAt y = sFirstRunAt x"
    "sTimezone y = sTimezone x" "sCatchUpPolicy y = sCatchUpPolicy x" "sCreatedAt y = sCreatedAt x"
    "sHeaders y = (case usHeaders c of None \<Rightarrow> sHeaders x | Some h \<Rightarrow> h)"
    "in_bounds (sCallTimeout x) \<Longrightarrow> in_bounds (sCallTimeout y)"
proof -
  have "y = updatedFields c x \<or> (\<exists>d. y = (updatedFields c x)\<lparr>sCallTimeout := d\<rparr> \<and> in_bounds d)"
    using assms by (cases "usCallTimeout c") (auto simp: updatedTimeout_def in_bounds_def split: if_splits)
  then show "sTenantID y = sTenantID x" "sID y = sID x" "sStatus y = sStatus x" "sNextRunAt y = sNextRunAt x"
    "sScheduleType y = sScheduleType x" "sRecurrence y = sRecurrence x" "sFirstRunAt y = sFirstRunAt x"
    "sTimezone y = sTimezone x" "sCatchUpPolicy y = sCatchUpPolicy x" "sCreatedAt y = sCreatedAt x"
    "sHeaders y = (case usHeaders c of None \<Rightarrow> sHeaders x | Some h \<Rightarrow> h)"
    "in_bounds (sCallTimeout x) \<Longrightarrow> in_bounds (sCallTimeout y)"
    by (auto simp: updatedFields_def)
qed

lemma advanced_static:
  assumes "advancedSchedule P msg e x = Inr y"
  shows "sTenantID y = sTenantID x" "sID y = sID x" "sHeaders y = sHeaders x"
    "sCallTimeout y = sCallTimeout x" "sStatus y = sStatus x \<or> sStatus y = ScheduleStatusCompleted"
  using assms by (auto simp: advancedSchedule_def split: if_splits sum.splits failure.splits)

lemma no_colon_status [simp]:
  "no_colon ScheduleStatusActive" "no_colon ScheduleStatusPaused" "no_colon ScheduleStatusCanceled"
  "no_colon ScheduleStatusCompleted" "no_colon ExecutionStatusInFlight"
  "no_colon ExecutionStatusFailedMaxRetries"
  by (simp_all add: no_colon_def schedule_status_defs execution_status_defs)

lemma terminal_no_colon: "IsTerminal st \<Longrightarrow> no_colon st"
  by (auto simp: IsTerminal_def no_colon_def execution_status_defs)

lemma IsTerminal_simps [simp]:
  "\<not> IsTerminal ExecutionStatusInFlight" "IsTerminal ExecutionStatusFailedMaxRetries"
  "IsTerminal ExecutionStatusSucceeded" "IsTerminal ExecutionStatusFailedTerminal"
  by (simp_all add: IsTerminal_def execution_status_defs)

lemma advanced_storable:
  "advancedSchedule P msg e x = Inr y \<Longrightarrow> schedule_storable x \<Longrightarrow> schedule_storable y"
  using advanced_static by (fastforce simp: schedule_storable_def)

text \<open>The fold over a schedule's executions finds the most recent finished one.\<close>

definition best_of :: "Execution set \<Rightarrow> Execution option \<Rightarrow> bool" where
  "best_of S anchor \<longleftrightarrow>
     (case anchor of
        None \<Rightarrow> {e \<in> S. IsTerminal (eStatus e)} = {}
      | Some a \<Rightarrow> a \<in> S \<and> IsTerminal (eStatus a) \<and>
          (\<forall>e \<in> S. IsTerminal (eStatus e) \<longrightarrow> \<not> After (eScheduledFor e) (eScheduledFor a)))"

lemma best_of_insert: "best_of S b \<Longrightarrow> best_of (insert e S) (moreRecent b e)"
  by (auto simp: best_of_def moreRecent_def After_def split: option.splits if_splits)

lemma foldl_moreRecent: "best_of S b \<Longrightarrow> best_of (S \<union> set es) (foldl moreRecent b es)"
proof (induction es arbitrary: S b)
  case (Cons e es)
  from Cons.IH [OF best_of_insert [OF Cons.prems, of e]] show ?case by simp
qed simp

lemma moreRecent_anchor:
  "set es = executionsFor d t j \<Longrightarrow> is_anchor d t j (foldl moreRecent None es)"
  using foldl_moreRecent [of "{}" None es]
  by (auto simp: best_of_def is_anchor_def Let_def split: option.splits)

section \<open>The handlers implement the steps\<close>

text \<open>
  One lemma per handler: from a store that stands for an abstract database, an accepted
  command leads to a store that stands for the database after the step.
\<close>

context tx_spec
begin

lemma put_schedule':
  assumes "inv s" "PutSchedule T s x = Inr s'" "schedule_storable x"
  shows "inv s'" "view s' = setSchedule (view s) x"
  using put_schedule [OF assms(1,3,2)] by (simp_all add: setSchedule_def)

lemma put_execution':
  assumes "inv s" "PutExecution T s e = Inr s'" "execution_storable (view s) e"
  shows "inv s'" "view s' = setExecution (view s) e"
  using put_execution [OF assms(1,3,2)] by (simp_all add: setExecution_def)

lemma put_attempt':
  assumes "inv s" "PutAttempt T s a = Inr s'" "attempt_storable (view s) a"
  shows "inv s'" "view s' = setAttempt (view s) a"
  using put_attempt [OF assms(1,3,2)] by (simp_all add: setAttempt_def)

text \<open>A stored row may be stored again with other fields changed.\<close>

lemma schedule_kept_storable:
  assumes "inv s" "dbSchedules (view s) (t, i) = Some x" "sTenantID y = sTenantID x" "no_colon (sStatus y)"
  shows "schedule_storable y"
  using schedule_rows [OF assms(1,2)] assms(3,4) by (auto simp: schedule_storable_def)

lemma execution_kept_storable:
  assumes "inv s" "dbExecutions (view s) (t, i) = Some e" "eTenantID e' = eTenantID e" "eID e' = eID e"
    "eScheduleID e' = eScheduleID e" "no_colon (eStatus e')"
  shows "execution_storable (view s) e'"
proof -
  from execution_rows [OF assms(1,2)] have "execution_storable (view s) e" by blast
  then show ?thesis unfolding execution_storable_def assms(3-5) using assms(6) by blast
qed

lemma create_tenant_step:
  assumes "inv s" "ApplyCreateTenant T s c now = Inr (s', n)"
  shows "inv s' \<and> db_step P now (CreateTenant c) (view s) (ResTenant n) (view s')"
proof -
  from assms(2) have c: "ctID c \<noteq> []" "ctAPIKeyHash c \<noteq> []"
    and g: "GetTenant T s (ctID c) = Inr None" and p: "PutTenant T s n = Inr s'"
    and n: "n = \<lparr>tnID = ctID c, tnName = ctName c, tnCreatedAt = now, tnAPIKeyHash = ctAPIKeyHash c\<rparr>"
    by (auto simp: ApplyCreateTenant_def Let_def split: if_splits sum.splits option.splits)
  from put_tenant [OF assms(1) p] have "inv s'" "view s' = setTenant (view s) n"
    by (simp_all add: setTenant_def)
  moreover have "dbTenants (view s) (ctID c) = None" using g get_tenant [OF assms(1)] by simp
  ultimately show ?thesis using c n by (auto intro: db_step.create_tenant)
qed

lemma create_schedule_step:
  assumes "inv s" "ids_ok (CreateSchedule c)" "ApplyCreateSchedule T P s c now = Inr (s', x)"
  shows "inv s' \<and> db_step P now (CreateSchedule c) (view s) (ResSchedule x) (view s')"
proof -
  from assms(3) have c: "csTenantID c \<noteq> []" "csID c \<noteq> []" "reservedIn (csHeaders c) = []"
      "in_bounds (csCallTimeout c)"
    and g: "GetSchedule T s (csTenantID c) (csID c) = Inr None"
    and p: "PutSchedule T s x = Inr s'"
    and x: "sTenantID x = csTenantID c" "sID x = csID c" "sHeaders x = csHeaders c"
      "sCallTimeout x = csCallTimeout c" "sStatus x = ScheduleStatusActive"
      "sScheduleType x = csScheduleType c" "sFirstRunAt x = csFirstRunAt c"
      "(if csScheduleType c = ScheduleTypeOnce then Inr (Some (csFirstRunAt c))
        else ComputeNextRunOnOrAfter P (csRecurrence c) (csTimezone c) (csFirstRunAt c) (csFirstRunAt c))
       = Inr (sNextRunAt x)"
    by (auto simp: ApplyCreateSchedule_def Let_def in_bounds_def
        split: if_splits sum.splits option.splits)
  have "schedule_storable x" using x assms(2) by (simp add: schedule_storable_def)
  from put_schedule' [OF assms(1) p this]
  have "inv s'" "view s' = setSchedule (view s) x" .
  moreover have "dbSchedules (view s) (csTenantID c, csID c) = None"
    using g get_schedule [OF assms(1)] assms(2) by simp
  ultimately show ?thesis using c x by (auto intro!: db_step.create_schedule)
qed

lemma update_schedule_step:
  assumes "inv s" "ids_ok (UpdateSchedule c)" "ApplyUpdateSchedule T s c now = Inr (s', r)"
  shows "inv s' \<and> db_step P now (UpdateSchedule c) (view s) (ResSchedule r) (view s')"
proof -
  from assms(3) obtain x y
    where h: "case usHeaders c of None \<Rightarrow> True | Some h \<Rightarrow> reservedIn h = []"
      and g: "GetSchedule T s (usTenantID c) (usID c) = Inr (Some x)"
      and x: "sStatus x \<noteq> ScheduleStatusCanceled" "updatedTimeout c (updatedFields c x) = Inr y"
      and r: "r = y\<lparr>sUpdatedAt := now\<rparr>" and p: "PutSchedule T s r = Inr s'"
    by (auto simp: ApplyUpdateSchedule_def Let_def split: if_splits sum.splits option.splits)
  have v: "dbSchedules (view s) (usTenantID c, usID c) = Some x"
    using g get_schedule [OF assms(1)] assms(2) by simp
  have "schedule_storable r"
    using schedule_kept_storable [OF assms(1) v, of r] schedule_rows [OF assms(1) v] updated_static [OF x(2)] r
    by (simp add: schedule_storable_def)
  from put_schedule' [OF assms(1) p this] db_step.update_schedule [where c = c, OF v x(1) h x(2)] r
  show ?thesis by simp
qed

lemma pause_schedule_step:
  assumes "inv s" "ids_ok (PauseSchedule c)" "ApplyPauseSchedule T s c now = Inr (s', r)"
  shows "inv s' \<and> db_step P now (PauseSchedule c) (view s) (ResSchedule r) (view s')"
proof -
  from assms(3) obtain x where g: "GetSchedule T s (psTenantID c) (psID c) = Inr (Some x)"
    by (auto simp: ApplyPauseSchedule_def split: if_splits sum.splits option.splits)
  then have v: "dbSchedules (view s) (psTenantID c, psID c) = Some x"
    using get_schedule [OF assms(1)] assms(2) by simp
  from assms(3) g consider "sStatus x = ScheduleStatusPaused" "r = x" "s' = s"
    | "sStatus x \<notin> {ScheduleStatusPaused, ScheduleStatusCanceled, ScheduleStatusCompleted}"
      "r = x\<lparr>sStatus := ScheduleStatusPaused, sNextRunAt := None, sUpdatedAt := now\<rparr>"
      "PutSchedule T s r = Inr s'"
    by (auto simp: ApplyPauseSchedule_def Let_def split: if_splits sum.splits)
  then show ?thesis
  proof cases
    case 1 then show ?thesis using db_step.pause_again [where c = c, OF v] assms(1) by simp
  next
    case 2
    then have "schedule_storable r" using schedule_kept_storable [OF assms(1) v] by simp
    from put_schedule' [OF assms(1) 2(3) this] db_step.pause_schedule [where c = c, OF v 2(1,2)]
    show ?thesis by simp
  qed
qed

lemma cancel_schedule_step:
  assumes "inv s" "ids_ok (CancelSchedule c)" "ApplyCancelSchedule T s c now = Inr (s', r)"
  shows "inv s' \<and> db_step P now (CancelSchedule c) (view s) (ResSchedule r) (view s')"
proof -
  from assms(3) obtain x where g: "GetSchedule T s (xsTenantID c) (xsID c) = Inr (Some x)"
    by (auto simp: ApplyCancelSchedule_def split: if_splits sum.splits option.splits)
  then have v: "dbSchedules (view s) (xsTenantID c, xsID c) = Some x"
    using get_schedule [OF assms(1)] assms(2) by simp
  from assms(3) g consider "sStatus x \<in> {ScheduleStatusCanceled, ScheduleStatusCompleted}" "r = x" "s' = s"
    | "sStatus x \<notin> {ScheduleStatusCanceled, ScheduleStatusCompleted}"
      "r = x\<lparr>sStatus := ScheduleStatusCanceled, sNextRunAt := None, sUpdatedAt := now\<rparr>"
      "PutSchedule T s r = Inr s'"
    by (auto simp: ApplyCancelSchedule_def Let_def split: if_splits sum.splits)
  then show ?thesis
  proof cases
    case 1 then show ?thesis using db_step.cancel_again [where c = c, OF v] assms(1) by simp
  next
    case 2
    then have "schedule_storable r" using schedule_kept_storable [OF assms(1) v] by simp
    from put_schedule' [OF assms(1) 2(3) this] db_step.cancel_schedule [where c = c, OF v 2(1,2)]
    show ?thesis by simp
  qed
qed

lemma find_anchor:
  assumes "inv s" "no_colon t" "no_colon j"
  shows "\<exists>anchor. findMostRecentTerminalExecution T s t j = Inr anchor \<and> is_anchor (view s) t j anchor"
  using list_by_schedule [OF assms] moreRecent_anchor [of _ "view s" t j]
  by (auto simp: findMostRecentTerminalExecution_def lists_rows_def executionsFor_def split_def)

lemma resume_schedule_step:
  assumes "inv s" "ids_ok (ResumeSchedule c)" "ApplyResumeSchedule T P s c now = Inr (s', r)"
  shows "inv s' \<and> db_step P now (ResumeSchedule c) (view s) (ResSchedule r) (view s')"
proof -
  from assms(3) obtain x where g: "GetSchedule T s (rsTenantID c) (rsID c) = Inr (Some x)"
    by (auto simp: ApplyResumeSchedule_def split: if_splits sum.splits option.splits)
  then have v: "dbSchedules (view s) (rsTenantID c, rsID c) = Some x"
    using get_schedule [OF assms(1)] assms(2) by simp
  note x = schedule_rows [OF assms(1) v]
  from x assms(1,2) find_anchor obtain anchor
    where f: "findMostRecentTerminalExecution T s (sTenantID x) (sID x) = Inr anchor"
      and a: "is_anchor (view s) (sTenantID x) (sID x) anchor" by fastforce
  from assms(3) g consider "sStatus x = ScheduleStatusActive" "r = x" "s' = s"
    | nr where "sStatus x \<notin> {ScheduleStatusActive, ScheduleStatusCanceled, ScheduleStatusCompleted}"
      "resumeNextRun T P s x now = Inr nr"
      "r = x\<lparr>sNextRunAt := nr, sStatus := ScheduleStatusActive, sUpdatedAt := now\<rparr>"
      "PutSchedule T s r = Inr s'"
    by (auto simp: ApplyResumeSchedule_def Let_def split: if_splits sum.splits)
  then show ?thesis
  proof cases
    case 1 then show ?thesis using db_step.resume_again [where c = c, OF v] assms(1) by simp
  next
    case 2
    then have "schedule_storable r" using schedule_kept_storable [OF assms(1) v] by simp
    from 2(2) f have "(if sScheduleType x = ScheduleTypeOnce then Inr (Some (sFirstRunAt x))
      else catchUpRun P x anchor now) = Inr nr" by (simp add: resumeNextRun_def split: if_splits)
    from put_schedule' [OF assms(1) 2(4) \<open>schedule_storable r\<close>]
      db_step.resume_schedule [where c = c, OF v 2(1) a this 2(3)]
    show ?thesis by simp
  qed
qed

lemma claim_execution_step:
  assumes "inv s" "ids_ok (ClaimExecution c)" "fresh_ids (view s) (ClaimExecution c)"
    "ApplyClaimExecution T s c now = Inr (s', r)"
  shows "inv s' \<and> db_step P now (ClaimExecution c) (view s) (ResExecution r) (view s')"
proof -
  obtain es where es: "ListExecutionsBySchedule T s (clTenantID c) (clScheduleID c) = (es, None)"
    "set es = executionsFor (view s) (clTenantID c) (clScheduleID c)"
    using list_by_schedule [OF assms(1), of "clTenantID c" "clScheduleID c"] assms(2)
    by (auto simp: lists_rows_def executionsFor_def) (metis prod.collapse)
  from assms(4) es(1) have c: "clID c \<noteq> []" "clOwnerNodeID c \<noteq> []" "\<not> IsZero (clScheduledFor c)"
    and f: "find (\<lambda>ex. Equal (eScheduledFor ex) (clScheduledFor c)) es = None"
    and r: "r = claimedExecution c now" and p: "PutExecution T s r = Inr s'"
    by (auto simp: ApplyClaimExecution_def Let_def split: if_splits sum.splits option.splits)
  have "execution_storable (view s) r"
    using assms(2,3) r by (simp add: execution_storable_def claimedExecution_def)
  from put_execution' [OF assms(1) p this] db_step.claim_execution [where c = c and d = "view s", OF _ c r] f es(2)
  show ?thesis by (auto simp: find_None_iff)
qed

lemma adopt_execution_step:
  assumes "inv s" "ids_ok (AdoptExecution c)" "ApplyAdoptExecution T s c now = Inr (s', r)"
  shows "inv s' \<and> db_step P now (AdoptExecution c) (view s) (ResExecution r) (view s')"
proof -
  from assms(3) obtain e where c: "adNewOwner c \<notin> {[], adPreviousOwner c}"
    and g: "GetExecution T s (adTenantID c) (adExecutionID c) = Inr (Some e)"
    and e: "eStatus e = ExecutionStatusInFlight" "eOwnerNodeID e = adPreviousOwner c"
    and r: "r = e\<lparr>eOwnerNodeID := adNewOwner c\<rparr>" and p: "PutExecution T s r = Inr s'"
    by (auto simp: ApplyAdoptExecution_def Let_def split: if_splits sum.splits option.splits)
  have v: "dbExecutions (view s) (adTenantID c, adExecutionID c) = Some e"
    using g get_execution [OF assms(1)] assms(2) by simp
  have "execution_storable (view s) r"
    by (rule execution_kept_storable [OF assms(1) v]) (use r e in simp_all)
  from put_execution' [OF assms(1) p this] db_step.adopt_execution [where c = c, OF v e c r]
  show ?thesis by simp
qed

lemma record_attempt_step:
  assumes "inv s" "ids_ok (RecordAttempt c)" "fresh_ids (view s) (RecordAttempt c)"
    "ApplyRecordAttempt T s c now = Inr (s', r)"
  shows "inv s' \<and> db_step P now (RecordAttempt c) (view s) (ResAttempt r) (view s')"
proof -
  define upd where "upd e = e\<lparr>eAttemptCount := eAttemptCount e + 1, eLastAttemptID := raID c,
    eLastRetryAt := raRetryAt c\<rparr>" for e :: Execution
  from assms(4) obtain e s1 where c: "raID c \<noteq> []"
    and g: "GetExecution T s (raTenantID c) (raExecutionID c) = Inr (Some e)"
    and e: "eStatus e = ExecutionStatusInFlight" "eOwnerNodeID e = raNodeID c"
    and r: "r = recordedAttempt c e" and p: "PutAttempt T s r = Inr s1" "PutExecution T s1 (upd e) = Inr s'"
    by (auto simp: ApplyRecordAttempt_def Let_def recordedAttempt_def upd_def
        split: if_splits sum.splits option.splits)
  have v: "dbExecutions (view s) (raTenantID c, raExecutionID c) = Some e"
    using g get_execution [OF assms(1)] assms(2) by simp
  have "attempt_storable (view s) r"
    using assms(2,3) r by (simp add: attempt_storable_def recordedAttempt_def)
  note s1 = put_attempt' [OF assms(1) p(1) this]
  then have "execution_storable (view s1) (upd e)"
    by (intro execution_kept_storable [of s1 "raTenantID c" "raExecutionID c" e])
      (use v e in \<open>simp_all add: upd_def\<close>)
  from put_execution' [OF s1(1) p(2) this] s1 db_step.record_attempt [where c = c, OF v e c r upd_def]
  show ?thesis by simp
qed

lemma finish_execution_step:
  assumes "inv s" "no_colon t" "dbExecutions (view s) (t, i) = Some e"
    "eTenantID u = eTenantID e" "eID u = eID e" "eScheduleID u = eScheduleID e" "no_colon (eStatus u)"
    "finishExecution T P msg s t e u = Inr (s', r)"
  obtains x y where "r = u" "inv s'" "dbSchedules (view s) (t, eScheduleID e) = Some x"
    "advancedSchedule P msg e x = Inr y" "view s' = setSchedule (setExecution (view s) u) y"
proof -
  from assms(8) obtain s1 x y where p: "PutExecution T s u = Inr s1" and r: "r = u"
    and g: "GetSchedule T s1 t (eScheduleID e) = Inr (Some x)"
    and y: "advancedSchedule P msg e x = Inr y" "PutSchedule T s1 y = Inr s'"
    by (auto simp: finishExecution_def split: sum.splits option.splits)
  note s1 = put_execution' [OF assms(1) p execution_kept_storable [OF assms(1,3-7)]]
  have v: "dbSchedules (view s1) (t, eScheduleID e) = Some x"
    using g get_schedule [OF s1(1) assms(2)] by simp
  with schedule_rows [OF s1(1) v] y(1) have "schedule_storable y" using advanced_storable by blast
  from put_schedule' [OF s1(1) y(2) this] s1 v y r that show ?thesis by simp
qed

lemma complete_execution_step:
  assumes "inv s" "ids_ok (CompleteExecution c)" "ApplyCompleteExecution T P s c now = Inr (s', r)"
  shows "inv s' \<and> db_step P now (CompleteExecution c) (view s) (ResExecution r) (view s')"
proof -
  let ?msg = "''next run at could now be found''"
  from assms(3) obtain e where c: "IsTerminal (coFinalStatus c)" "coFinalOutcome c \<noteq> []"
    and g: "GetExecution T s (coTenantID c) (coExecutionID c) = Inr (Some e)"
    and e: "\<not> IsTerminal (eStatus e)"
    and f: "finishExecution T P ?msg s (coTenantID c) e
      (finished e (coFinalStatus c) (coFinalOutcome c) now) = Inr (s', r)"
    by (auto simp: ApplyCompleteExecution_def finished_def split: if_splits sum.splits option.splits)
  have v: "dbExecutions (view s) (coTenantID c, coExecutionID c) = Some e"
    using g get_execution [OF assms(1)] assms(2) by simp
  from assms(2) have t: "no_colon (coTenantID c)" by simp
  show ?thesis
  proof (rule finish_execution_step [OF assms(1) t v _ _ _ _ f])
    fix x y assume "r = finished e (coFinalStatus c) (coFinalOutcome c) now" "inv s'"
      "dbSchedules (view s) (coTenantID c, eScheduleID e) = Some x"
      "advancedSchedule P ?msg e x = Inr y"
      "view s' = setSchedule (setExecution (view s) (finished e (coFinalStatus c) (coFinalOutcome c) now)) y"
    then show ?thesis using db_step.complete_execution [where c = c, OF v e c] by simp
  qed (use c terminal_no_colon in \<open>simp_all add: finished_def\<close>)
qed

lemma fail_execution_step:
  assumes "inv s" "ids_ok (FailExecutionTimeout c)" "ApplyFailExecutionTimeout T P s c now = Inr (s', r)"
  shows "inv s' \<and> db_step P now (FailExecutionTimeout c) (view s) (ResExecution r) (view s')"
proof -
  let ?msg = "''next run at could not be found''"
  let ?u = "\<lambda>e. finished e ExecutionStatusFailedMaxRetries (feFinalOutcome c) now"
  from assms(3) obtain e where c: "feFinalOutcome c \<noteq> []"
    and g: "GetExecution T s (feTenantID c) (feExecutionID c) = Inr (Some e)"
    and e: "\<not> IsTerminal (eStatus e)"
    and f: "finishExecution T P ?msg s (feTenantID c) e (?u e) = Inr (s', r)"
    by (auto simp: ApplyFailExecutionTimeout_def finished_def split: if_splits sum.splits option.splits)
  have v: "dbExecutions (view s) (feTenantID c, feExecutionID c) = Some e"
    using g get_execution [OF assms(1)] assms(2) by simp
  from assms(2) have t: "no_colon (feTenantID c)" by simp
  show ?thesis
  proof (rule finish_execution_step [OF assms(1) t v _ _ _ _ f])
    fix x y assume "r = ?u e" "inv s'" "dbSchedules (view s) (feTenantID c, eScheduleID e) = Some x"
      "advancedSchedule P ?msg e x = Inr y" "view s' = setSchedule (setExecution (view s) (?u e)) y"
    then show ?thesis using db_step.fail_execution_timeout [where c = c, OF v e c] by simp
  qed (simp_all add: finished_def)
qed

lemma withResult_Inr: "withResult f m = Inr (s', r) \<longleftrightarrow> (\<exists>x. m = Inr (s', x) \<and> r = f x)"
  by (auto simp: withResult_def)

theorem dispatch_step:
  assumes "inv s" "ids_ok cmd" "fresh_ids (view s) cmd" "Dispatch T P s cmd now = Inr (s', r)"
  shows "inv s' \<and> db_step P now cmd (view s) r (view s')"
  using assms
  by (cases cmd)
    (auto simp: withResult_Inr simp del: ids_ok.simps fresh_ids.simps
      dest: create_tenant_step create_schedule_step update_schedule_step pause_schedule_step
        cancel_schedule_step resume_schedule_step claim_execution_step adopt_execution_step
        record_attempt_step complete_execution_step fail_execution_step)

end

end
