(* ===== verification/Replication.thy ===== *)
theory Replication
  imports StorageCorrect CommandSpec
begin

text \<open>
  Replicas that apply the same log agree. A handler sees the store only through its
  transaction, so related stores give related outcomes: \<open>rel_Tx\<close> relates two transaction
  implementations whose reads agree and whose writes fail alike, and every handler takes
  related stores to the same result and related stores. The transactions of bbolt are so
  related on any two stores that hold the same keys and values, whatever their layout.
\<close>

section \<open>Handlers respect related transactions\<close>

definition rel_Tx :: "('s \<Rightarrow> 's' \<Rightarrow> bool) \<Rightarrow> 's Tx \<Rightarrow> 's' Tx \<Rightarrow> bool" where
  "rel_Tx R T U \<longleftrightarrow>
     (\<forall>s u. R s u \<longrightarrow>
       GetSchedule T s = GetSchedule U u \<and> GetExecution T s = GetExecution U u \<and> GetAttempt T s = GetAttempt U u \<and>
       GetTenant T s = GetTenant U u \<and> ListExecutionsBySchedule T s = ListExecutionsBySchedule U u \<and>
       (\<forall>x. rel_sum (=) R (PutSchedule T s x) (PutSchedule U u x)) \<and>
       (\<forall>e. rel_sum (=) R (PutExecution T s e) (PutExecution U u e)) \<and>
       (\<forall>a. rel_sum (=) R (PutAttempt T s a) (PutAttempt U u a)) \<and>
       (\<forall>n. rel_sum (=) R (PutTenant T s n) (PutTenant U u n)))"

definition rel_step :: "('s \<Rightarrow> 's' \<Rightarrow> bool) \<Rightarrow> failure + 's \<times> 'r \<Rightarrow> failure + 's' \<times> 'r \<Rightarrow> bool" where
  "rel_step R = rel_sum (=) (rel_prod R (=))"

named_theorems rel_intros \<open>structural rules relating two runs of one handler\<close>

lemma rel_structure [rel_intros]:
  "rel_step R (Inl e) (Inl e)"
  "R s u \<Longrightarrow> rel_step R (Inr (s, r)) (Inr (u, r))"
  "(c \<Longrightarrow> rel_step R a a') \<Longrightarrow> (\<not> c \<Longrightarrow> rel_step R b b') \<Longrightarrow>
     rel_step R (if c then a else b) (if c then a' else b')"
  "rel_step R (f v) (f' v) \<Longrightarrow> rel_step R (let x = v in f x) (let x = v in f' x)"
  "rel_step R a a' \<Longrightarrow> (\<And>y. rel_step R (g y) (g' y)) \<Longrightarrow>
     rel_step R (case m of None \<Rightarrow> a | Some y \<Rightarrow> g y) (case m of None \<Rightarrow> a' | Some y \<Rightarrow> g' y)"
  "(\<And>x. rel_step R (h x) (h' x)) \<Longrightarrow> rel_step R (andThen n h) (andThen n h')"
  by (auto simp: rel_step_def split: option.splits) (cases n; auto)

lemma rel_get [rel_intros]:
  assumes "rel_Tx R T U" "R s u"
  shows
    "(\<And>e. rel_step R (f e) (f' e)) \<Longrightarrow> (\<And>x. rel_step R (g x) (g' x)) \<Longrightarrow>
     rel_step R (case GetSchedule T s t i of Inl e \<Rightarrow> f e | Inr x \<Rightarrow> g x)
       (case GetSchedule U u t i of Inl e \<Rightarrow> f' e | Inr x \<Rightarrow> g' x)"
    "(\<And>e. rel_step R (f e) (f' e)) \<Longrightarrow> (\<And>x. rel_step R (h x) (h' x)) \<Longrightarrow>
     rel_step R (case GetExecution T s t i of Inl e \<Rightarrow> f e | Inr x \<Rightarrow> h x)
       (case GetExecution U u t i of Inl e \<Rightarrow> f' e | Inr x \<Rightarrow> h' x)"
    "(\<And>e. rel_step R (f e) (f' e)) \<Longrightarrow> (\<And>x. rel_step R (k x) (k' x)) \<Longrightarrow>
     rel_step R (case GetTenant T s t of Inl e \<Rightarrow> f e | Inr x \<Rightarrow> k x)
       (case GetTenant U u t of Inl e \<Rightarrow> f' e | Inr x \<Rightarrow> k' x)"
    "(\<And>es err. rel_step R (l es err) (l' es err)) \<Longrightarrow>
     rel_step R (let (es, err) = ListExecutionsBySchedule T s t i in l es err)
       (let (es, err) = ListExecutionsBySchedule U u t i in l' es err)"
  using assms by (auto simp: rel_Tx_def Let_def split: sum.splits prod.splits)

lemma rel_case_sum:
  assumes "rel_sum (=) R m m'" "\<And>e. rel_step R (f e) (f' e)" "\<And>s1 u1. R s1 u1 \<Longrightarrow> rel_step R (g s1) (g' u1)"
  shows "rel_step R (case m of Inl e \<Rightarrow> f e | Inr s1 \<Rightarrow> g s1) (case m' of Inl e \<Rightarrow> f' e | Inr u1 \<Rightarrow> g' u1)"
  using assms by (cases m; cases m') auto

lemma rel_put [rel_intros]:
  assumes "rel_Tx R T U" "R s u"
  shows "rel_sum (=) R (PutSchedule T s x) (PutSchedule U u x)"
    "rel_sum (=) R (PutExecution T s e) (PutExecution U u e)"
    "rel_sum (=) R (PutAttempt T s a) (PutAttempt U u a)"
    "rel_sum (=) R (PutTenant T s n) (PutTenant U u n)"
  using assms unfolding rel_Tx_def by blast+

lemmas [rel_intros] = rel_case_sum [OF rel_put(1)] rel_case_sum [OF rel_put(2)]
  rel_case_sum [OF rel_put(3)] rel_case_sum [OF rel_put(4)]

lemma create_tenant_rel: "rel_Tx R T U \<Longrightarrow> R s u \<Longrightarrow> rel_step R (ApplyCreateTenant T s c now) (ApplyCreateTenant U u c now)"
  unfolding ApplyCreateTenant_def by (intro rel_intros | assumption)+

lemma create_schedule_rel: "rel_Tx R T U \<Longrightarrow> R s u \<Longrightarrow> rel_step R (ApplyCreateSchedule T P s c now) (ApplyCreateSchedule U P u c now)"
  unfolding ApplyCreateSchedule_def by (intro rel_intros | assumption)+

lemma claim_execution_rel: "rel_Tx R T U \<Longrightarrow> R s u \<Longrightarrow> rel_step R (ApplyClaimExecution T s c now) (ApplyClaimExecution U u c now)"
  unfolding ApplyClaimExecution_def by (intro rel_intros | assumption)+

lemma record_attempt_rel: "rel_Tx R T U \<Longrightarrow> R s u \<Longrightarrow> rel_step R (ApplyRecordAttempt T s c now) (ApplyRecordAttempt U u c now)"
  unfolding ApplyRecordAttempt_def by (intro rel_intros | assumption)+

lemma update_schedule_rel: "rel_Tx R T U \<Longrightarrow> R s u \<Longrightarrow> rel_step R (ApplyUpdateSchedule T s c now) (ApplyUpdateSchedule U u c now)"
  unfolding ApplyUpdateSchedule_def by (intro rel_intros | assumption)+

lemma pause_schedule_rel: "rel_Tx R T U \<Longrightarrow> R s u \<Longrightarrow> rel_step R (ApplyPauseSchedule T s c now) (ApplyPauseSchedule U u c now)"
  unfolding ApplyPauseSchedule_def by (intro rel_intros | assumption)+

lemma cancel_schedule_rel: "rel_Tx R T U \<Longrightarrow> R s u \<Longrightarrow> rel_step R (ApplyCancelSchedule T s c now) (ApplyCancelSchedule U u c now)"
  unfolding ApplyCancelSchedule_def by (intro rel_intros | assumption)+

lemma resume_next_run_rel: "rel_Tx R T U \<Longrightarrow> R s u \<Longrightarrow> resumeNextRun T P s x now = resumeNextRun U P u x now"
  unfolding resumeNextRun_def findMostRecentTerminalExecution_def by (simp add: rel_Tx_def)

lemma resume_schedule_rel: "rel_Tx R T U \<Longrightarrow> R s u \<Longrightarrow> rel_step R (ApplyResumeSchedule T P s c now) (ApplyResumeSchedule U P u c now)"
  unfolding ApplyResumeSchedule_def resume_next_run_rel by (intro rel_intros | assumption)+

lemma adopt_execution_rel: "rel_Tx R T U \<Longrightarrow> R s u \<Longrightarrow> rel_step R (ApplyAdoptExecution T s c now) (ApplyAdoptExecution U u c now)"
  unfolding ApplyAdoptExecution_def by (intro rel_intros | assumption)+

lemma complete_execution_rel: "rel_Tx R T U \<Longrightarrow> R s u \<Longrightarrow> rel_step R (ApplyCompleteExecution T P s c now) (ApplyCompleteExecution U P u c now)"
  unfolding ApplyCompleteExecution_def finishExecution_def by (intro rel_intros | assumption)+

lemma fail_execution_rel: "rel_Tx R T U \<Longrightarrow> R s u \<Longrightarrow> rel_step R (ApplyFailExecutionTimeout T P s c now) (ApplyFailExecutionTimeout U P u c now)"
  unfolding ApplyFailExecutionTimeout_def finishExecution_def by (intro rel_intros | assumption)+

lemmas handlers_rel = create_tenant_rel create_schedule_rel update_schedule_rel pause_schedule_rel
  cancel_schedule_rel resume_schedule_rel claim_execution_rel adopt_execution_rel record_attempt_rel
  complete_execution_rel fail_execution_rel

lemma withResult_rel: "rel_step R m m' \<Longrightarrow> rel_step R (withResult f m) (withResult f m')"
  by (auto simp: rel_step_def withResult_def elim!: rel_sum.cases)

theorem dispatch_rel:
  "rel_Tx R T U \<Longrightarrow> R s u \<Longrightarrow> rel_step R (Dispatch T P s cmd now) (Dispatch U P u cmd now)"
  by (cases cmd) (simp_all add: withResult_rel handlers_rel rel_structure)

section \<open>Stores with the same contents\<close>

definition reads_same :: "('b, row) bolt \<Rightarrow> 'b \<Rightarrow> 'b \<Rightarrow> bool" where
  "reads_same B s u \<longleftrightarrow> (\<forall>b k. bGet B s b k = bGet B u b k)"

text \<open>
  What bbolt documents of write errors inside a read-write transaction: \<open>Put\<close> fails on the
  key or the value alone, and \<open>Delete\<close> does not fail.
\<close>

locale replica_store = row_store B for B :: "('b, row) bolt" +
  assumes put_error: "bPut B s b k v = Inl err \<Longrightarrow> bPut B u b k v = Inl err"
    and delete_total: "\<exists>s'. bDelete B s b k = Inr s'"
begin

lemma put_same:
  assumes "reads_same B s u"
  shows "rel_sum (=) (reads_same B) (bPut B s b k v) (bPut B u b k v)"
proof (cases "bPut B s b k v")
  case (Inl err)
  with put_error have "bPut B u b k v = Inl err" by blast
  with Inl show ?thesis by simp
next
  case (Inr s')
  with put_error [of u b k v _ s] obtain u' where "bPut B u b k v = Inr u'"
    by (cases "bPut B u b k v") auto
  with Inr assms show ?thesis by (simp add: reads_same_def get_put)
qed

lemma delete_same:
  assumes "reads_same B s u"
  shows "rel_sum (=) (reads_same B) (bDelete B s b k) (bDelete B u b k)"
proof -
  obtain s' u' where "bDelete B s b k = Inr s'" "bDelete B u b k = Inr u'" using delete_total by meson
  with assms show ?thesis by (simp add: reads_same_def get_delete)
qed

lemma seek_same: "reads_same B s u \<Longrightarrow> bSeek B s b k = bSeek B u b k"
  using first_determined [of s b u b] by (simp add: seek_first reads_same_def)

lemma andThen_same:
  "rel_sum (=) R m m' \<Longrightarrow> (\<And>x y. R x y \<Longrightarrow> rel_sum (=) Q (f x) (f' y)) \<Longrightarrow>
   rel_sum (=) Q (andThen m f) (andThen m' f')"
  by (auto elim!: rel_sum.cases)

lemma andThen_fixed:
  "(\<And>x. rel_sum (=) Q (f x) (f' x)) \<Longrightarrow> rel_sum (=) Q (andThen m f) (andThen m f')"
  by (cases m) auto

lemma wrapErr_same: "rel_sum (=) R m m' \<Longrightarrow> rel_sum (=) R (wrapErr msg m) (wrapErr msg m')"
  by (auto elim!: rel_sum.cases)

lemma option_same:
  "rel_sum (=) R a a' \<Longrightarrow> (\<And>x. rel_sum (=) R (f x) (f' x)) \<Longrightarrow>
   rel_sum (=) R (case m of None \<Rightarrow> a | Some x \<Rightarrow> f x) (case m of None \<Rightarrow> a' | Some x \<Rightarrow> f' x)"
  by (cases m) auto

lemmas same_intros = andThen_same [OF wrapErr_same [OF put_same]]
  andThen_same [where R = "reads_same B", OF option_same] andThen_fixed
  wrapErr_same put_same delete_same rel_sum.intros

lemma gets_same:
  assumes "reads_same B s u"
  shows "boltGetSchedule B s = boltGetSchedule B u" "boltGetExecution B s = boltGetExecution B u"
    "boltGetAttempt B s = boltGetAttempt B u" "boltGetTenant B s = boltGetTenant B u"
  using assms
  by (simp_all add: fun_eq_iff boltGetSchedule_def boltGetExecution_def boltGetAttempt_def
      boltGetTenant_def getRow_def reads_same_def)

lemma puts_same:
  assumes "reads_same B s u"
  shows "rel_sum (=) (reads_same B) (boltPutSchedule B s x) (boltPutSchedule B u x)"
    "rel_sum (=) (reads_same B) (boltPutExecution B s e) (boltPutExecution B u e)"
    "rel_sum (=) (reads_same B) (boltPutAttempt B s a) (boltPutAttempt B u a)"
    "rel_sum (=) (reads_same B) (boltPutTenant B s n) (boltPutTenant B u n)"
  unfolding boltPutSchedule_def boltPutExecution_def boltPutAttempt_def boltPutTenant_def gets_same [OF assms]
  by (intro same_intros assms | assumption)+

lemma boltTx_rel: "rel_Tx (reads_same B) (boltTx B) (boltTx B)"
  by (auto simp: rel_Tx_def boltTx_def gets_same puts_same fun_eq_iff boltListExecutionsBySchedule_def
      scanIndex_def seek_same)

end

interpretation mem_replica: replica_store memBolt
  by unfold_locales (auto simp: memBolt_def memPut_def split: if_splits)

end
