(* ===== verification/DbInvariant.thy ===== *)
theory DbInvariant
  imports CommandSpec
begin

text \<open>
  The invariants of the abstract database, and that every step of \<open>CommandSpec\<close> keeps
  them: rows sit under their own keys, no two executions of a schedule share an instant,
  executions and schedules are in one of their well-formed states, and the attempts of
  an execution are numbered without gaps from one to its attempt count. Also what no
  step may change: finished executions, recorded attempts, the final states of schedules.
\<close>

section \<open>The invariants\<close>

definition rows_keyed :: "db \<Rightarrow> bool" where
  "rows_keyed d \<longleftrightarrow>
     (\<forall>t i x. dbSchedules d (t, i) = Some x \<longrightarrow> sTenantID x = t \<and> sID x = i) \<and>
     (\<forall>t i e. dbExecutions d (t, i) = Some e \<longrightarrow> eTenantID e = t \<and> eID e = i) \<and>
     (\<forall>t i a. dbAttempts d (t, i) = Some a \<longrightarrow> aTenantID a = t \<and> aID a = i)"

definition claims_unique :: "db \<Rightarrow> bool" where
  "claims_unique d \<longleftrightarrow>
     (\<forall>t i i' e e'. dbExecutions d (t, i) = Some e \<longrightarrow> dbExecutions d (t, i') = Some e' \<longrightarrow>
        eScheduleID e = eScheduleID e' \<longrightarrow> Equal (eScheduledFor e) (eScheduledFor e') \<longrightarrow> i = i')"

definition execution_ok :: "Execution \<Rightarrow> bool" where
  "execution_ok e \<longleftrightarrow>
     eID e \<noteq> [] \<and> \<not> IsZero (eScheduledFor e) \<and> eClaimedAt e \<noteq> None \<and>
     eIdempotencyKey e = DeriveIdempotencyKey (eScheduleID e) (eScheduledFor e) \<and>
     (if eStatus e = ExecutionStatusInFlight
      then eOwnerNodeID e \<noteq> [] \<and> eCompletedAt e = None \<and> eFinalOutcome e = []
      else IsTerminal (eStatus e) \<and> eOwnerNodeID e = [] \<and> eCompletedAt e \<noteq> None \<and> eFinalOutcome e \<noteq> [])"

definition schedule_ok :: "Schedule \<Rightarrow> bool" where
  "schedule_ok x \<longleftrightarrow>
     sStatus x \<in> {ScheduleStatusActive, ScheduleStatusPaused, ScheduleStatusCanceled, ScheduleStatusCompleted} \<and>
     (sStatus x \<noteq> ScheduleStatusActive \<longrightarrow> sNextRunAt x = None) \<and>
     (sStatus x = ScheduleStatusActive \<and> sScheduleType x = ScheduleTypeOnce \<longrightarrow>
        sNextRunAt x = Some (sFirstRunAt x)) \<and>
     (sStatus x = ScheduleStatusCompleted \<longrightarrow> sScheduleType x \<noteq> ScheduleTypeRecurring) \<and>
     in_bounds (sCallTimeout x) \<and> reservedIn (sHeaders x) = []"

text \<open>The attempts recorded for an execution, as a map from the attempt's ID.\<close>

definition attemptsFor :: "db \<Rightarrow> string \<Rightarrow> string \<Rightarrow> Attempt set" where
  "attemptsFor d t i = {a. \<exists>j. dbAttempts d (t, j) = Some a \<and> aExecutionID a = i}"

definition attempts_numbered :: "db \<Rightarrow> bool" where
  "attempts_numbered d \<longleftrightarrow>
     (\<forall>t i e. dbExecutions d (t, i) = Some e \<longrightarrow>
        0 \<le> eAttemptCount e \<and> bij_betw aAttemptNumber (attemptsFor d t i) {1..eAttemptCount e} \<and>
        (\<forall>a \<in> attemptsFor d t i. aAttemptNumber a = eAttemptCount e \<longrightarrow> aID a = eLastAttemptID e) \<and>
        (eAttemptCount e = 0 \<longrightarrow> eLastAttemptID e = [])) \<and>
     (\<forall>t j a. dbAttempts d (t, j) = Some a \<longrightarrow> dbExecutions d (t, aExecutionID a) \<noteq> None \<and> aID a \<noteq> [])"

definition db_inv :: "db \<Rightarrow> bool" where
  "db_inv d \<longleftrightarrow> rows_keyed d \<and> claims_unique d \<and> attempts_numbered d \<and>
     (\<forall>k e. dbExecutions d k = Some e \<longrightarrow> execution_ok e) \<and>
     (\<forall>k x. dbSchedules d k = Some x \<longrightarrow> schedule_ok x)"

definition emptyDb :: db where
  "emptyDb = \<lparr>dbSchedules = Map.empty, dbExecutions = Map.empty, dbAttempts = Map.empty, dbTenants = Map.empty\<rparr>"

lemma emptyDb_inv: "db_inv emptyDb"
  by (simp add: db_inv_def emptyDb_def rows_keyed_def claims_unique_def attempts_numbered_def)

section \<open>Each step keeps them\<close>

lemma status_distinct [simp]:
  "ScheduleStatusActive \<noteq> ScheduleStatusPaused" "ScheduleStatusActive \<noteq> ScheduleStatusCanceled"
  "ScheduleStatusActive \<noteq> ScheduleStatusCompleted" "ScheduleStatusPaused \<noteq> ScheduleStatusActive"
  "ScheduleStatusPaused \<noteq> ScheduleStatusCanceled" "ScheduleStatusPaused \<noteq> ScheduleStatusCompleted"
  "ScheduleStatusCanceled \<noteq> ScheduleStatusActive" "ScheduleStatusCanceled \<noteq> ScheduleStatusPaused"
  "ScheduleStatusCanceled \<noteq> ScheduleStatusCompleted" "ScheduleStatusCompleted \<noteq> ScheduleStatusActive"
  "ScheduleStatusCompleted \<noteq> ScheduleStatusPaused" "ScheduleStatusCompleted \<noteq> ScheduleStatusCanceled"
  "ScheduleTypeOnce \<noteq> ScheduleTypeRecurring" "ScheduleTypeRecurring \<noteq> ScheduleTypeOnce"
  by (simp_all add: schedule_status_defs schedule_type_defs)

lemma terminal_not_inflight: "IsTerminal st \<Longrightarrow> st \<noteq> ExecutionStatusInFlight"
  by (auto simp: IsTerminal_def execution_status_defs)

text \<open>What a step does to each table.\<close>

lemma step_rows_keyed:
  assumes "db_step P now c d r d'" "rows_keyed d"
  shows "rows_keyed d'"
  using assms
  by (induction rule: db_step.induct)
    (auto simp: rows_keyed_def claimedExecution_def recordedAttempt_def finished_def updated_static advanced_static)

lemma advanced_ok:
  assumes "advancedSchedule P msg e x = Inr y" "schedule_ok x"
  shows "schedule_ok y"
  using assms by (auto simp: advancedSchedule_def schedule_ok_def split: if_splits sum.splits failure.splits)

lemma updated_ok:
  assumes "updatedTimeout c (updatedFields c x) = Inr y" "schedule_ok x"
    "case usHeaders c of None \<Rightarrow> True | Some h \<Rightarrow> reservedIn h = []"
  shows "schedule_ok (y\<lparr>sUpdatedAt := now\<rparr>)"
  using assms(2,3) updated_static [OF assms(1)] by (auto simp: schedule_ok_def split: option.splits)

lemma step_schedule_ok:
  assumes "db_step P now c d r d'" "\<And>k x. dbSchedules d k = Some x \<Longrightarrow> schedule_ok x"
    "dbSchedules d' k = Some y"
  shows "schedule_ok y"
  using assms
proof (cases rule: db_step.cases)
  case (create_schedule x c)
  show ?thesis
  proof (cases "k = (sTenantID x, sID x)")
    case True
    with create_schedule assms(3) show ?thesis by (auto simp: schedule_ok_def split: if_splits)
  qed (use create_schedule assms in auto)
next
  case (update_schedule c x z)
  with assms show ?thesis using updated_ok [OF update_schedule(7)] by (auto split: if_splits)
next
  case (resume_schedule c x anchor nr z)
  then show ?thesis using assms(2) [OF resume_schedule(4)] assms(2) [of k] assms(3)
    by (auto simp: schedule_ok_def split: if_splits)
next
  case (complete_execution c e x msg z e')
  with assms show ?thesis using advanced_ok by (auto split: if_splits)
next
  case (fail_execution_timeout c e x msg z e')
  with assms show ?thesis using advanced_ok by (auto split: if_splits)
qed (auto simp: schedule_ok_def split: if_splits)

lemma execution_ok_rows:
  "clID c \<noteq> [] \<Longrightarrow> clOwnerNodeID c \<noteq> [] \<Longrightarrow> \<not> IsZero (clScheduledFor c) \<Longrightarrow> execution_ok (claimedExecution c now)"
  "execution_ok e \<Longrightarrow> eStatus e = ExecutionStatusInFlight \<Longrightarrow> n \<noteq> [] \<Longrightarrow> execution_ok (e\<lparr>eOwnerNodeID := n\<rparr>)"
  "execution_ok e \<Longrightarrow> execution_ok (e\<lparr>eAttemptCount := m, eLastAttemptID := l, eLastRetryAt := w\<rparr>)"
  "execution_ok e \<Longrightarrow> IsTerminal st \<Longrightarrow> out \<noteq> [] \<Longrightarrow> execution_ok (finished e st out now)"
  by (auto simp: execution_ok_def claimedExecution_def finished_def dest: terminal_not_inflight split: if_splits)

lemma step_execution_ok:
  assumes "db_step P now c d r d'" "\<And>k x. dbExecutions d k = Some x \<Longrightarrow> execution_ok x"
    "dbExecutions d' k = Some y"
  shows "execution_ok y"
  using assms
  by (cases rule: db_step.cases) (auto intro: execution_ok_rows simp: fun_upd_def split: if_splits)

lemma step_claims_unique:
  assumes "db_step P now c d r d'" "claims_unique d" "rows_keyed d"
  shows "claims_unique d'"
  using assms
proof (cases rule: db_step.cases)
  case (claim_execution c e)
  then show ?thesis using assms(2)
    by (auto simp: claims_unique_def claimedExecution_def executionsFor_def Equal_def)
qed (auto simp: claims_unique_def rows_keyed_def finished_def)

text \<open>The attempts are numbered as they are recorded; the other steps leave them alone.\<close>

lemma attemptsFor_cong: "dbAttempts d' = dbAttempts d \<Longrightarrow> attemptsFor d' = attemptsFor d"
  by (simp add: attemptsFor_def fun_eq_iff)

lemma attemptsFor_record:
  assumes "dbAttempts d (aTenantID a, aID a) = None"
  shows "attemptsFor (setAttempt d a) t i =
    (if t = aTenantID a \<and> i = aExecutionID a then insert a (attemptsFor d t i) else attemptsFor d t i)"
proof -
  have "dbAttempts (setAttempt d a) (t, j) = Some x \<longleftrightarrow>
      dbAttempts d (t, j) = Some x \<or> (t = aTenantID a \<and> j = aID a \<and> x = a)" for j x
    using assms by auto
  then show ?thesis unfolding attemptsFor_def by auto
qed

definition numbered :: "Attempt set \<Rightarrow> Execution \<Rightarrow> bool" where
  "numbered A e \<longleftrightarrow> 0 \<le> eAttemptCount e \<and> bij_betw aAttemptNumber A {1..eAttemptCount e} \<and>
     (\<forall>a \<in> A. aAttemptNumber a = eAttemptCount e \<longrightarrow> aID a = eLastAttemptID e) \<and>
     (eAttemptCount e = 0 \<longrightarrow> eLastAttemptID e = [])"

lemma attempts_numbered_alt:
  "attempts_numbered d \<longleftrightarrow>
     (\<forall>t i e. dbExecutions d (t, i) = Some e \<longrightarrow> numbered (attemptsFor d t i) e) \<and>
     (\<forall>t j a. dbAttempts d (t, j) = Some a \<longrightarrow> dbExecutions d (t, aExecutionID a) \<noteq> None \<and> aID a \<noteq> [])"
  by (simp add: attempts_numbered_def numbered_def)

lemma numbered_record:
  assumes "numbered A e" "aAttemptNumber a = eAttemptCount e + 1" "aID a = l"
  shows "numbered (insert a A) (e\<lparr>eAttemptCount := eAttemptCount e + 1, eLastAttemptID := l, eLastRetryAt := w\<rparr>)"
proof -
  from assms have b: "bij_betw aAttemptNumber A {1..eAttemptCount e}" and n: "0 \<le> eAttemptCount e"
    by (simp_all add: numbered_def)
  then have small: "x \<in> A \<Longrightarrow> aAttemptNumber x \<le> eAttemptCount e" for x
    by (auto simp: bij_betw_def)
  with assms(2) have "a \<notin> A" by fastforce
  with b assms(2) n have "bij_betw aAttemptNumber (insert a A) {1..eAttemptCount e + 1}"
    using notIn_Un_bij_betw [of a A aAttemptNumber "{1..eAttemptCount e}"]
      atLeastAtMostPlus1_int_conv [of 1 "eAttemptCount e"] by (simp add: add.commute)
  with n small assms(2,3) show ?thesis by (force simp: numbered_def)
qed

lemma numbered_cong:
  "eAttemptCount e' = eAttemptCount e \<Longrightarrow> eLastAttemptID e' = eLastAttemptID e \<Longrightarrow> numbered A e \<Longrightarrow> numbered A e'"
  by (simp add: numbered_def)

lemma numbered_set_execution:
  assumes "attempts_numbered d" "dbExecutions d (eTenantID e', eID e') = Some e"
    "eAttemptCount e' = eAttemptCount e" "eLastAttemptID e' = eLastAttemptID e"
  shows "attempts_numbered (setExecution d e')"
  using assms numbered_cong [OF assms(3,4)] attemptsFor_cong [of "setExecution d e'" d]
  by (auto simp: attempts_numbered_alt)

lemma numbered_set_other:
  "attempts_numbered d \<Longrightarrow> attempts_numbered (setSchedule d x)"
  "attempts_numbered d \<Longrightarrow> attempts_numbered (setTenant d n)"
  using attemptsFor_cong [of "setSchedule d x" d] attemptsFor_cong [of "setTenant d n" d]
  by (auto simp: attempts_numbered_alt)

lemma numbered_claim:
  assumes "attempts_numbered d" "dbExecutions d (clTenantID c, clID c) = None"
  shows "attempts_numbered (setExecution d (claimedExecution c now))"
proof -
  from assms have "attemptsFor d (clTenantID c) (clID c) = {}"
    by (fastforce simp: attempts_numbered_alt attemptsFor_def)
  then have "numbered (attemptsFor d (clTenantID c) (clID c)) (claimedExecution c now)"
    by (simp add: numbered_def claimedExecution_def bij_betw_def)
  with assms(1) attemptsFor_cong [of "setExecution d (claimedExecution c now)" d] show ?thesis
    by (auto simp: attempts_numbered_alt claimedExecution_def)
qed

lemma numbered_record_attempt:
  assumes "attempts_numbered d" "rows_keyed d" "dbExecutions d (raTenantID c, raExecutionID c) = Some e"
    "dbAttempts d (raTenantID c, raID c) = None" "raID c \<noteq> []"
  shows "attempts_numbered (setExecution (setAttempt d (recordedAttempt c e))
    (e\<lparr>eAttemptCount := eAttemptCount e + 1, eLastAttemptID := raID c, eLastRetryAt := raRetryAt c\<rparr>))"
    (is "attempts_numbered (setExecution (setAttempt d ?a) ?e)")
proof -
  from assms(2,3) have k: "eTenantID e = raTenantID c" "eID e = raExecutionID c"
    by (auto simp: rows_keyed_def)
  have a: "aTenantID ?a = raTenantID c" "aID ?a = raID c" "aExecutionID ?a = raExecutionID c"
    "aAttemptNumber ?a = eAttemptCount e + 1" by (simp_all add: recordedAttempt_def)
  have f: "attemptsFor (setExecution (setAttempt d ?a) ?e) = attemptsFor (setAttempt d ?a)"
    by (rule attemptsFor_cong) simp
  have "numbered (attemptsFor d (raTenantID c) (raExecutionID c)) e"
    using assms(1,3) by (simp add: attempts_numbered_alt)
  from numbered_record [OF this a(4,2)] assms(1,3-5) k a f
  show ?thesis by (auto simp: attempts_numbered_alt attemptsFor_record split: if_splits)
qed

lemma step_attempts_numbered:
  assumes "db_step P now c d r d'" "attempts_numbered d" "rows_keyed d" "fresh_ids d c"
  shows "attempts_numbered d'"
  using assms
proof (cases rule: db_step.cases)
  case (complete_execution c e x msg z e')
  with assms show ?thesis
    by (auto intro!: numbered_set_other numbered_set_execution [where e = e] simp: finished_def rows_keyed_def)
next
  case (fail_execution_timeout c e x msg z e')
  with assms show ?thesis
    by (auto intro!: numbered_set_other numbered_set_execution [where e = e] simp: finished_def rows_keyed_def)
next
  case (adopt_execution c e e')
  with assms show ?thesis by (auto intro!: numbered_set_execution [where e = e] simp: rows_keyed_def)
qed (simp_all add: numbered_set_other numbered_claim numbered_record_attempt)

theorem step_inv:
  assumes "db_step P now c d r d'" "fresh_ids d c" "db_inv d"
  shows "db_inv d'"
  using assms step_rows_keyed step_claims_unique step_attempts_numbered step_execution_ok step_schedule_ok
  unfolding db_inv_def by metis

section \<open>What no step changes\<close>

text \<open>
  A step never removes a row, never touches a finished execution or a recorded attempt,
  never changes what an execution is for, and never reactivates a canceled or completed
  schedule.
\<close>

definition execution_evolves :: "Execution \<Rightarrow> Execution \<Rightarrow> bool" where
  "execution_evolves e e' \<longleftrightarrow>
     eScheduleID e' = eScheduleID e \<and> eScheduledFor e' = eScheduledFor e \<and>
     eIdempotencyKey e' = eIdempotencyKey e \<and> eClaimedAt e' = eClaimedAt e \<and>
     eAttemptCount e \<le> eAttemptCount e' \<and> (IsTerminal (eStatus e) \<longrightarrow> e' = e)"

definition schedule_evolves :: "Schedule \<Rightarrow> Schedule \<Rightarrow> bool" where
  "schedule_evolves x x' \<longleftrightarrow>
     sScheduleType x' = sScheduleType x \<and> sRecurrence x' = sRecurrence x \<and> sFirstRunAt x' = sFirstRunAt x \<and>
     sCreatedAt x' = sCreatedAt x \<and> sTimezone x' = sTimezone x \<and> sCatchUpPolicy x' = sCatchUpPolicy x \<and>
     (sStatus x \<in> {ScheduleStatusCanceled, ScheduleStatusCompleted} \<longrightarrow>
        sStatus x' \<in> {sStatus x, ScheduleStatusCompleted})"

definition db_evolves :: "db \<Rightarrow> db \<Rightarrow> bool" where
  "db_evolves d d' \<longleftrightarrow>
     (\<forall>k e. dbExecutions d k = Some e \<longrightarrow> (\<exists>e'. dbExecutions d' k = Some e' \<and> execution_evolves e e')) \<and>
     (\<forall>k x. dbSchedules d k = Some x \<longrightarrow> (\<exists>x'. dbSchedules d' k = Some x' \<and> schedule_evolves x x')) \<and>
     (\<forall>k a. dbAttempts d k = Some a \<longrightarrow> dbAttempts d' k = Some a) \<and>
     (\<forall>k n. dbTenants d k = Some n \<longrightarrow> dbTenants d' k = Some n)"

lemma evolves_refl [simp]: "execution_evolves e e" "schedule_evolves x x" "db_evolves d d"
  by (auto simp: execution_evolves_def schedule_evolves_def db_evolves_def)

lemma execution_evolves_trans:
  "execution_evolves a b \<Longrightarrow> execution_evolves b c \<Longrightarrow> execution_evolves a c"
  by (auto simp: execution_evolves_def)

lemma schedule_evolves_trans:
  "schedule_evolves a b \<Longrightarrow> schedule_evolves b c \<Longrightarrow> schedule_evolves a c"
  unfolding schedule_evolves_def by (metis insert_iff)

lemma evolves_trans: "db_evolves a b \<Longrightarrow> db_evolves b c \<Longrightarrow> db_evolves a c"
  unfolding db_evolves_def using execution_evolves_trans schedule_evolves_trans by meson

lemma evolves_set_schedule:
  assumes "db_evolves d0 d" "dbSchedules d (sTenantID y, sID y) = Some x" "schedule_evolves x y"
  shows "db_evolves d0 (setSchedule d y)"
  using assms(1)
proof (rule evolves_trans)
  show "db_evolves d (setSchedule d y)" using assms by (auto simp: db_evolves_def)
qed

lemma evolves_set_execution:
  assumes "db_evolves d0 d" "dbExecutions d (eTenantID e', eID e') = Some e" "execution_evolves e e'"
  shows "db_evolves d0 (setExecution d e')"
  using assms(1)
proof (rule evolves_trans)
  show "db_evolves d (setExecution d e')" using assms by (auto simp: db_evolves_def)
qed

lemma evolves_new_rows:
  "dbTenants d (tnID n) = None \<Longrightarrow> db_evolves d (setTenant d n)"
  "dbSchedules d (sTenantID x, sID x) = None \<Longrightarrow> db_evolves d (setSchedule d x)"
  "dbExecutions d (eTenantID e, eID e) = None \<Longrightarrow> db_evolves d (setExecution d e)"
  "dbAttempts d (aTenantID a, aID a) = None \<Longrightarrow> db_evolves d (setAttempt d a)"
  by (auto simp: db_evolves_def)

lemma updated_evolves:
  "updatedTimeout c (updatedFields c x) = Inr y \<Longrightarrow> schedule_evolves x (y\<lparr>sUpdatedAt := now\<rparr>)"
  using updated_static [of c x y] by (auto simp: schedule_evolves_def)

lemma advanced_evolves: "advancedSchedule P msg e x = Inr y \<Longrightarrow> schedule_evolves x y"
  by (auto simp: schedule_evolves_def advancedSchedule_def split: if_splits sum.splits failure.splits)

theorem step_evolves:
  assumes "db_step P now c d r d'" "fresh_ids d c" "rows_keyed d"
  shows "db_evolves d d'"
  using assms
proof (cases rule: db_step.cases)
  case (update_schedule c x y)
  with assms show ?thesis
    using updated_evolves [OF update_schedule(7)] updated_static(1,2) [OF update_schedule(7)]
    by (auto simp: rows_keyed_def intro!: evolves_set_schedule [where x = x])
next
  case (complete_execution c e x msg y e')
  with assms advanced_static(1,2) [OF complete_execution(9)] advanced_evolves [OF complete_execution(9)] show ?thesis
    by (auto simp: finished_def execution_evolves_def rows_keyed_def
        intro!: evolves_set_schedule [where x = x] evolves_set_execution [where e = e])
next
  case (fail_execution_timeout c e x msg y e')
  with assms advanced_static(1,2) [OF fail_execution_timeout(8)] advanced_evolves [OF fail_execution_timeout(8)]
  show ?thesis
    by (auto simp: finished_def execution_evolves_def rows_keyed_def
        intro!: evolves_set_schedule [where x = x] evolves_set_execution [where e = e])
next
  case (record_attempt c e a e')
  with assms show ?thesis
    by (auto simp: execution_evolves_def rows_keyed_def recordedAttempt_def
        intro!: evolves_set_execution [where e = e] evolves_new_rows)
next
  case (pause_schedule c x y)
  with assms show ?thesis
    by (auto simp: rows_keyed_def schedule_evolves_def intro!: evolves_set_schedule [where x = x])
next
  case (cancel_schedule c x y)
  with assms show ?thesis
    by (auto simp: rows_keyed_def schedule_evolves_def intro!: evolves_set_schedule [where x = x])
next
  case (resume_schedule c x anchor nr y)
  with assms show ?thesis
    by (auto simp: rows_keyed_def schedule_evolves_def intro!: evolves_set_schedule [where x = x])
next
  case (adopt_execution c e e')
  with assms show ?thesis
    by (auto simp: rows_keyed_def execution_evolves_def intro!: evolves_set_execution [where e = e])
qed (simp_all add: evolves_new_rows claimedExecution_def)

end
