(* ===== verification/StateMachine.thy ===== *)
theory StateMachine
  imports Replication DbInvariant
begin

text \<open>
  The Raft state machine of \<open>internal/statemachine/statemachine.go\<close>: \<open>Apply\<close> of a log entry
  in one storage transaction, snapshots and their restoration. \<open>reachable\<close> are the stores a
  replica can hold: an empty one, then entries applied and snapshots of such stores
  restored. The lemmas carry the invariants of the abstract database to every reachable
  store and show that replicas agree.
\<close>

section \<open>The model\<close>

text \<open>
  What \<open>Apply\<close> hands back to Raft: the result, the command error, or nothing because the
  process panicked. The log entry arrives as the outcome of decoding its bytes.
\<close>

datatype ApplyResponse = Applied Result | Refused CommandError | Panicked string

definition Apply ::
  "('b, row) bolt \<Rightarrow> platform \<Rightarrow> 'b \<Rightarrow> LogEntry fallible \<Rightarrow> 'b \<times> ApplyResponse" where
  "Apply B P s logData =
     (case logData of
        Inl err \<Rightarrow> (s, Panicked err)
      | Inr envelope \<Rightarrow>
          (let (s', res) = storageUpdate B s
                 (\<lambda>tx. Dispatch (boltTx B) P tx (lePayload envelope) (leProposedAt envelope))
           in (s', case res of
                     Inl (Rejected cmdErr) \<Rightarrow> Refused cmdErr
                   | Inl (Error err) \<Rightarrow> Panicked err
                   | Inl (Panic p) \<Rightarrow> Panicked p
                   | Inr r \<Rightarrow> Applied r)))"

fun panicked :: "ApplyResponse \<Rightarrow> bool" where
  "panicked (Panicked _) \<longleftrightarrow> True"
| "panicked _ \<longleftrightarrow> False"

text \<open>
  The database file operations snapshots use: a read-only transaction, the image it
  writes, closing a database, the three steps that overwrite its file and opening it.
\<close>

record ('b, 'img) dbfile =
  fBegin :: "'b \<Rightarrow> 'b fallible"
  fWriteTo :: "'b \<Rightarrow> 'img fallible"
  fClose :: "'b \<Rightarrow> unit fallible"
  fCreate :: "unit fallible"
  fCopy :: "'img \<Rightarrow> unit fallible"
  fCloseFile :: "unit fallible"
  fOpen :: "'img \<Rightarrow> 'b fallible"

text \<open>
  The state machine holds the database object its storage wraps. Objects are told apart by
  a handle: the first one opened has handle 0 and every later one the next number.
\<close>

record 'b StateMachine =
  smDB :: 'b
  smHandle :: nat
  smOpen :: bool

text \<open>A transaction on a database object that was closed fails with bbolt's error.\<close>

definition ErrDatabaseNotOpen :: goerror where
  "ErrDatabaseNotOpen = ''database not open''"

definition Snapshot :: "('b, 'img) dbfile \<Rightarrow> 'b StateMachine \<Rightarrow> 'b fallible" where
  "Snapshot F sm = (if smOpen sm then fBegin F (smDB sm) else Inl ErrDatabaseNotOpen)"

text \<open>\<open>Persist\<close> yields the image the sink keeps; a failed write cancels the sink.\<close>

definition Persist :: "('b, 'img) dbfile \<Rightarrow> ('img \<Rightarrow> unit fallible) \<Rightarrow> 'b \<Rightarrow> 'img fallible" where
  "Persist F sinkClose tx =
     andThen (fWriteTo F tx) (\<lambda>img. andThen (sinkClose img) (\<lambda>_. Inr img))"

definition Restore :: "('b, 'img) dbfile \<Rightarrow> 'b StateMachine \<Rightarrow> 'img \<Rightarrow> 'b StateMachine \<times> goerror option" where
  "Restore F sm rc =
     (case fClose F (smDB sm) of
        Inl err \<Rightarrow> (sm, Some err)
      | Inr _ \<Rightarrow>
          (case andThen (fCreate F) (\<lambda>_. andThen (fCopy F rc) (\<lambda>_. andThen (fCloseFile F) (\<lambda>_. fOpen F rc))) of
             Inl err \<Rightarrow> (sm\<lparr>smOpen := False\<rparr>, Some err)
           | Inr newDB \<Rightarrow> (\<lparr>smDB = newDB, smHandle = Suc (smHandle sm), smOpen = True\<rparr>, None)))"

text \<open>\<open>Shutdown\<close> closes the storage; closing it a second time is the same as closing it once.\<close>

definition stateMachineShutdown :: "('b, 'img) dbfile \<Rightarrow> 'b StateMachine \<Rightarrow> 'b StateMachine \<times> goerror option" where
  "stateMachineShutdown F sm =
     (if smOpen sm then
        case fClose F (smDB sm) of Inl err \<Rightarrow> (sm, Some err) | Inr _ \<Rightarrow> (sm\<lparr>smOpen := False\<rparr>, None)
      else (sm, None))"

text \<open>Replaying a log: entries applied in order until one panics.\<close>

fun replay :: "('b, row) bolt \<Rightarrow> platform \<Rightarrow> 'b \<Rightarrow> LogEntry list \<Rightarrow> 'b \<times> ApplyResponse list" where
  "replay B P s [] = (s, [])"
| "replay B P s (e # es) =
     (let (s1, r) = Apply B P s (Inr e)
      in if panicked r then (s1, [r])
         else let (s2, rs) = replay B P s1 es in (s2, r # rs))"

lemma shutdown_refuses_snapshots:
  "stateMachineShutdown F sm = (sm', None) \<Longrightarrow> Snapshot F sm' = Inl ErrDatabaseNotOpen"
  by (auto simp: stateMachineShutdown_def Snapshot_def split: if_splits sum.splits)

section \<open>Reachable stores\<close>

definition empty_store :: "('b, row) bolt \<Rightarrow> 'b \<Rightarrow> bool" where
  "empty_store B s \<longleftrightarrow> (\<forall>b k. bGet B s b k = None)"

definition admissible :: "db \<Rightarrow> Command \<Rightarrow> bool" where
  "admissible d cmd \<longleftrightarrow> ids_ok cmd \<and> fresh_ids d cmd"

inductive reachable :: "('b, row) bolt \<Rightarrow> platform \<Rightarrow> 'b \<Rightarrow> bool" for B P where
  initial: "empty_store B s \<Longrightarrow> reachable B P s"
| applied: "reachable B P s \<Longrightarrow> admissible (store_view B s) (lePayload e) \<Longrightarrow>
    reachable B P (fst (Apply B P s (Inr e)))"
| restored: "reachable B P s \<Longrightarrow> reads_same B s s' \<Longrightarrow> reachable B P s'"

text \<open>Every entry of a log is admissible when its turn comes.\<close>

fun admissible_log :: "('b, row) bolt \<Rightarrow> platform \<Rightarrow> 'b \<Rightarrow> LogEntry list \<Rightarrow> bool" where
  "admissible_log B P s [] \<longleftrightarrow> True"
| "admissible_log B P s (e # es) \<longleftrightarrow>
     admissible (store_view B s) (lePayload e) \<and> admissible_log B P (fst (Apply B P s (Inr e))) es"

context row_store
begin

lemma same_store:
  assumes "reads_same B s u"
  shows "store_view B s = store_view B u" "store_inv B s \<longleftrightarrow> store_inv B u"
proof -
  from assms have eq: "bGet B s = bGet B u" by (simp add: reads_same_def fun_eq_iff)
  show "store_view B s = store_view B u" "store_inv B s \<longleftrightarrow> store_inv B u"
    by (simp_all only: store_view_def store_inv_def store_inv_defs index_ok_def
        schedules_of_def executions_of_def attempts_of_def eq)
qed

lemma empty_store_ok:
  assumes "empty_store B s"
  shows "store_inv B s" "store_view B s = emptyDb"
  using assms
  by (auto simp: empty_store_def store_view_def emptyDb_def store_inv_def store_inv_defs index_ok_def
      schedules_of_def executions_of_def attempts_of_def fun_eq_iff)

text \<open>An applied entry takes an abstract step; a refused one and a panic change nothing.\<close>

lemma commit_same: "bCommit B s = Inr s' \<Longrightarrow> reads_same B s s'"
  by (simp add: reads_same_def get_commit)

lemma apply_cases:
  assumes "store_inv B s" "admissible (store_view B s) (lePayload e)" "Apply B P s (Inr e) = (s', resp)"
  obtains (applied) r where "resp = Applied r" "store_inv B s'"
      "db_step P (leProposedAt e) (lePayload e) (store_view B s) r (store_view B s')"
  | (unchanged) "s' = s" "\<And>r. resp \<noteq> Applied r"
proof -
  let ?d = "Dispatch (boltTx B) P s (lePayload e) (leProposedAt e)"
  have un: thesis if "s' = s" "\<And>r. resp \<noteq> Applied r" using unchanged that by blast
  show thesis
  proof (cases ?d)
    case (Inl f)
    then show thesis using assms(3) un
      by (cases f) (auto simp: Apply_def storageUpdate_def)
  next
    case (Inr sr)
    then obtain s1 r where d: "?d = Inr (s1, r)" by (cases sr) auto
    from assms(1,2) tx.dispatch_step [OF _ _ _ d]
    have s1: "store_inv B s1" "db_step P (leProposedAt e) (lePayload e) (store_view B s) r (store_view B s1)"
      by (auto simp: admissible_def)
    show thesis
    proof (cases "bCommit B s1")
      case (Inl err)
      then show thesis using assms(3) un d by (auto simp: Apply_def storageUpdate_def)
    next
      case (Inr s2)
      then have "s' = s2" "resp = Applied r" using assms(3) d by (auto simp: Apply_def storageUpdate_def)
      with s1 same_store [OF commit_same [OF Inr]] applied show thesis by simp
    qed
  qed
qed

theorem reachable_inv:
  assumes "reachable B P s"
  shows "store_inv B s \<and> db_inv (store_view B s)"
  using assms
proof (induction rule: reachable.induct)
  case (initial s)
  then show ?case using empty_store_ok emptyDb_inv by simp
next
  case (applied s e)
  obtain s' resp where a: "Apply B P s (Inr e) = (s', resp)" by fastforce
  from applied.IH have i: "store_inv B s" "db_inv (store_view B s)" by blast+
  from i(1) applied.hyps(2) a show ?case
  proof (cases rule: apply_cases)
    case (applied r)
    with i(2) \<open>admissible (store_view B s) (lePayload e)\<close> a show ?thesis
      by (auto simp: admissible_def intro: step_inv)
  qed (use i a in auto)
next
  case (restored s s')
  then show ?case using same_store by metis
qed

theorem apply_evolves:
  assumes "reachable B P s" "admissible (store_view B s) (lePayload e)"
  shows "db_evolves (store_view B s) (store_view B (fst (Apply B P s (Inr e))))"
proof -
  obtain s' resp where a: "Apply B P s (Inr e) = (s', resp)" by fastforce
  from reachable_inv [OF assms(1)] have i: "store_inv B s" "db_inv (store_view B s)" by blast+
  from i(1) assms(2) a show ?thesis
  proof (cases rule: apply_cases)
    case (applied r)
    with i(2) assms(2) a show ?thesis by (auto simp: admissible_def db_inv_def intro: step_evolves)
  qed (use a in auto)
qed

lemma replay_reachable:
  assumes "reachable B P s" "admissible_log B P s es"
  shows "reachable B P (fst (replay B P s es)) \<and> db_evolves (store_view B s) (store_view B (fst (replay B P s es)))"
  using assms
proof (induction es arbitrary: s)
  case (Cons e es)
  obtain s1 r where a: "Apply B P s (Inr e) = (s1, r)" by fastforce
  with Cons.prems have s1: "reachable B P s1" "db_evolves (store_view B s) (store_view B s1)"
    using reachable.applied [of B P s e] apply_evolves [of P s e] by auto
  obtain s2 rs where r: "replay B P s1 es = (s2, rs)" by fastforce
  with Cons.IH [of s1] Cons.prems s1 a show ?case by (auto intro: evolves_trans)
qed simp

end

section \<open>Replicas agree\<close>

context replica_store
begin

theorem apply_same:
  assumes "reads_same B s u" "Apply B P s (Inr e) = (s', r)" "Apply B P u (Inr e) = (u', q)"
    "\<not> panicked r" "\<not> panicked q"
  shows "r = q \<and> reads_same B s' u'"
proof -
  note d = dispatch_rel [where T = "boltTx B" and U = "boltTx B", OF boltTx_rel assms(1),
      of P "lePayload e" "leProposedAt e", unfolded rel_step_def]
  from d show ?thesis
  proof (cases rule: rel_sum.cases)
    case (1 a c)
    with assms show ?thesis by (auto simp: Apply_def storageUpdate_def split: failure.splits)
  next
    case (2 b d)
    then obtain s1 u1 x where x: "b = (s1, x)" "d = (u1, x)" "reads_same B s1 u1" by (cases b; cases d) auto
    with 2 assms(2-) obtain s2 u2 where c: "bCommit B s1 = Inr s2" "bCommit B u1 = Inr u2"
      "s' = s2" "u' = u2" "r = q"
      by (auto simp: Apply_def storageUpdate_def split: sum.splits)
    with x(3) commit_same show ?thesis unfolding reads_same_def by metis
  qed
qed

theorem replay_same:
  assumes "reads_same B s u" "replay B P s es = (s', rs)" "replay B P u es = (u', qs)"
    "\<not> (\<exists>r \<in> set rs. panicked r)" "\<not> (\<exists>q \<in> set qs. panicked q)"
  shows "rs = qs \<and> reads_same B s' u'"
  using assms
proof (induction es arbitrary: s u s' u' rs qs)
  case (Cons e es)
  obtain s1 r u1 q where a: "Apply B P s (Inr e) = (s1, r)" "Apply B P u (Inr e) = (u1, q)" by fastforce
  obtain s2 rs' u2 qs' where b: "replay B P s1 es = (s2, rs')" "replay B P u1 es = (u2, qs')" by fastforce
  from Cons.prems(2-5) a b have p: "\<not> panicked r" "\<not> panicked q"
    and e: "s' = s2" "u' = u2" "rs = r # rs'" "qs = q # qs'"
    by (auto split: if_splits)
  from apply_same [OF Cons.prems(1) a p] Cons.IH [OF _ b] Cons.prems(4,5) e show ?case by auto
qed simp

end

section \<open>Snapshots\<close>

text \<open>
  What snapshots rely on from the database file: a read-only transaction reads what the
  database holds, and opening the image it wrote gives back a database that reads the same.
\<close>

locale snapshot_store = replica_store B for B :: "('b, row) bolt" +
  fixes F :: "('b, 'img) dbfile"
  assumes begin_reads: "fBegin F s = Inr tx \<Longrightarrow> reads_same B s tx"
    and open_image: "fWriteTo F tx = Inr img \<Longrightarrow> fOpen F img = Inr s' \<Longrightarrow> reads_same B tx s'"
begin

theorem restore_snapshot:
  assumes "Snapshot F sm = Inr tx" "Persist F sink tx = Inr img" "Restore F sm' img = (sm'', None)"
  shows "reads_same B (smDB sm) (smDB sm'') \<and> smOpen sm''"
proof -
  from assms(1,2) have w: "fBegin F (smDB sm) = Inr tx" "fWriteTo F tx = Inr img"
    by (auto simp: Snapshot_def Persist_def split: if_splits)
  from assms(3) obtain s' where "fOpen F img = Inr s'" "sm'' = \<lparr>smDB = s', smHandle = Suc (smHandle sm'), smOpen = True\<rparr>"
    by (auto simp: Restore_def split: sum.splits)
  with begin_reads [OF w(1)] open_image [OF w(2)] show ?thesis by (auto simp: reads_same_def)
qed

theorem restore_then_replay:
  assumes "Snapshot F sm = Inr tx" "Persist F sink tx = Inr img" "Restore F sm' img = (sm'', None)"
    and "replay B P (smDB sm) es = (s', rs)" "replay B P (smDB sm'') es = (u', qs)"
    and "\<not> (\<exists>r \<in> set rs. panicked r)" "\<not> (\<exists>q \<in> set qs. panicked q)"
  shows "rs = qs \<and> store_view B s' = store_view B u'"
  using replay_same [OF _ assms(4-7)] restore_snapshot [OF assms(1-3)] same_store(1) by blast

end

text \<open>The reference store is its own image.\<close>

definition memFile :: "('v mem, 'v mem) dbfile" where
  "memFile = \<lparr>fBegin = Inr, fWriteTo = Inr, fClose = (\<lambda>_. Inr ()), fCreate = Inr (), fCopy = (\<lambda>_. Inr ()),
     fCloseFile = Inr (), fOpen = Inr\<rparr>"

interpretation mem_snapshot: snapshot_store memBolt memFile
  by unfold_locales (auto simp: memFile_def reads_same_def)

end
