(* ===== verification/CommandErrors.thy ===== *)
theory CommandErrors
  imports StateMachine
begin

text \<open>
  The refusals that keep the system safe when nodes race: a second claim of an instant, an
  attempt recorded by a node that lost the execution, an adoption from a stale owner, and
  the completion of a finished execution. Each is refused with a conflict and leaves the
  store as it was.
\<close>

context tx_spec
begin

lemma claim_refused:
  assumes "inv s" "no_colon (clTenantID c)" "no_colon (clScheduleID c)"
    and c: "clTenantID c \<noteq> []" "clScheduleID c \<noteq> []" "clID c \<noteq> []" "\<not> IsZero (clScheduledFor c)" "clOwnerNodeID c \<noteq> []"
    and e: "dbExecutions (view s) (clTenantID c, i) = Some e" "eScheduleID e = clScheduleID c"
      "Equal (eScheduledFor e) (clScheduledFor c)"
    and only: "\<And>i' e'. dbExecutions (view s) (clTenantID c, i') = Some e' \<Longrightarrow> eScheduleID e' = clScheduleID c \<Longrightarrow>
      Equal (eScheduledFor e') (clScheduledFor c) \<Longrightarrow> i' = i"
  shows "ApplyClaimExecution T s c now = Inl (Rejected \<lparr>ceKind = KindConflict,
    ceMessage = ''an execution already exists for this schedule at scheduled_for'', ceField = ''scheduled_for'',
    ceDetails = [(''existing_execution_id'', i)]\<rparr>)"
proof -
  let ?same = "\<lambda>ex. Equal (eScheduledFor ex) (clScheduledFor c)"
  obtain es where es: "ListExecutionsBySchedule T s (clTenantID c) (clScheduleID c) = (es, None)"
    "set es = {e. \<exists>i. dbExecutions (view s) (clTenantID c, i) = Some e \<and> eScheduleID e = clScheduleID c}"
    using list_by_schedule [OF assms(1-3)] by (auto simp: lists_rows_def) (metis prod.collapse)
  have "e \<in> set es" using e es(2) by blast
  then obtain x where x: "find ?same es = Some x" using e(3) by (cases "find ?same es") (auto simp: find_None_iff)
  then have "x \<in> set es" "?same x" by (auto simp: find_Some_iff)
  with es(2) obtain i' where i': "dbExecutions (view s) (clTenantID c, i') = Some x" "eScheduleID x = clScheduleID c" by blast
  with only \<open>?same x\<close> have "i' = i" by blast
  with execution_rows [OF assms(1) i'(1)] have "eID x = i" by blast
  with es(1) x c show ?thesis by (simp add: ApplyClaimExecution_def)
qed

lemma record_refused:
  assumes "inv s" "no_colon (raTenantID c)" "dbExecutions (view s) (raTenantID c, raExecutionID c) = Some e"
    and "eStatus e \<noteq> ExecutionStatusInFlight \<or> eOwnerNodeID e \<noteq> raNodeID c"
  shows "\<exists>ce. ApplyRecordAttempt T s c now = Inl (Rejected ce) \<and> ceKind ce \<in> {KindConflict, KindValidation}"
  using assms get_execution [OF assms(1,2), of "raExecutionID c"]
  by (auto simp: ApplyRecordAttempt_def cmdError_def)

lemma adopt_refused:
  assumes "inv s" "no_colon (adTenantID c)" "dbExecutions (view s) (adTenantID c, adExecutionID c) = Some e"
    and "eStatus e \<noteq> ExecutionStatusInFlight \<or> eOwnerNodeID e \<noteq> adPreviousOwner c"
  shows "\<exists>ce. ApplyAdoptExecution T s c now = Inl (Rejected ce) \<and> ceKind ce \<in> {KindConflict, KindValidation}"
  using assms get_execution [OF assms(1,2), of "adExecutionID c"]
  by (auto simp: ApplyAdoptExecution_def cmdError_def)

lemma complete_refused:
  assumes "inv s" "no_colon (coTenantID c)" "dbExecutions (view s) (coTenantID c, coExecutionID c) = Some e"
    and "IsTerminal (eStatus e)"
  shows "\<exists>ce. ApplyCompleteExecution T P s c now = Inl (Rejected ce) \<and> ceKind ce \<in> {KindConflict, KindValidation}"
  using assms get_execution [OF assms(1,2), of "coExecutionID c"]
  by (auto simp: ApplyCompleteExecution_def cmdError_def)

lemma fail_refused:
  assumes "inv s" "no_colon (feTenantID c)" "dbExecutions (view s) (feTenantID c, feExecutionID c) = Some e"
    and "IsTerminal (eStatus e)"
  shows "\<exists>ce. ApplyFailExecutionTimeout T P s c now = Inl (Rejected ce) \<and> ceKind ce \<in> {KindConflict, KindValidation}"
  using assms get_execution [OF assms(1,2), of "feExecutionID c"]
  by (auto simp: ApplyFailExecutionTimeout_def cmdError_def)

end

lemma apply_refused:
  "Dispatch (boltTx B) P s (lePayload e) (leProposedAt e) = Inl (Rejected ce) \<Longrightarrow>
   Apply B P s (Inr e) = (s, Refused ce)"
  by (simp add: Apply_def storageUpdate_def)

lemma withResult_Inl [simp]: "withResult f (Inl x) = Inl x"
  by (simp add: withResult_def)

end
