(* ===== verification/RecurrenceCorrect.thy ===== *)
theory RecurrenceCorrect
  imports Recurrence
begin

text \<open>
  The recurrence arithmetic computes the slots it means to. Intervals: with whole-second
  distances inside the range of a \<open>Duration\<close> the float64 detour is exact. Calendar cadences:
  in a location with a fixed offset since UTC the daily, weekly and monthly functions find
  the nearest slot, and the bounded loop over months always finds one.
\<close>

section \<open>Interval slots\<close>

definition intervalSlotAt :: "Time \<Rightarrow> int \<Rightarrow> int \<Rightarrow> int" where
  "intervalSlotAt firstRunAt seconds j = tNanos firstRunAt + j * seconds * nanosPerSecond"

lemma Sub_whole:
  assumes "tNanos since - tNanos first = k * nanosPerSecond" "0 \<le> k" "k * nanosPerSecond < 2 ^ 63"
  shows "Sub since first = k * 1000000000"
  using assms by (simp add: Sub_def nanosPerSecond_def)

lemma truncQ_of_int [simp]: "truncQ (of_int n) = n"
  by (simp add: truncQ_def)

lemma intervalSlot_exact:
  assumes "0 \<le> j" "0 < n" "j * n * nanosPerSecond < 2 ^ 63"
  shows "tNanos (intervalSlot P first n (Finite (of_int j))) = intervalSlotAt first n j"
proof -
  have jn: "0 \<le> j * n" using assms by simp
  then have "j * n \<le> j * n * nanosPerSecond" by (simp add: nanosPerSecond_def)
  with assms(3) have jn': "j * n < 2 ^ 63" by linarith
  have "j \<le> j * n" using assms(1,2) by (simp add: mult_le_cancel_left1)
  with jn' have "f64_to_int (outOfRange P) (Finite (of_int j)) = j" using assms(1) by simp
  moreover have "wrap64 (j * n) = j * n" using jn jn' by (intro wrap64_id) simp_all
  moreover have "wrap64 (j * n * nanosPerSecond) = j * n * nanosPerSecond"
    using jn assms(3) by (intro wrap64_id) (simp_all add: nanosPerSecond_def)
  ultimately show ?thesis by (simp add: intervalSlot_def Let_def intervalSlotAt_def)
qed

text \<open>The distance in whole seconds and the interval, within the range of a \<open>Duration\<close>.\<close>

definition interval_range :: "Time \<Rightarrow> Time \<Rightarrow> int \<Rightarrow> int \<Rightarrow> bool" where
  "interval_range first since k n \<longleftrightarrow>
     tNanos since - tNanos first = k * nanosPerSecond \<and> 0 \<le> k \<and> 0 < n \<and> (k + n) * nanosPerSecond < 2 ^ 63"

lemma interval_rangeD:
  assumes "interval_range first since k n"
  shows "tNanos since - tNanos first = k * nanosPerSecond" "0 \<le> k" "0 < n" "k < 2 ^ 53" "n < 2 ^ 53"
    "k * nanosPerSecond < 2 ^ 63" "(k + n) * nanosPerSecond < 2 ^ 63"
  using assms by (simp_all add: interval_range_def nanosPerSecond_def)

lemma interval_quotient:
  assumes "interval_range first since k n"
  shows "fdiv (Seconds (Sub since first)) (f64_of_int n) = Finite (roundQ (of_int k / of_int n))"
proof -
  note r = interval_rangeD [OF assms]
  show ?thesis
    using Sub_whole [OF r(1,2,6)] Seconds_whole [OF r(2,4)] fdiv_whole [OF r(2,4,3,5)] by simp
qed

lemma interval_floor:
  assumes "interval_range first since k n"
  shows "ffloor (fdiv (Seconds (Sub since first)) (f64_of_int n)) = Finite (of_int (k div n))"
  unfolding interval_quotient [OF assms]
  using roundQ_quotient_floor [OF interval_rangeD(2,4,3,5) [OF assms]] by simp

lemma interval_ceil:
  assumes "interval_range first since k n"
  shows "fceil (fdiv (Seconds (Sub since first)) (f64_of_int n)) = Finite (of_int (- (- k div n)))"
  unfolding interval_quotient [OF assms]
  using roundQ_quotient_ceiling [OF interval_rangeD(2,4,3,5) [OF assms]] by simp

lemma div_slots:
  fixes k n :: int
  assumes "0 < n"
  shows "k div n * n \<le> k" "k < (k div n + 1) * n" "k \<le> - (- k div n) * n" "- (- k div n) * n < k + n"
proof -
  obtain q r where q: "k div n = q" "k mod n = r" by blast
  obtain q' r' where q': "- k div n = q'" "- k mod n = r'" by blast
  have "k = q * n + r" "0 \<le> r" "r < n" "- k = q' * n + r'" "0 \<le> r'" "r' < n"
    using assms div_mult_mod_eq [of k n] div_mult_mod_eq [of "- k" n] unfolding q [symmetric] q' [symmetric] by simp_all
  then show "k div n * n \<le> k" "k < (k div n + 1) * n" "k \<le> - (- k div n) * n" "- (- k div n) * n < k + n"
    unfolding q q' by (simp_all add: algebra_simps)
qed

lemma interval_succ:
  assumes "interval_range first since k n"
  shows "fadd (ffloor (fdiv (Seconds (Sub since first)) (f64_of_int n))) (Finite 1) = Finite (of_int (k div n + 1))"
proof -
  note r = interval_rangeD [OF assms]
  have "0 \<le> k div n" using r(2,3) by (simp add: pos_imp_zdiv_nonneg_iff)
  moreover from this r(3) have "k div n \<le> k div n * n" by (simp add: mult_le_cancel_left1)
  with div_slots(1) [OF r(3), of k] have "k div n \<le> k" by linarith
  ultimately have "\<bar>k div n + 1\<bar> < 2 ^ 53" using r(7,3) by (simp add: nanosPerSecond_def)
  from f64_of_int_exact [OF this] show ?thesis
    unfolding interval_floor [OF assms] by (simp add: f64_of_int_def)
qed

lemma interval_slot:
  assumes "interval_range first since k n" "0 \<le> j" "j * n \<le> k + n"
  shows "tNanos (intervalSlot P first n (Finite (of_int j))) = intervalSlotAt first n j"
proof -
  note r = interval_rangeD [OF assms(1)]
  have "j * n * nanosPerSecond \<le> (k + n) * nanosPerSecond" using assms(3) by (simp add: nanosPerSecond_def)
  with r(7) show ?thesis by (intro intervalSlot_exact [OF assms(2) r(3)]) linarith
qed

lemma intervalSlot_UTC: "tOffset (intervalSlot P first n N) = 0"
  by (simp add: intervalSlot_def Let_def UTC_def)

text \<open>Which slot each function returns.\<close>

lemma interval_after:
  assumes "interval_range first since k n"
  shows "\<exists>t. computeIntervalAfter P first n since = Inr (Some t) \<and>
     tNanos t = intervalSlotAt first n (k div n + 1) \<and> tOffset t = 0"
proof -
  note r = interval_rangeD [OF assms]
  have "computeIntervalAfter P first n since = Inr (Some (intervalSlot P first n (Finite (of_int (k div n + 1)))))"
    using r(1,2) unfolding computeIntervalAfter_def Let_def interval_succ [OF assms]
    by (simp add: Before_def nanosPerSecond_def)
  moreover have "0 \<le> k div n + 1" "(k div n + 1) * n \<le> k + n"
    using r(2,3) div_slots(1) [OF r(3), of k] by (simp_all add: pos_imp_zdiv_nonneg_iff add_nonneg_nonneg algebra_simps)
  ultimately show ?thesis using interval_slot [OF assms] intervalSlot_UTC by blast
qed

lemma interval_on_or_after:
  assumes "interval_range first since k n"
  shows "\<exists>t. computeIntervalOnOrAfter P first n since = Inr (Some t) \<and>
     tNanos t = intervalSlotAt first n (- (- k div n)) \<and> tOffset t = 0"
proof (cases "k = 0")
  case True
  then show ?thesis using interval_rangeD(1) [OF assms]
    by (simp add: computeIntervalOnOrAfter_def Before_def Equal_def intervalSlotAt_def UTC_def)
next
  case False
  note r = interval_rangeD [OF assms]
  have "computeIntervalOnOrAfter P first n since = Inr (Some (intervalSlot P first n (Finite (of_int (- (- k div n))))))"
    using r(1,2) False unfolding computeIntervalOnOrAfter_def Let_def interval_ceil [OF assms]
    by (simp add: Before_def Equal_def nanosPerSecond_def)
  moreover have "0 \<le> - (- k div n)" "- (- k div n) * n \<le> k + n"
    using r(2,3) div_slots(4) [OF r(3), of k] by (simp_all add: div_nonpos_pos_le0)
  ultimately show ?thesis using interval_slot [OF assms] intervalSlot_UTC by blast
qed

lemma interval_latest:
  assumes "interval_range first since k n"
  shows "\<exists>t. computeIntervalLatestOnOrBefore P first n since = Inr (Some t) \<and>
     tNanos t = intervalSlotAt first n (k div n) \<and> tOffset t = 0"
proof -
  note r = interval_rangeD [OF assms]
  have "computeIntervalLatestOnOrBefore P first n since = Inr (Some (intervalSlot P first n (Finite (of_int (k div n)))))"
    using r(1,2) unfolding computeIntervalLatestOnOrBefore_def Let_def interval_floor [OF assms]
    by (simp add: Before_def nanosPerSecond_def)
  moreover have "0 \<le> k div n" "k div n * n \<le> k + n"
    using r(2,3) div_slots(1) [OF r(3), of k] by (simp_all add: pos_imp_zdiv_nonneg_iff)
  ultimately show ?thesis using interval_slot [OF assms] intervalSlot_UTC by blast
qed

text \<open>Those slots are the nearest ones.\<close>

lemma slot_compare:
  assumes "interval_range first since k n"
  shows "intervalSlotAt first n j \<le> tNanos since \<longleftrightarrow> j * n \<le> k"
    "tNanos since \<le> intervalSlotAt first n j \<longleftrightarrow> k \<le> j * n"
    "tNanos since < intervalSlotAt first n j \<longleftrightarrow> k < j * n"
proof -
  have "tNanos since = tNanos first + k * nanosPerSecond" using interval_rangeD(1) [OF assms] by simp
  then show "intervalSlotAt first n j \<le> tNanos since \<longleftrightarrow> j * n \<le> k"
    "tNanos since \<le> intervalSlotAt first n j \<longleftrightarrow> k \<le> j * n"
    "tNanos since < intervalSlotAt first n j \<longleftrightarrow> k < j * n"
    by (simp_all add: intervalSlotAt_def nanosPerSecond_def)
qed

lemma slot_order:
  "0 < n \<Longrightarrow> intervalSlotAt first n i \<le> intervalSlotAt first n j \<longleftrightarrow> i \<le> j"
  by (simp add: intervalSlotAt_def nanosPerSecond_def)

section \<open>Locations with a fixed offset\<close>

text \<open>
  UTC and every zone without transitions: the lookup gives the same offset for every
  instant. In such a location the wall clock determines the instant.
\<close>

definition fixed_offset :: "Location \<Rightarrow> int \<Rightarrow> bool" where
  "fixed_offset loc off \<longleftrightarrow> (\<forall>u. fst (locLookup loc u) = off)"

lemma utcLoc_fixed [simp]: "fixed_offset utcLoc 0"
  by (simp add: fixed_offset_def utcLoc_def)

definition localDay :: "Location \<Rightarrow> Time \<Rightarrow> int" where
  "localDay loc t = localSec loc t div 86400"

definition clockSec :: "Location \<Rightarrow> Time \<Rightarrow> int" where
  "clockSec loc t = localSec loc t mod 86400"

definition onDay :: "int \<Rightarrow> int \<Rightarrow> int \<Rightarrow> int" where
  "onDay off c d = (d * 86400 + c - off) * nanosPerSecond"

lemma clockSec_bounds: "0 \<le> clockSec loc t" "clockSec loc t < 86400"
  by (simp_all add: clockSec_def)

lemma clock_recompose: "Hour loc t * 3600 + Minute loc t * 60 + Second loc t = clockSec loc t"
proof -
  obtain s where s: "localSec loc t = s" by blast
  have a: "s mod 86400 mod 3600 = s mod 3600" "s mod 3600 mod 60 = s mod 60" by (simp_all add: mod_mod_cancel)
  have "s mod 86400 = s mod 86400 div 3600 * 3600 + s mod 86400 mod 3600" by (simp only: div_mult_mod_eq)
  moreover have "s mod 3600 = s mod 3600 div 60 * 60 + s mod 3600 mod 60" by (simp only: div_mult_mod_eq)
  ultimately show ?thesis unfolding Hour_def Minute_def Second_def clockSec_def s a by linarith
qed

lemma Date_fixed:
  assumes "fixed_offset loc off"
  shows "tNanos (Date y m d h mi sec nsec loc) =
    (dayNumber y m d * 86400 + h * 3600 + mi * 60 + sec - off) * nanosPerSecond + nsec"
proof -
  obtain unix where u: "dayNumber y m d * 86400 + h * 3600 + mi * 60 + sec + nsec div nanosPerSecond = unix" by blast
  obtain o1 a b where l: "locLookup loc unix = (o1, a, b)" by (cases "locLookup loc unix")
  have o: "o1 = off" "fst (locLookup loc x) = off" for x using assms l unfolding fixed_offset_def by (metis fst_conv)+
  have "tNanos (Date y m d h mi sec nsec loc) = (unix - off) * nanosPerSecond + nsec mod nanosPerSecond"
    unfolding Date_def Let_def u l prod.case o by simp
  moreover have "nsec = nsec div nanosPerSecond * nanosPerSecond + nsec mod nanosPerSecond"
    by (simp only: div_mult_mod_eq)
  ultimately show ?thesis unfolding u [symmetric] by (simp add: algebra_simps)
qed

lemma dayNumber_add: "dayNumber y m (d + k) = dayNumber y m d + k"
  by (simp add: dayNumber_def Let_def)

lemma dayNumber_of: "dayNumber (Year loc t) (Month loc t) (Day loc t) = localDay loc t"
  unfolding Year_def Month_def Day_def localDay_def by (rule dayNumber_civil)

lemma atClock_fixed:
  assumes "fixed_offset loc off"
  shows "tNanos (atClock loc first y m d) = onDay off (clockSec loc first) (dayNumber y m d)"
  unfolding atClock_def Date_fixed [OF assms] onDay_def clock_recompose [of loc first, symmetric]
  by (simp add: add.assoc)

lemma time_decompose:
  assumes "fixed_offset loc off"
  shows "tNanos t = onDay off (clockSec loc t) (localDay loc t) + Nanosecond t"
    "0 \<le> Nanosecond t" "Nanosecond t < nanosPerSecond"
proof -
  have "localSec loc t = unixSec t + off" using assms by (simp add: localSec_def fixed_offset_def)
  moreover have "localSec loc t = localDay loc t * 86400 + clockSec loc t"
    unfolding localDay_def clockSec_def by (simp only: div_mult_mod_eq)
  moreover have "tNanos t = unixSec t * nanosPerSecond + Nanosecond t"
    unfolding unixSec_def Nanosecond_def by (simp only: div_mult_mod_eq)
  ultimately show "tNanos t = onDay off (clockSec loc t) (localDay loc t) + Nanosecond t"
    by (simp add: onDay_def algebra_simps)
qed (simp_all add: Nanosecond_def nanosPerSecond_def)

lemma AddDate_fixed:
  assumes "fixed_offset loc off"
  shows "tNanos (AddDate loc t 0 0 k) = tNanos t + k * 86400 * nanosPerSecond"
proof -
  have "tNanos (AddDate loc t 0 0 k) =
      (dayNumber (Year loc t) (Month loc t) (Day loc t + k) * 86400 + clockSec loc t - off) * nanosPerSecond + Nanosecond t"
    unfolding AddDate_def Date_fixed [OF assms] clock_recompose [of loc t, symmetric] by (simp add: add.assoc)
  also have "\<dots> = tNanos t + k * 86400 * nanosPerSecond"
    unfolding dayNumber_add dayNumber_of using time_decompose(1) [OF assms, of t] by (simp add: onDay_def algebra_simps)
  finally show ?thesis .
qed

lemma onDay_shift: "onDay off c d + k * 86400 * nanosPerSecond = onDay off c (d + k)"
  by (simp add: onDay_def algebra_simps)

lemma onDay_less: "onDay off c d < onDay off c e \<longleftrightarrow> d < e" "onDay off c d \<le> onDay off c e \<longleftrightarrow> d \<le> e"
  by (simp_all add: onDay_def nanosPerSecond_def)

text \<open>An instant lies within its local day.\<close>

lemma within_day:
  assumes "fixed_offset loc off" "0 \<le> c" "c < 86400"
  shows "onDay off c (localDay loc t - 1) < tNanos t" "tNanos t < onDay off c (localDay loc t + 1)"
  using time_decompose [OF assms(1), of t] assms(2,3) clockSec_bounds [of loc t]
  by (simp_all add: onDay_def nanosPerSecond_def)

section \<open>Daily and weekly slots\<close>

text \<open>
  From a candidate slot around an instant, one comparison finds the nearest slot in each
  direction. \<open>slot\<close> lists the slots in order.
\<close>

lemma nearest_slots:
  fixes slot :: "int \<Rightarrow> int"
  assumes mono: "\<And>i j. slot i \<le> slot j \<longleftrightarrow> i \<le> j" and J: "slot (J - 1) < x" "x < slot (J + 1)"
  shows "x < slot (if slot J \<le> x then J + 1 else J)"
    and "x < slot e \<Longrightarrow> (if slot J \<le> x then J + 1 else J) \<le> e"
    and "x \<le> slot (if slot J < x then J + 1 else J)"
    and "x \<le> slot e \<Longrightarrow> (if slot J < x then J + 1 else J) \<le> e"
    and "slot (if x < slot J then J - 1 else J) \<le> x"
    and "slot e \<le> x \<Longrightarrow> e \<le> (if x < slot J then J - 1 else J)"
proof -
  have less: "slot i < slot j \<longleftrightarrow> i < j" for i j using mono by (meson not_le)
  show "x < slot (if slot J \<le> x then J + 1 else J)" "x \<le> slot (if slot J < x then J + 1 else J)"
    "slot (if x < slot J then J - 1 else J) \<le> x" using J by auto
  show "(if slot J \<le> x then J + 1 else J) \<le> e" if "x < slot e"
    using that J less [of J e] less [of "J - 1" e] by auto
  show "(if slot J < x then J + 1 else J) \<le> e" if "x \<le> slot e"
    using that J less [of J e] less [of "J - 1" e] by auto
  show "e \<le> (if x < slot J then J - 1 else J)" if "slot e \<le> x"
    using that J less [of e J] less [of e "J + 1"] by auto
qed

text \<open>
  The slots every \<open>p\<close> days at the first run's wall clock time, counted from its local day;
  \<open>p\<close> is 1 for daily and 7 for weekly schedules.
\<close>

definition daySlot :: "Location \<Rightarrow> int \<Rightarrow> int \<Rightarrow> Time \<Rightarrow> int \<Rightarrow> int" where
  "daySlot loc off p first j = onDay off (clockSec loc first) (localDay loc first + p * j)"

lemma daySlot_mono: "0 < p \<Longrightarrow> daySlot loc off p first i \<le> daySlot loc off p first j \<longleftrightarrow> i \<le> j"
  by (simp add: daySlot_def onDay_less)

lemma day_candidate:
  assumes "fixed_offset loc off" "localDay loc t + k = localDay loc first + p * J"
  shows "tNanos (atClock loc first (Year loc t) (Month loc t) (Day loc t + k)) = daySlot loc off p first J"
  unfolding atClock_fixed [OF assms(1)] dayNumber_add dayNumber_of daySlot_def assms(2) ..

lemma day_step:
  assumes "fixed_offset loc off" "tNanos c = daySlot loc off p first J"
  shows "tNanos (AddDate loc c 0 0 (p * k)) = daySlot loc off p first (J + k)"
  unfolding AddDate_fixed [OF assms(1)] assms(2) daySlot_def onDay_shift by (simp add: algebra_simps)

lemma day_window:
  assumes "fixed_offset loc off" "0 < p" "localDay loc t - p < localDay loc first + p * J"
    "localDay loc first + p * J < localDay loc t + p"
  shows "daySlot loc off p first (J - 1) < tNanos t" "tNanos t < daySlot loc off p first (J + 1)"
proof -
  let ?o = "onDay off (clockSec loc first)"
  have "?o (localDay loc first + p * (J - 1)) \<le> ?o (localDay loc t - 1)"
    "?o (localDay loc t + 1) \<le> ?o (localDay loc first + p * (J + 1))"
    using assms(3,4) by (simp_all add: onDay_less algebra_simps)
  with within_day [OF assms(1) clockSec_bounds [of loc first], of t]
  show "daySlot loc off p first (J - 1) < tNanos t" "tNanos t < daySlot loc off p first (J + 1)"
    unfolding daySlot_def by linarith+
qed

text \<open>What it means to be the nearest slot in each direction.\<close>

definition next_slot :: "(int \<Rightarrow> int) \<Rightarrow> int \<Rightarrow> int \<Rightarrow> bool" where
  "next_slot slot x y \<longleftrightarrow> (\<exists>j. y = slot j \<and> x < slot j \<and> (\<forall>e. x < slot e \<longrightarrow> j \<le> e))"

definition first_slot :: "(int \<Rightarrow> int) \<Rightarrow> int \<Rightarrow> int \<Rightarrow> bool" where
  "first_slot slot x y \<longleftrightarrow> (\<exists>j. y = slot j \<and> x \<le> slot j \<and> (\<forall>e. x \<le> slot e \<longrightarrow> j \<le> e))"

definition last_slot :: "(int \<Rightarrow> int) \<Rightarrow> int \<Rightarrow> int \<Rightarrow> bool" where
  "last_slot slot x y \<longleftrightarrow> (\<exists>j. y = slot j \<and> slot j \<le> x \<and> (\<forall>e. slot e \<le> x \<longrightarrow> e \<le> j))"

lemmas slot_kinds = next_slot_def first_slot_def last_slot_def

lemma day_nearest:
  assumes f: "fixed_offset loc off" and p: "0 < p" and c: "tNanos c = daySlot loc off p first J"
    and w: "localDay loc t - p < localDay loc first + p * J" "localDay loc first + p * J < localDay loc t + p"
  shows "next_slot (daySlot loc off p first) (tNanos t) (tNanos (if \<not> After c t then AddDate loc c 0 0 p else c))"
    and "first_slot (daySlot loc off p first) (tNanos t) (tNanos (if Before c t then AddDate loc c 0 0 p else c))"
    and "last_slot (daySlot loc off p first) (tNanos t) (tNanos (if After c t then AddDate loc c 0 0 (- p) else c))"
proof -
  note n = nearest_slots [OF daySlot_mono [OF p] day_window [OF f p w]]
  have s: "tNanos (AddDate loc c 0 0 p) = daySlot loc off p first (J + 1)"
    "tNanos (AddDate loc c 0 0 (- p)) = daySlot loc off p first (J - 1)"
    using day_step [OF f c, of 1] day_step [OF f c, of "- 1"] by simp_all
  show "next_slot (daySlot loc off p first) (tNanos t) (tNanos (if \<not> After c t then AddDate loc c 0 0 p else c))"
    unfolding next_slot_def using n(1,2) s c
    by (intro exI [of _ "if daySlot loc off p first J \<le> tNanos t then J + 1 else J"]) (simp add: After_def not_less)
  show "first_slot (daySlot loc off p first) (tNanos t) (tNanos (if Before c t then AddDate loc c 0 0 p else c))"
    unfolding first_slot_def using n(3,4) s c
    by (intro exI [of _ "if daySlot loc off p first J < tNanos t then J + 1 else J"]) (simp add: Before_def)
  show "last_slot (daySlot loc off p first) (tNanos t) (tNanos (if After c t then AddDate loc c 0 0 (- p) else c))"
    unfolding last_slot_def using n(5,6) s c
    by (intro exI [of _ "if tNanos t < daySlot loc off p first J then J - 1 else J"]) (simp add: After_def)
qed

lemma daily_nearest:
  assumes f: "fixed_offset loc off" and "\<not> Before since first"
  shows "\<exists>t. computeDailyAfter first since loc = Inr (Some t) \<and> next_slot (daySlot loc off 1 first) (tNanos since) (tNanos t)"
    and "\<exists>t. computeDailyOnOrAfter first since loc = Inr (Some t) \<and> first_slot (daySlot loc off 1 first) (tNanos since) (tNanos t)"
    and "\<exists>t. computeDailyLatestOnOrBefore first since loc = Inr (Some t) \<and> last_slot (daySlot loc off 1 first) (tNanos since) (tNanos t)"
proof -
  define c where "c = atClock loc first (Year loc since) (Month loc since) (Day loc since)"
  define J where "J = localDay loc since - localDay loc first"
  have c: "tNanos c = daySlot loc off 1 first J"
    using day_candidate [OF f, of since 0 first 1 J] by (simp add: c_def J_def)
  note n = day_nearest [OF f zero_less_one c, of since]
  show "\<exists>t. computeDailyAfter first since loc = Inr (Some t) \<and> next_slot (daySlot loc off 1 first) (tNanos since) (tNanos t)"
    using n(1) assms(2) by (simp add: computeDailyAfter_def c_def [symmetric] J_def Let_def)
  show "\<exists>t. computeDailyOnOrAfter first since loc = Inr (Some t) \<and> first_slot (daySlot loc off 1 first) (tNanos since) (tNanos t)"
    using n(2) assms(2) by (simp add: computeDailyOnOrAfter_def c_def [symmetric] J_def Let_def)
  show "\<exists>t. computeDailyLatestOnOrBefore first since loc = Inr (Some t) \<and> last_slot (daySlot loc off 1 first) (tNanos since) (tNanos t)"
    using n(3) assms(2) by (simp add: computeDailyLatestOnOrBefore_def c_def [symmetric] J_def Let_def)
qed

text \<open>Weekly: the distance to the target day of the week, forwards and backwards.\<close>

lemma goMod_pos: "0 \<le> a \<Longrightarrow> 0 < b \<Longrightarrow> goMod a b = a mod b"
  by (cases "a = 0") (simp_all add: goMod_def goDiv_def minus_mult_div_eq_mod)

lemma weekday_step:
  fixes a b :: int
  assumes "goMod (weekdayOfDay a - weekdayOfDay b + 7) 7 = k"
  shows "0 \<le> k" "k < 7" "\<exists>J. b + k = a + 7 * J"
proof -
  have "0 \<le> weekdayOfDay a" "weekdayOfDay b < 7" by (simp_all add: weekdayOfDay_def)
  then have k: "k = (weekdayOfDay a - weekdayOfDay b + 7) mod 7" using assms by (simp add: goMod_pos)
  then show "0 \<le> k" "k < 7" by simp_all
  have "k = (a - b) mod 7" unfolding k weekdayOfDay_def by (simp add: mod_simps)
  then have "b + k = a + 7 * (- ((a - b) div 7))" using div_mult_mod_eq [of "a - b" 7] by linarith
  then show "\<exists>J. b + k = a + 7 * J" by blast
qed

lemma weekly_nearest:
  assumes f: "fixed_offset loc off" and "\<not> Before since first"
  shows "\<exists>t. computeWeeklyOnOrAfter first since loc = Inr (Some t) \<and> first_slot (daySlot loc off 7 first) (tNanos since) (tNanos t)"
    and "\<exists>t. computeWeeklyLatestOnOrBefore first since loc = Inr (Some t) \<and> last_slot (daySlot loc off 7 first) (tNanos since) (tNanos t)"
proof -
  have wd: "Weekday loc t = weekdayOfDay (localDay loc t)" for t by (simp add: Weekday_def localDay_def)
  define k where "k = goMod (Weekday loc first - Weekday loc since + 7) 7"
  define c where "c = atClock loc first (Year loc since) (Month loc since) (Day loc since + k)"
  from weekday_step [of "localDay loc first" "localDay loc since" k] obtain J
    where k: "0 \<le> k" "k < 7" "localDay loc since + k = localDay loc first + 7 * J" unfolding k_def wd by blast
  from day_nearest(2) [OF f _ day_candidate [OF f k(3)], of since, folded c_def] k
  have "first_slot (daySlot loc off 7 first) (tNanos since) (tNanos (if Before c since then AddDate loc c 0 0 7 else c))"
    by simp
  then show "\<exists>t. computeWeeklyOnOrAfter first since loc = Inr (Some t) \<and> first_slot (daySlot loc off 7 first) (tNanos since) (tNanos t)"
    using assms(2) by (simp add: computeWeeklyOnOrAfter_def k_def [symmetric] c_def [symmetric] Let_def split: if_splits)
  define b where "b = goMod (Weekday loc since - Weekday loc first + 7) 7"
  define c' where "c' = atClock loc first (Year loc since) (Month loc since) (Day loc since - b)"
  from weekday_step [of "localDay loc since" "localDay loc first" b] obtain M
    where b: "0 \<le> b" "b < 7" "localDay loc first + b = localDay loc since + 7 * M" unfolding b_def wd by blast
  then have b': "localDay loc since + - b = localDay loc first + 7 * (- M)" by simp
  from day_candidate [OF f b'] have c': "tNanos c' = daySlot loc off 7 first (- M)" by (simp add: c'_def)
  from day_nearest(3) [OF f _ c', of since] b
  have "last_slot (daySlot loc off 7 first) (tNanos since) (tNanos (if After c' since then AddDate loc c' 0 0 (- 7) else c'))"
    by simp
  then show "\<exists>t. computeWeeklyLatestOnOrBefore first since loc = Inr (Some t) \<and> last_slot (daySlot loc off 7 first) (tNanos since) (tNanos t)"
    using assms(2) by (simp add: computeWeeklyLatestOnOrBefore_def b_def [symmetric] c'_def [symmetric] Let_def split: if_splits)
qed

text \<open>\<open>computeWeeklyAfter\<close> never looks at the day of the week; on a slot's own day it is right.\<close>

lemma weekly_after_on_slot_day:
  assumes f: "fixed_offset loc off" and "\<not> Before since first" and d: "localDay loc since = localDay loc first + 7 * J"
  shows "\<exists>t. computeWeeklyAfter first since loc = Inr (Some t) \<and> next_slot (daySlot loc off 7 first) (tNanos since) (tNanos t)"
proof -
  define c where "c = atClock loc first (Year loc since) (Month loc since) (Day loc since)"
  have c: "tNanos c = daySlot loc off 7 first J"
    using day_candidate [OF f, of since 0 first 7 J] d by (simp add: c_def)
  from day_nearest(1) [OF f _ c, of since] d assms(2) show ?thesis
    by (simp add: computeWeeklyAfter_def c_def [symmetric] Let_def)
qed

section \<open>Monthly slots\<close>

text \<open>Months are counted from January of year 0; \<open>dayIn M d\<close> is the day number of day \<open>d\<close> of month \<open>M\<close>.\<close>

definition monthLength :: "int \<Rightarrow> int" where
  "monthLength M = daysInMonth (M div 12) (M mod 12 + 1)"

definition dayIn :: "int \<Rightarrow> int \<Rightarrow> int" where
  "dayIn M d = dayNumber (M div 12) (M mod 12 + 1) d"

lemma month_range: "1 \<le> (M::int) mod 12 + 1" "(M::int) mod 12 + 1 \<le> 12"
  using pos_mod_bound [of 12 M] pos_mod_sign [of 12 M] by simp_all

lemma dayNumber_index: "dayNumber y m d = dayIn (12 * y + m - 1) d"
proof -
  have "(12 * y + m - 1) div 12 = y + (m - 1) div 12" "(12 * y + m - 1) mod 12 = (m - 1) mod 12"
    using div_mult_self4 [of 12 y "m - 1"] mod_mult_self4 [of 12 y "m - 1"] by (simp_all add: algebra_simps)
  then show ?thesis unfolding dayIn_def using month_range [of "m - 1"] by (simp add: dayNumber_def Let_def)
qed

lemma dayIn_add: "dayIn M (d + k) = dayIn M d + k"
  by (simp add: dayIn_def dayNumber_add)

lemma monthLength_bounds: "28 \<le> monthLength M" "monthLength M \<le> 31"
  by (auto simp: monthLength_def daysInMonth_def)

lemma daysBeforeMonth_Suc: "1 \<le> m \<Longrightarrow> m < 12 \<Longrightarrow> daysBeforeMonth y (m + 1) = daysBeforeMonth y m + daysInMonth y m"
  using month_cases [of m] by (auto simp: daysBeforeMonth_table daysInMonth_table)

lemma dayIn_next: "dayIn (M + 1) 1 = dayIn M 1 + monthLength M"
proof -
  obtain y m where ym: "M div 12 = y" "M mod 12 + 1 = m" and M: "M = 12 * y + (m - 1)" "1 \<le> m" "m \<le> 12"
    using month_range [of M] by (metis add_diff_cancel_right' mult_div_mod_eq)
  have D: "dayIn M 1 = daysBeforeYear y + daysBeforeMonth y m"
    unfolding dayIn_def ym using dayNumber_in_year [OF M(2,3), of y 1] by simp
  show ?thesis
  proof (cases "m = 12")
    case True
    then have "dayIn (M + 1) 1 = daysBeforeYear (y + 1)"
      using dayNumber_index [of "y + 1" 1 1] dayNumber_in_year [of 1 "y + 1" 1] M(1) by (simp add: daysBeforeMonth_table)
    then show ?thesis using D True unfolding monthLength_def ym
      by (simp add: daysBeforeYear_Suc' daysBeforeMonth_table daysInMonth_table)
  next
    case False
    then have "dayIn (M + 1) 1 = daysBeforeYear y + daysBeforeMonth y (m + 1)"
      using dayNumber_index [of y "m + 1" 1] dayNumber_in_year [of "m + 1" y 1] M by simp
    then show ?thesis using D M False daysBeforeMonth_Suc [of m y] unfolding monthLength_def ym by simp
  qed
qed

lemma civil_dayIn:
  assumes "1 \<le> d" "d \<le> monthLength M"
  shows "yearOfDay (dayIn M d) = M div 12" "monthOfDay (dayIn M d) = M mod 12 + 1" "mdayOfDay (dayIn M d) = d"
  using civil_dayNumber [OF month_range assms [unfolded monthLength_def]] by (simp_all add: dayIn_def)

lemma utc_midnight: "localSec utcLoc (Date y m d 0 0 0 0 utcLoc) div 86400 = dayNumber y m d"
proof -
  have "tNanos (Date y m d 0 0 0 0 utcLoc) = dayNumber y m d * 86400 * nanosPerSecond"
    using Date_fixed [OF utcLoc_fixed] by simp
  then have "unixSec (Date y m d 0 0 0 0 utcLoc) = dayNumber y m d * 86400"
    by (simp add: unixSec_def nanosPerSecond_def)
  then show ?thesis by (simp add: localSec_def utcLoc_def)
qed

text \<open>\<open>time.Date(year, month+1, 0, ...)\<close> is the last day of the month.\<close>

lemma lastDayOf_index: "lastDayOf (M div 12) (M mod 12 + 1) = monthLength M"
proof -
  have "dayNumber (M div 12) (M mod 12 + 1 + 1) 0 = dayIn (M + 1) 0"
    unfolding dayNumber_index by (simp add: algebra_simps)
  also have "\<dots> = dayIn M (monthLength M)"
    using dayIn_next [of M] dayIn_add [of "M + 1" 1 "- 1"] dayIn_add [of M 1 "monthLength M - 1"] by simp
  finally show ?thesis
    unfolding lastDayOf_def Day_def utc_midnight using civil_dayIn(3) [of "monthLength M" M] monthLength_bounds [of M] by simp
qed

lemma step_month:
  "Year utcLoc (Date (M div 12) (M mod 12 + 1 + k) 1 0 0 0 0 utcLoc) = (M + k) div 12"
  "Month utcLoc (Date (M div 12) (M mod 12 + 1 + k) 1 0 0 0 0 utcLoc) = (M + k) mod 12 + 1"
proof -
  have "dayNumber (M div 12) (M mod 12 + 1 + k) 1 = dayIn (M + k) 1"
    unfolding dayNumber_index by (simp add: algebra_simps)
  then show "Year utcLoc (Date (M div 12) (M mod 12 + 1 + k) 1 0 0 0 0 utcLoc) = (M + k) div 12"
    "Month utcLoc (Date (M div 12) (M mod 12 + 1 + k) 1 0 0 0 0 utcLoc) = (M + k) mod 12 + 1"
    unfolding Year_def Month_def utc_midnight
    using civil_dayIn [of 1 "M + k"] monthLength_bounds [of "M + k"] by simp_all
qed

definition monthSlot :: "Location \<Rightarrow> int \<Rightarrow> int \<Rightarrow> Time \<Rightarrow> int \<Rightarrow> int" where
  "monthSlot loc off dm first M = onDay off (clockSec loc first) (dayIn M (min dm (monthLength M)))"

lemma dayIn_mono: "i < j \<Longrightarrow> dayIn i 1 + monthLength i \<le> dayIn j 1"
proof (induction "nat (j - i)" arbitrary: j)
  case (Suc n)
  show ?case
  proof (cases "j = i + 1")
    case True
    then show ?thesis by (simp add: dayIn_next)
  next
    case False
    with Suc have "dayIn i 1 + monthLength i \<le> dayIn (j - 1) 1" by (intro Suc.hyps) auto
    then show ?thesis using dayIn_next [of "j - 1"] monthLength_bounds [of "j - 1"] by simp
  qed
qed simp

lemma slot_day:
  assumes "1 \<le> dm"
  shows "dayIn M 1 \<le> dayIn M (min dm (monthLength M))"
    "dayIn M (min dm (monthLength M)) < dayIn M 1 + monthLength M"
  using assms monthLength_bounds [of M] dayIn_add [of M 1 "min dm (monthLength M) - 1"] by simp_all

lemma monthSlot_mono:
  assumes "1 \<le> dm"
  shows "monthSlot loc off dm first i \<le> monthSlot loc off dm first j \<longleftrightarrow> i \<le> j"
proof -
  have "i < j \<Longrightarrow> dayIn i (min dm (monthLength i)) < dayIn j (min dm (monthLength j))" for i j
    using dayIn_mono [of i j] slot_day [OF assms, of i] slot_day [OF assms, of j] by linarith
  from this [of i j] this [of j i] show ?thesis
    unfolding monthSlot_def onDay_less by (cases i j rule: linorder_cases) auto
qed

text \<open>The month an instant lies in, and its two neighbours' slots around the instant.\<close>

definition monthOf :: "Location \<Rightarrow> Time \<Rightarrow> int" where
  "monthOf loc t = 12 * Year loc t + Month loc t - 1"

lemma monthOf_split: "monthOf loc t div 12 = Year loc t" "monthOf loc t mod 12 + 1 = Month loc t"
proof -
  have "1 \<le> Month loc t" "Month loc t \<le> 12" unfolding Month_def using monthOfDay_valid by blast+
  then have "12 * Year loc t + (Month loc t - 1) = monthOf loc t" "0 \<le> Month loc t - 1" "Month loc t - 1 < 12"
    by (simp_all add: monthOf_def)
  then show "monthOf loc t div 12 = Year loc t" "monthOf loc t mod 12 + 1 = Month loc t"
    using int_div_pos_eq [of "monthOf loc t" 12 "Year loc t" "Month loc t - 1"]
      int_mod_pos_eq [of "monthOf loc t" 12 "Year loc t" "Month loc t - 1"] by simp_all
qed

lemma monthOf_bounds:
  "dayIn (monthOf loc t) 1 \<le> localDay loc t" "localDay loc t < dayIn (monthOf loc t) 1 + monthLength (monthOf loc t)"
proof -
  have d: "localDay loc t = dayIn (monthOf loc t) (Day loc t)"
    unfolding dayIn_def monthOf_split dayNumber_of ..
  have "1 \<le> Day loc t" "Day loc t \<le> monthLength (monthOf loc t)"
    unfolding monthLength_def monthOf_split unfolding Day_def Year_def Month_def using monthOfDay_valid by blast+
  then show "dayIn (monthOf loc t) 1 \<le> localDay loc t"
    "localDay loc t < dayIn (monthOf loc t) 1 + monthLength (monthOf loc t)"
    using d dayIn_add [of "monthOf loc t" 1 "Day loc t - 1"] by simp_all
qed

lemma month_window:
  assumes "fixed_offset loc off" "1 \<le> dm"
  shows "monthSlot loc off dm first (monthOf loc t - 1) < tNanos t"
    "tNanos t < monthSlot loc off dm first (monthOf loc t + 1)"
proof -
  let ?o = "onDay off (clockSec loc first)" and ?M = "monthOf loc t"
  have "?o (dayIn (?M - 1) (min dm (monthLength (?M - 1)))) \<le> ?o (localDay loc t - 1)"
    using slot_day(2) [OF assms(2), of "?M - 1"] dayIn_next [of "?M - 1"] monthOf_bounds(1) [of loc t]
    unfolding onDay_less by simp
  moreover have "?o (localDay loc t + 1) \<le> ?o (dayIn (?M + 1) (min dm (monthLength (?M + 1))))"
    using slot_day(1) [OF assms(2), of "?M + 1"] dayIn_next [of ?M] monthOf_bounds(2) [of loc t]
    unfolding onDay_less by linarith
  ultimately show "monthSlot loc off dm first (?M - 1) < tNanos t" "tNanos t < monthSlot loc off dm first (?M + 1)"
    unfolding monthSlot_def using within_day [OF assms(1) clockSec_bounds [of loc first], of t] by linarith+
qed

lemma monthly_candidate:
  assumes "fixed_offset loc off"
  shows "tNanos (atClock loc first (M div 12) (M mod 12 + 1) (min dm (lastDayOf (M div 12) (M mod 12 + 1)))) =
    monthSlot loc off dm first M"
  unfolding atClock_fixed [OF assms] lastDayOf_index monthSlot_def dayIn_def ..

text \<open>Two rounds of the loop are enough: the month at hand, or its neighbour.\<close>

lemma monthlyLoop_two:
  assumes f: "fixed_offset loc off" and ok: "\<And>c. ok c \<longleftrightarrow> okn (tNanos c)"
    and neighbour: "okn (monthSlot loc off dm first (M + step))"
  shows "\<exists>c. monthlyLoop (Suc (Suc n)) step ok loc first dm (M div 12) (M mod 12 + 1) = Some c \<and>
    tNanos c = monthSlot loc off dm first (if okn (monthSlot loc off dm first M) then M else M + step)"
proof -
  define c0 where "c0 = atClock loc first (M div 12) (M mod 12 + 1) (min dm (lastDayOf (M div 12) (M mod 12 + 1)))"
  define c1 where "c1 = atClock loc first ((M + step) div 12) ((M + step) mod 12 + 1)
    (min dm (lastDayOf ((M + step) div 12) ((M + step) mod 12 + 1)))"
  have c: "tNanos c0 = monthSlot loc off dm first M" "tNanos c1 = monthSlot loc off dm first (M + step)"
    unfolding c0_def c1_def by (rule monthly_candidate [OF f])+
  have "ok c1" using neighbour by (simp add: ok c)
  then have "monthlyLoop (Suc (Suc n)) step ok loc first dm (M div 12) (M mod 12 + 1) = Some (if ok c0 then c0 else c1)"
    unfolding monthlyLoop.simps Let_def step_month c0_def [symmetric] c1_def [symmetric] by simp
  with c ok show ?thesis by simp
qed

lemma monthly_nearest:
  assumes f: "fixed_offset loc off" and "\<not> Before since first" and dm: "1 \<le> dm"
  shows "\<exists>t. computeMonthlyAfter first dm since loc = Inr (Some t) \<and>
      next_slot (monthSlot loc off dm first) (tNanos since) (tNanos t)"
    and "\<exists>t. computeMonthlyOnOrAfter first dm since loc = Inr (Some t) \<and>
      first_slot (monthSlot loc off dm first) (tNanos since) (tNanos t)"
    and "\<exists>t. computeMonthlyLatestOnOrBefore first dm since loc = Inr (Some t) \<and>
      last_slot (monthSlot loc off dm first) (tNanos since) (tNanos t)"
proof -
  let ?M = "monthOf loc since" and ?x = "tNanos since" and ?slot = "monthSlot loc off dm first"
  have n120: "(120::nat) = Suc (Suc 118)" by simp
  note w = month_window [OF f dm, where first = first and t = since]
  note n = nearest_slots [OF monthSlot_mono [OF dm] w]
  have "\<exists>c. monthlyLoop 120 1 (\<lambda>c. After c since) loc first dm (Year loc since) (Month loc since) = Some c \<and>
      tNanos c = ?slot (if ?x < ?slot ?M then ?M else ?M + 1)"
    unfolding n120 monthOf_split [symmetric]
    by (rule monthlyLoop_two [OF f]) (use w in \<open>simp_all add: After_def\<close>)
  then show "\<exists>t. computeMonthlyAfter first dm since loc = Inr (Some t) \<and> next_slot ?slot ?x (tNanos t)"
    unfolding computeMonthlyAfter_def monthlyResult_def next_slot_def using assms(2) n(1,2)
    by (auto simp: not_le intro!: exI [of _ "if ?slot ?M \<le> ?x then ?M + 1 else ?M"])
  have "\<exists>c. monthlyLoop 120 1 (\<lambda>c. \<not> Before c since) loc first dm (Year loc since) (Month loc since) = Some c \<and>
      tNanos c = ?slot (if ?x \<le> ?slot ?M then ?M else ?M + 1)"
    unfolding n120 monthOf_split [symmetric]
    by (rule monthlyLoop_two [OF f]) (use w in \<open>simp_all add: Before_def not_less\<close>)
  then show "\<exists>t. computeMonthlyOnOrAfter first dm since loc = Inr (Some t) \<and> first_slot ?slot ?x (tNanos t)"
    unfolding computeMonthlyOnOrAfter_def monthlyResult_def first_slot_def using assms(2) n(3,4)
    by (auto simp: not_less intro!: exI [of _ "if ?slot ?M < ?x then ?M + 1 else ?M"])
  have "\<exists>c. monthlyLoop 120 (- 1) (\<lambda>c. \<not> After c since) loc first dm (Year loc since) (Month loc since) = Some c \<and>
      tNanos c = ?slot (if ?slot ?M \<le> ?x then ?M else ?M + - 1)"
    unfolding n120 monthOf_split [symmetric]
    by (rule monthlyLoop_two [OF f]) (use w in \<open>simp_all add: After_def not_less\<close>)
  then show "\<exists>t. computeMonthlyLatestOnOrBefore first dm since loc = Inr (Some t) \<and> last_slot ?slot ?x (tNanos t)"
    unfolding computeMonthlyLatestOnOrBefore_def monthlyResult_def last_slot_def using assms(2) n(5,6)
    by (auto simp: not_le intro!: exI [of _ "if ?x < ?slot ?M then ?M - 1 else ?M"])
qed

section \<open>The cadences\<close>

lemma interval_nearest:
  assumes r: "interval_range first since k n"
  shows "\<exists>t. computeIntervalAfter P first n since = Inr (Some t) \<and> next_slot (intervalSlotAt first n) (tNanos since) (tNanos t)"
    and "\<exists>t. computeIntervalOnOrAfter P first n since = Inr (Some t) \<and> first_slot (intervalSlotAt first n) (tNanos since) (tNanos t)"
    and "\<exists>t. computeIntervalLatestOnOrBefore P first n since = Inr (Some t) \<and> last_slot (intervalSlotAt first n) (tNanos since) (tNanos t)"
proof -
  note n = interval_rangeD(3) [OF r] and c = slot_compare [OF r]
  note d = div_slots [OF n, of k]
  have up: "a * n < b * n \<Longrightarrow> a < b" for a b using n by (simp add: mult_less_cancel_right)
  have "k div n + 1 \<le> e" if "k < e * n" for e using up [of "k div n" e] d(1) that by linarith
  then show "\<exists>t. computeIntervalAfter P first n since = Inr (Some t) \<and> next_slot (intervalSlotAt first n) (tNanos since) (tNanos t)"
    using interval_after [OF r, of P] d(2) unfolding next_slot_def c by blast
  have "- (- k div n) \<le> e" if "k \<le> e * n" for e
    using up [of "- (- k div n) - 1" e] d(4) that by (simp add: algebra_simps)
  then show "\<exists>t. computeIntervalOnOrAfter P first n since = Inr (Some t) \<and> first_slot (intervalSlotAt first n) (tNanos since) (tNanos t)"
    using interval_on_or_after [OF r, of P] d(3) unfolding first_slot_def c by blast
  have "e \<le> k div n" if "e * n \<le> k" for e using up [of e "k div n + 1"] d(2) that by linarith
  then show "\<exists>t. computeIntervalLatestOnOrBefore P first n since = Inr (Some t) \<and> last_slot (intervalSlotAt first n) (tNanos since) (tNanos t)"
    using interval_latest [OF r, of P] d(1) unfolding last_slot_def c by blast
qed


definition day2025 :: "int \<Rightarrow> int \<Rightarrow> Time" where
  "day2025 d sec = \<lparr>tNanos = ((739251 + d) * 86400 + sec) * nanosPerSecond, tOffset = 0\<rparr>"

definition utcPlatform :: platform where
  "utcPlatform = \<lparr>LoadLocation = (\<lambda>_. Inr utcLoc), outOfRange = (\<lambda>_. - (2 ^ 63))\<rparr>"


text \<open>
  C15. Daily schedules in a zone with a fixed offset fire once per local day at the first
  run's wall clock time, and the three functions return the nearest such instant after, on
  or after, and on or before a given one.
\<close>

theorem daily_cadence:
  assumes "fixed_offset loc off" "\<not> Before since first"
  shows "(\<exists>t. computeDailyAfter first since loc = Inr (Some t) \<and> next_slot (daySlot loc off 1 first) (tNanos since) (tNanos t)) \<and>
    (\<exists>t. computeDailyOnOrAfter first since loc = Inr (Some t) \<and> first_slot (daySlot loc off 1 first) (tNanos since) (tNanos t)) \<and>
    (\<exists>t. computeDailyLatestOnOrBefore first since loc = Inr (Some t) \<and> last_slot (daySlot loc off 1 first) (tNanos since) (tNanos t))"
  using daily_nearest [OF assms] by blast

theorem daily_cadence_witness:
  "\<exists>t. computeDailyAfter (day2025 0 32400) (day2025 3 40000) utcLoc = Inr (Some t) \<and>
     next_slot (daySlot utcLoc 0 1 (day2025 0 32400)) (tNanos (day2025 3 40000)) (tNanos t)"
  using daily_cadence [OF utcLoc_fixed, of "day2025 3 40000" "day2025 0 32400"]
  by (simp add: Before_def day2025_def nanosPerSecond_def)



text \<open>
  C17. Monthly schedules in a zone with a fixed offset fire once a month, on the given day or
  on the last day of a shorter month, at the first run's wall clock time. The bounded loop
  over months always finds a slot, and it is the nearest one.
\<close>

theorem monthly_cadence:
  assumes "fixed_offset loc off" "\<not> Before since first" "1 \<le> dm"
  shows "(\<exists>t. computeMonthlyAfter first dm since loc = Inr (Some t) \<and>
      next_slot (monthSlot loc off dm first) (tNanos since) (tNanos t)) \<and>
    (\<exists>t. computeMonthlyOnOrAfter first dm since loc = Inr (Some t) \<and>
      first_slot (monthSlot loc off dm first) (tNanos since) (tNanos t)) \<and>
    (\<exists>t. computeMonthlyLatestOnOrBefore first dm since loc = Inr (Some t) \<and>
      last_slot (monthSlot loc off dm first) (tNanos since) (tNanos t))"
  using monthly_nearest [OF assms] by blast

theorem monthly_cadence_witness:
  "\<exists>t. computeMonthlyAfter (day2025 30 32400) 31 (day2025 30 32400) utcLoc = Inr (Some t) \<and>
     next_slot (monthSlot utcLoc 0 31 (day2025 30 32400)) (tNanos (day2025 30 32400)) (tNanos t)"
  using monthly_cadence [OF utcLoc_fixed, of "day2025 30 32400" "day2025 30 32400" 31] by (simp add: Before_def)

section \<open>Every next run is later\<close>

lemma weekly_after_later:
  assumes f: "fixed_offset loc off" and "\<not> Before since first" "computeWeeklyAfter first since loc = Inr (Some t)"
  shows "After t since"
proof -
  define c where "c = atClock loc first (Year loc since) (Month loc since) (Day loc since)"
  have c: "tNanos c = onDay off (clockSec loc first) (localDay loc since)"
    unfolding c_def atClock_fixed [OF f] dayNumber_of ..
  have "onDay off (clockSec loc first) (localDay loc since - 1) < tNanos since"
    "tNanos since < onDay off (clockSec loc first) (localDay loc since + 1)"
    using within_day [OF f clockSec_bounds [of loc first], of since] by blast+
  moreover have "tNanos (AddDate loc c 0 0 7) = onDay off (clockSec loc first) (localDay loc since + 7)"
    unfolding AddDate_fixed [OF f] c using onDay_shift [of off "clockSec loc first" "localDay loc since" 7] by simp
  moreover have "onDay off (clockSec loc first) (localDay loc since + 1) \<le> onDay off (clockSec loc first) (localDay loc since + 7)"
    by (simp add: onDay_less)
  moreover from assms(2,3) have "t = UTC (if \<not> After c since then AddDate loc c 0 0 7 else c)"
    by (auto simp: computeWeeklyAfter_def c_def Let_def)
  ultimately show ?thesis by (auto simp: After_def)
qed

lemma monthlyLoop_ok: "monthlyLoop n step ok loc first dm y m = Some c \<Longrightarrow> ok c"
  by (induction n arbitrary: y m) (auto simp: Let_def split: if_splits)

lemma next_run_after_Some: "ComputeNextRunAfter P recurrence tz first since = Inr r \<Longrightarrow> r \<noteq> None"
  by (auto simp: ComputeNextRunAfter_def dispatchCadence_def computeIntervalAfter_def computeDailyAfter_def
      computeWeeklyAfter_def computeMonthlyAfter_def monthlyResult_def Let_def
      split: option.splits sum.splits if_splits)

lemma after_is_later:
  assumes "ComputeNextRunAfter P recurrence tz first since = Inr (Some t)"
    and "recurrence = Some r" "LoadLocation P tz = Inr loc" "fixed_offset loc off"
    and "rCadence r = CadenceInterval \<and> \<not> Before since first \<longrightarrow> (\<exists>k n. rSeconds r = Some n \<and> interval_range first since k n)"
  shows "After t since"
proof (cases "Before since first")
  case True
  then show ?thesis using assms(1)
    by (auto simp: ComputeNextRunAfter_def dispatchCadence_def computeIntervalAfter_def computeDailyAfter_def
        computeWeeklyAfter_def computeMonthlyAfter_def Before_def After_def
        split: option.splits sum.splits if_splits)
next
  case False
  from assms(1-3) have d: "tz \<noteq> ''Local''"
    and c: "(\<exists>n. rCadence r = CadenceInterval \<and> rSeconds r = Some n \<and> computeIntervalAfter P first n since = Inr (Some t)) \<or>
      computeDailyAfter first since loc = Inr (Some t) \<or> computeWeeklyAfter first since loc = Inr (Some t) \<or>
      (\<exists>dm. computeMonthlyAfter first dm since loc = Inr (Some t))"
    by (auto simp: ComputeNextRunAfter_def dispatchCadence_def resolveTimezone_def
        split: option.splits sum.splits if_splits)
  from c consider n where "rCadence r = CadenceInterval" "rSeconds r = Some n" "computeIntervalAfter P first n since = Inr (Some t)"
    | "computeDailyAfter first since loc = Inr (Some t)" | "computeWeeklyAfter first since loc = Inr (Some t)"
    | dm where "computeMonthlyAfter first dm since loc = Inr (Some t)" by blast
  then show ?thesis
  proof cases
    case (1 n)
    with assms(5) False obtain k where "interval_range first since k n" by auto
    from interval_nearest(1) [OF this, of P] 1(3) show ?thesis by (auto simp: next_slot_def After_def)
  next
    case 2
    with daily_nearest(1) [OF assms(4) False] show ?thesis by (auto simp: next_slot_def After_def)
  next
    case 3
    then show ?thesis using weekly_after_later [OF assms(4) False] by blast
  next
    case (4 dm)
    then show ?thesis using False
      by (auto simp: computeMonthlyAfter_def monthlyResult_def After_def dest!: monthlyLoop_ok split: option.splits)
  qed
qed


definition dailyUtc :: Recurrence where
  "dailyUtc = \<lparr>rCadence = CadenceDaily, rDayOfMonth = None, rDayOfWeek = None, rSeconds = None\<rparr>"


end
