(* ===== verification/Scenario.thy ===== *)
theory Scenario
  imports StateMachine RecurrenceCorrect
begin

text \<open>
  A concrete run on the reference store, for the witnesses of the properties: a recurring
  hourly schedule is created, its first run is claimed by node \<open>n1\<close>, one attempt is recorded
  and the execution is completed. Each store of the run is written out.
\<close>

section \<open>The commands\<close>

text \<open>Seconds after midnight of the first of January 2025.\<close>

definition instant :: "int \<Rightarrow> Time" where
  "instant n = \<lparr>tNanos = (63871286400 + n) * 10 ^ 9, tOffset = 0\<rparr>"

definition hourly :: Recurrence where
  "hourly = \<lparr>rCadence = CadenceInterval, rDayOfMonth = None, rDayOfWeek = None, rSeconds = Some 3600\<rparr>"

definition backoff30s :: RetryBackoff where
  "backoff30s = \<lparr>rbInitial = 30000000000, rbMultiplier = Finite 2, rbMax = 600000000000\<rparr>"

definition createS :: CreateScheduleCommand where
  "createS = \<lparr>csID = ''s'', csTenantID = ''t'', csCreatedBy = [], csCallbackURL = ''http://h'', csPayload = [],
     csHeaders = [(''X-A'', ''1'')], csScheduleType = ScheduleTypeRecurring, csFirstRunAt = instant 0,
     csRecurrence = Some hourly, csTimezone = ''UTC'', csMaxAttempts = 3, csRetryBackoff = backoff30s,
     csCallTimeout = None, csCatchUpPolicy = CatchUpPolicyAll\<rparr>"

definition claimE :: ClaimExecutionCommand where
  "claimE = \<lparr>clID = ''e'', clTenantID = ''t'', clScheduleID = ''s'', clScheduledFor = instant 0, clOwnerNodeID = ''n1''\<rparr>"

definition recordA :: RecordAttemptCommand where
  "recordA = \<lparr>raTenantID = ''t'', raExecutionID = ''e'', raID = ''a'', raNodeID = ''n1'',
     raStartedAt = Some (instant 1), raCompletedAt = Some (instant 2), raOutcome = OutcomeSuccess,
     raRetryAt = None, raRequestURL = ''http://h'', raRequestHeaders = [], raRequestBodyHash = ''h'',
     raResponseStatus = 200, raResponseBodyExcerpt = [], raResponseHeaders = []\<rparr>"

definition completeE :: CompleteExecutionCommand where
  "completeE = \<lparr>coTenantID = ''t'', coExecutionID = ''e'', coFinalStatus = ExecutionStatusSucceeded,
     coFinalOutcome = ''success'', coNextRunAt = None\<rparr>"

definition entry :: "Command \<Rightarrow> int \<Rightarrow> LogEntry" where
  "entry c n = \<lparr>lePayload = c, leProposedAt = instant n\<rparr>"

definition demoLog :: "LogEntry list" where
  "demoLog = [entry (CreateSchedule createS) 0, entry (ClaimExecution claimE) 1,
     entry (RecordAttempt recordA) 2, entry (CompleteExecution completeE) 3]"

section \<open>The rows and stores of the run\<close>

definition sched0 :: Schedule where
  "sched0 = \<lparr>sSchemaVersion = CurrentScheduleSchemaVersion, sID = ''s'', sTenantID = ''t'',
     sCreatedAt = instant 0, sUpdatedAt = instant 0, sCreatedBy = [], sCallbackURL = ''http://h'',
     sPayload = [], sHeaders = [(''X-A'', ''1'')], sScheduleType = ScheduleTypeRecurring,
     sFirstRunAt = instant 0, sRecurrence = Some hourly, sTimezone = ''UTC'', sMaxAttempts = 3,
     sRetryBackoff = backoff30s, sCallTimeout = None, sCatchUpPolicy = CatchUpPolicyAll,
     sStatus = ScheduleStatusActive, sNextRunAt = Some (instant 0)\<rparr>"

definition sched1 :: Schedule where
  "sched1 = sched0\<lparr>sNextRunAt := Some (instant 3600)\<rparr>"

definition exec0 :: Execution where
  "exec0 = claimedExecution claimE (instant 1)"

definition attempt0 :: Attempt where
  "attempt0 = recordedAttempt recordA exec0"

definition exec1 :: Execution where
  "exec1 = exec0\<lparr>eAttemptCount := 1, eLastAttemptID := ''a'', eLastRetryAt := None\<rparr>"

definition exec2 :: Execution where
  "exec2 = exec1\<lparr>eStatus := ExecutionStatusSucceeded, eFinalOutcome := ''success'',
     eCompletedAt := Some (instant 3), eOwnerNodeID := []\<rparr>"

definition store1 :: "row mem" where
  "store1 = [((bucketSchedulesByStatus, ''t:active:s''), NoValue), ((bucketSchedules, ''t:s''), ScheduleRow sched0)]"

definition store2 :: "row mem" where
  "store2 = [((bucketExecutionsBySchedule, ''t:s:e''), NoValue), ((bucketExecutionsByStatus, ''t:in_flight:e''), NoValue),
     ((bucketExecutions, ''t:e''), ExecutionRow exec0)] @ store1"

definition store3 :: "row mem" where
  "store3 = [((bucketExecutionsBySchedule, ''t:s:e''), NoValue), ((bucketExecutionsByStatus, ''t:in_flight:e''), NoValue),
     ((bucketExecutions, ''t:e''), ExecutionRow exec1),
     ((bucketAttemptsByExecution, ''t:e:a''), NoValue), ((bucketAttempts, ''t:a''), AttemptRow attempt0),
     ((bucketExecutionsBySchedule, ''t:s:e''), NoValue), ((bucketExecutions, ''t:e''), ExecutionRow exec0)] @ store1"

definition store3a :: "row mem" where
  "store3a = [((bucketExecutionsBySchedule, ''t:s:e''), NoValue), ((bucketExecutionsByStatus, ''t:succeeded:e''), NoValue),
     ((bucketExecutions, ''t:e''), ExecutionRow exec2),
     ((bucketExecutionsBySchedule, ''t:s:e''), NoValue), ((bucketExecutions, ''t:e''), ExecutionRow exec1),
     ((bucketAttemptsByExecution, ''t:e:a''), NoValue), ((bucketAttempts, ''t:a''), AttemptRow attempt0),
     ((bucketExecutionsBySchedule, ''t:s:e''), NoValue), ((bucketExecutions, ''t:e''), ExecutionRow exec0)] @ store1"

definition store4 :: "row mem" where
  "store4 = [((bucketSchedulesByStatus, ''t:active:s''), NoValue), ((bucketSchedules, ''t:s''), ScheduleRow sched1),
     ((bucketExecutionsBySchedule, ''t:s:e''), NoValue), ((bucketExecutionsByStatus, ''t:succeeded:e''), NoValue),
     ((bucketExecutions, ''t:e''), ExecutionRow exec2),
     ((bucketExecutionsBySchedule, ''t:s:e''), NoValue), ((bucketExecutions, ''t:e''), ExecutionRow exec1),
     ((bucketAttemptsByExecution, ''t:e:a''), NoValue), ((bucketAttempts, ''t:a''), AttemptRow attempt0),
     ((bucketExecutionsBySchedule, ''t:s:e''), NoValue), ((bucketExecutions, ''t:e''), ExecutionRow exec0),
     ((bucketSchedules, ''t:s''), ScheduleRow sched0)]"

lemma instants:
  "jsonTimeOK (instant 0)" "jsonTimeOK (instant 1)" "jsonTimeOK (instant 2)" "jsonTimeOK (instant 3)"
  "jsonTimeOK (instant 3600)" "jsonTimeOK ZeroTime"
  "\<not> IsZero (instant 0)" "\<not> IsZero (instant 1)" "\<not> IsZero (instant 2)"
  by code_simp+

lemma demo_runs:
  "ComputeNextRunOnOrAfter utcPlatform (Some hourly) ''UTC'' (instant 0) (instant 0) = Inr (Some (instant 0))"
  "ComputeNextRunAfter utcPlatform (Some hourly) ''UTC'' (instant 0) (instant 0) = Inr (Some (instant 3600))"
  by code_simp+

lemma demo_headers: "reservedIn [(''X-A'', ''1'')] = []"
  by code_simp

lemma demo_sel:
  "sID sched0 = ''s''" "sTenantID sched0 = ''t''" "sStatus sched0 = ScheduleStatusActive"
  "sScheduleType sched0 = ScheduleTypeRecurring" "sRecurrence sched0 = Some hourly" "sFirstRunAt sched0 = instant 0"
  "sID sched1 = ''s''" "sTenantID sched1 = ''t''" "sStatus sched1 = ScheduleStatusActive"
  "marshalSchedule sched0 = Inr (ScheduleRow sched0)" "marshalSchedule sched1 = Inr (ScheduleRow sched1)"
  "eID exec0 = ''e''" "eTenantID exec0 = ''t''" "eScheduleID exec0 = ''s''" "eStatus exec0 = ExecutionStatusInFlight"
  "eOwnerNodeID exec0 = ''n1''" "eAttemptCount exec0 = 0" "eScheduledFor exec0 = instant 0"
  "marshalExecution exec0 = Inr (ExecutionRow exec0)"
  "eID exec1 = ''e''" "eTenantID exec1 = ''t''" "eScheduleID exec1 = ''s''" "eStatus exec1 = ExecutionStatusInFlight"
  "eScheduledFor exec1 = instant 0" "marshalExecution exec1 = Inr (ExecutionRow exec1)"
  "eID exec2 = ''e''" "eTenantID exec2 = ''t''" "eScheduleID exec2 = ''s''" "eStatus exec2 = ExecutionStatusSucceeded"
  "eScheduledFor exec2 = instant 0" "marshalExecution exec2 = Inr (ExecutionRow exec2)"
  "aID attempt0 = ''a''" "aTenantID attempt0 = ''t''" "aExecutionID attempt0 = ''e''"
  "marshalAttempt attempt0 = Inr (AttemptRow attempt0)"
  by (simp_all add: sched0_def sched1_def exec0_def exec1_def exec2_def attempt0_def claimedExecution_def claimE_def
      recordedAttempt_def recordA_def marshalSchedule_def marshalExecution_def marshalAttempt_def instants optTimeOK_def)

lemmas mem_simps = boltTx_def boltPutSchedule_def boltGetSchedule_def boltPutExecution_def boltGetExecution_def
  boltPutAttempt_def boltGetAttempt_def getRow_def memBolt_def memPut_def key_defs

section \<open>The run\<close>

lemma put_sched0: "PutSchedule (boltTx memBolt) [] sched0 = Inr store1"
  by (simp add: mem_simps demo_sel store1_def schedule_status_defs)

lemma put_exec0: "PutExecution (boltTx memBolt) store1 exec0 = Inr store2"
  by (simp add: mem_simps demo_sel store1_def store2_def execution_status_defs)

lemma put_attempt0:
  "PutAttempt (boltTx memBolt) store2 attempt0 =
     Inr ([((bucketAttemptsByExecution, ''t:e:a''), NoValue), ((bucketAttempts, ''t:a''), AttemptRow attempt0)] @ store2)"
  by (simp add: mem_simps demo_sel)

lemma put_exec1:
  "PutExecution (boltTx memBolt)
     ([((bucketAttemptsByExecution, ''t:e:a''), NoValue), ((bucketAttempts, ''t:a''), AttemptRow attempt0)] @ store2) exec1 =
     Inr store3"
  by (simp add: mem_simps demo_sel store1_def store2_def store3_def execution_status_defs)

lemma put_exec2: "PutExecution (boltTx memBolt) store3 exec2 = Inr store3a"
  by (simp add: mem_simps demo_sel store1_def store3a_def store3_def execution_status_defs)

lemma put_sched1: "PutSchedule (boltTx memBolt) store3a sched1 = Inr store4"
  by (simp add: mem_simps demo_sel store1_def store3a_def store4_def schedule_status_defs)

lemma mem_update: "f s = Inr (s', r) \<Longrightarrow> storageUpdate memBolt s f = (s', Inr r)"
  by (simp add: storageUpdate_def memBolt_def)

lemma mem_apply:
  "Dispatch (boltTx memBolt) P s c (instant n) = Inr (s', r) \<Longrightarrow> Apply memBolt P s (Inr (entry c n)) = (s', Applied r)"
  by (simp add: Apply_def entry_def mem_update)

lemma demo_gets:
  "GetSchedule (boltTx memBolt) [] ''t'' ''s'' = Inr None"
  "ListExecutionsBySchedule (boltTx memBolt) store1 ''t'' ''s'' = ([], None)"
  "GetExecution (boltTx memBolt) store2 ''t'' ''e'' = Inr (Some exec0)"
  "GetExecution (boltTx memBolt) store3 ''t'' ''e'' = Inr (Some exec1)"
  "GetSchedule (boltTx memBolt) store3a ''t'' ''s'' = Inr (Some sched0)"
  by (simp_all add: mem_simps boltListExecutionsBySchedule_def scanIndex_def memItems_def memKeys_def
      store1_def store2_def store3_def store3a_def)

lemma demo_apply1: "Apply memBolt utcPlatform [] (Inr (entry (CreateSchedule createS) 0)) = (store1, Applied (ResSchedule sched0))"
proof (rule mem_apply)
  show "Dispatch (boltTx memBolt) utcPlatform [] (CreateSchedule createS) (instant 0) = Inr (store1, ResSchedule sched0)"
    using put_sched0 unfolding sched0_def
    by (simp add: ApplyCreateSchedule_def createS_def demo_runs validateHeaders_def demo_headers demo_gets Let_def withResult_def)
qed

lemma demo_apply2: "Apply memBolt utcPlatform store1 (Inr (entry (ClaimExecution claimE) 1)) = (store2, Applied (ResExecution exec0))"
proof (rule mem_apply)
  show "Dispatch (boltTx memBolt) utcPlatform store1 (ClaimExecution claimE) (instant 1) = Inr (store2, ResExecution exec0)"
    using put_exec0 unfolding exec0_def
    by (simp add: ApplyClaimExecution_def claimE_def instants demo_gets Let_def withResult_def)
qed

lemma demo_apply3: "Apply memBolt utcPlatform store2 (Inr (entry (RecordAttempt recordA) 2)) = (store3, Applied (ResAttempt attempt0))"
proof (rule mem_apply)
  have "recordedAttempt recordA exec0 = attempt0" "exec0\<lparr>eAttemptCount := 1, eLastAttemptID := ''a'', eLastRetryAt := None\<rparr> = exec1"
    by (simp_all add: attempt0_def exec1_def)
  then show "Dispatch (boltTx memBolt) utcPlatform store2 (RecordAttempt recordA) (instant 2) = Inr (store3, ResAttempt attempt0)"
    using put_exec1 put_attempt0
    by (simp add: ApplyRecordAttempt_def recordA_def instants demo_gets demo_sel Let_def withResult_def outcome_defs)
qed

lemma demo_apply4: "Apply memBolt utcPlatform store3 (Inr (entry (CompleteExecution completeE) 3)) = (store4, Applied (ResExecution exec2))"
proof (rule mem_apply)
  have "advancedSchedule utcPlatform msg exec1 sched0 = Inr sched1" for msg
    by (simp add: advancedSchedule_def demo_sel demo_runs sched1_def)
  then show "Dispatch (boltTx memBolt) utcPlatform store3 (CompleteExecution completeE) (instant 3) = Inr (store4, ResExecution exec2)"
    using put_exec2 put_sched1 unfolding exec2_def
    by (simp add: ApplyCompleteExecution_def completeE_def finishExecution_def demo_gets demo_sel withResult_def)
      (simp add: execution_status_defs)
qed

lemmas demo_steps = demo_apply1 demo_apply2 demo_apply3 demo_apply4

lemma demo_views:
  "dbSchedules (store_view memBolt store1) (''t'', ''s'') = Some sched0"
  "dbExecutions (store_view memBolt store1) (''t'', ''e'') = None"
  "dbExecutions (store_view memBolt store2) (''t'', ''e'') = Some exec0"
  "dbSchedules (store_view memBolt store2) (''t'', ''s'') = Some sched0"
  "dbAttempts (store_view memBolt store2) (''t'', ''a'') = None"
  "dbExecutions (store_view memBolt store3) (''t'', ''e'') = Some exec1"
  "dbAttempts (store_view memBolt store3) (''t'', ''a'') = Some attempt0"
  "dbExecutions (store_view memBolt store4) (''t'', ''e'') = Some exec2"
  "dbSchedules (store_view memBolt store4) (''t'', ''s'') = Some sched1"
  by (simp_all add: store_view_def memBolt_def store1_def store2_def store3_def store4_def no_colon_def key_defs)

lemma demo_admissible:
  "admissible (store_view memBolt []) (CreateSchedule createS)"
  "admissible (store_view memBolt store1) (ClaimExecution claimE)"
  "admissible (store_view memBolt store2) (RecordAttempt recordA)"
  "admissible (store_view memBolt store3) (CompleteExecution completeE)"
  by (simp_all add: admissible_def createS_def claimE_def recordA_def completeE_def no_colon_def demo_views)

lemma entry_payload [simp]: "lePayload (entry c n) = c"
  by (simp add: entry_def)

lemma demo_log_admissible: "admissible_log memBolt utcPlatform memEmpty demoLog"
  by (simp add: demoLog_def memEmpty_def demo_steps demo_admissible)

lemma demo_replay: "replay memBolt utcPlatform memEmpty demoLog =
    (store4, [Applied (ResSchedule sched0), Applied (ResExecution exec0), Applied (ResAttempt attempt0),
      Applied (ResExecution exec2)])"
  by (simp add: demoLog_def memEmpty_def demo_steps)

lemma demo_reachable:
  "reachable memBolt utcPlatform []" "reachable memBolt utcPlatform store1" "reachable memBolt utcPlatform store2"
  "reachable memBolt utcPlatform store3" "reachable memBolt utcPlatform store4"
proof -
  show 0: "reachable memBolt utcPlatform []" by (rule reachable.initial) (simp add: empty_store_def memBolt_def)
  show 1: "reachable memBolt utcPlatform store1"
    using reachable.applied [OF 0, of "entry (CreateSchedule createS) 0"] demo_admissible demo_steps by simp
  show 2: "reachable memBolt utcPlatform store2"
    using reachable.applied [OF 1, of "entry (ClaimExecution claimE) 1"] demo_admissible demo_steps by simp
  show 3: "reachable memBolt utcPlatform store3"
    using reachable.applied [OF 2, of "entry (RecordAttempt recordA) 2"] demo_admissible demo_steps by simp
  show "reachable memBolt utcPlatform store4"
    using reachable.applied [OF 3, of "entry (CompleteExecution completeE) 3"] demo_admissible demo_steps by simp
qed

text \<open>The same schedule canceled instead of claimed.\<close>

definition cancelS :: CancelScheduleCommand where
  "cancelS = \<lparr>xsTenantID = ''t'', xsID = ''s''\<rparr>"

definition schedC :: Schedule where
  "schedC = sched0\<lparr>sStatus := ScheduleStatusCanceled, sNextRunAt := None, sUpdatedAt := instant 1\<rparr>"

definition storeC :: "row mem" where
  "storeC = [((bucketSchedulesByStatus, ''t:canceled:s''), NoValue), ((bucketSchedules, ''t:s''), ScheduleRow schedC),
     ((bucketSchedules, ''t:s''), ScheduleRow sched0)]"

lemma schedC_sel:
  "sID schedC = ''s''" "sTenantID schedC = ''t''" "sStatus schedC = ScheduleStatusCanceled"
  "marshalSchedule schedC = Inr (ScheduleRow schedC)"
  by (simp_all add: schedC_def sched0_def marshalSchedule_def instants optTimeOK_def)

lemma demo_cancel:
  "Apply memBolt utcPlatform store1 (Inr (entry (CancelSchedule cancelS) 1)) = (storeC, Applied (ResSchedule schedC))"
proof (rule mem_apply)
  have p: "PutSchedule (boltTx memBolt) store1 schedC = Inr storeC"
    by (simp add: mem_simps demo_sel schedC_sel store1_def storeC_def schedule_status_defs)
  have g: "GetSchedule (boltTx memBolt) store1 ''t'' ''s'' = Inr (Some sched0)"
    by (simp add: mem_simps store1_def)
  show "Dispatch (boltTx memBolt) utcPlatform store1 (CancelSchedule cancelS) (instant 1) = Inr (storeC, ResSchedule schedC)"
    using p g unfolding schedC_def by (simp add: ApplyCancelSchedule_def cancelS_def demo_sel withResult_def)
qed

lemma demo_canceled:
  "dbSchedules (store_view memBolt storeC) (''t'', ''s'') = Some schedC"
  "dbExecutions (store_view memBolt storeC) (''t'', ''e'') = None"
  "reachable memBolt utcPlatform storeC"
  "sStatus schedC = ScheduleStatusCanceled"
proof -
  show "reachable memBolt utcPlatform storeC"
    using reachable.applied [OF demo_reachable(2), of "entry (CancelSchedule cancelS) 1"] demo_cancel
    by (simp add: admissible_def cancelS_def no_colon_def)
qed (simp_all add: store_view_def memBolt_def storeC_def no_colon_def key_defs schedC_sel)

end
