(* ===== verification/Pagination.thy ===== *)
theory Pagination
  imports StorageCorrect
begin

text \<open>
  The paginated listings return, page by page, exactly what the full listing returns: a page
  holds the next rows after its cursor, up to the limit, and the next cursor is empty only
  on the last page. Reading until the cursor is empty yields the whole listing.
\<close>

section \<open>One page\<close>

text \<open>The page of at most \<open>limit\<close> rows after a cursor, and the cursor to the next one.\<close>

definition pageAfter :: "('r \<Rightarrow> string) \<Rightarrow> 'r list \<Rightarrow> nat \<Rightarrow> string \<Rightarrow> 'r list \<times> string" where
  "pageAfter idOf xs limit cursor =
     (let rest = (if cursor = [] then xs else filter (\<lambda>x. cursor < idOf x) xs); page = take limit rest
      in (page, if limit < length rest then idOf (last page) else []))"

lemma pageLoop_take:
  assumes "map fst (takeWhile (\<lambda>(k, v). matches k) kvs) = map key xs"
    and "\<And>x v. x \<in> set xs \<Longrightarrow> fetch (key x, v) = Inr x"
    and "length acc \<le> limit" "0 < limit"
  shows "pageLoop matches fetch idOf (int limit) acc kvs =
    Inr (rev acc @ take (limit - length acc) xs,
      if limit - length acc < length xs then idOf (last (rev acc @ take (limit - length acc) xs)) else [])"
  using assms
proof (induction kvs arbitrary: xs acc)
  case (Cons kv kvs)
  obtain k v where kv: "kv = (k, v)" by fastforce
  show ?case
  proof (cases "matches k")
    case False
    with Cons.prems kv show ?thesis by simp
  next
    case True
    with Cons.prems(1) kv obtain x xs' where xs: "xs = x # xs'" "k = key x"
      "map fst (takeWhile (\<lambda>(k, v). matches k) kvs) = map key xs'"
      by (cases xs) auto
    show ?thesis
    proof (cases "length acc = limit")
      case True
      with Cons.prems(4) obtain a acc' where "acc = a # acc'" by (cases acc) auto
      with True \<open>matches k\<close> kv xs show ?thesis by simp
    next
      case False
      then have l: "limit - length acc = Suc (limit - length (x # acc))" "length (x # acc) \<le> limit"
        using Cons.prems(3) by simp_all
      have "pageLoop matches fetch idOf (int limit) (x # acc) kvs =
          Inr (rev (x # acc) @ take (limit - length (x # acc)) xs',
            if limit - length (x # acc) < length xs' then idOf (last (rev (x # acc) @ take (limit - length (x # acc)) xs')) else [])"
        using Cons.prems(2,4) xs(1) by (intro Cons.IH [OF xs(3) _ l(2)]) simp_all
      then show ?thesis using False \<open>matches k\<close> kv xs Cons.prems(2) unfolding l(1) by simp
    qed
  qed
qed simp

lemma resumeAt_filter:
  assumes "sorted_keys kvs" "startKey = p @ cursor"
  shows "resumeAt cursor startKey (filter (\<lambda>(k, _). startKey \<le> k) kvs) =
    filter (\<lambda>(k, _). if cursor = [] then startKey \<le> k else startKey < k) kvs"
proof (cases "cursor = []")
  case False
  have "resumeAt cursor startKey (filter (\<lambda>(k, _). startKey \<le> k) kvs) = filter (\<lambda>(k, _). startKey < k) kvs"
    using assms(1)
  proof (induction kvs)
    case (Cons kv kvs)
    obtain k v where kv: "kv = (k, v)" by fastforce
    consider "k < startKey" | "k = startKey" | "startKey < k" by fastforce
    then show ?case
    proof cases
      case 1
      then have "\<not> startKey \<le> k" "\<not> startKey < k" by auto
      with Cons kv show ?thesis by simp
    next
      case 2
      from Cons.prems kv 2 have "\<forall>(k', v') \<in> set kvs. startKey < k'" by auto
      then have "filter (\<lambda>(k, _). startKey \<le> k) kvs = kvs" "filter (\<lambda>(k, _). startKey < k) kvs = kvs"
        by (auto simp: filter_id_conv)
      with 2 False kv show ?thesis by (simp add: resumeAt_def)
    next
      case 3
      from Cons.prems kv 3 have "\<forall>(k', v') \<in> set kvs. startKey < k'" by fastforce
      then have "filter (\<lambda>(k, _). startKey \<le> k) kvs = kvs" "filter (\<lambda>(k, _). startKey < k) kvs = kvs"
        by (auto simp: filter_id_conv)
      with 3 kv show ?thesis by (auto simp: resumeAt_def)
    qed
  qed (simp add: resumeAt_def)
  with False show ?thesis by simp
qed (simp add: resumeAt_def)

context row_store
begin

lemma page_index:
  assumes keys: "map fst (filter (\<lambda>(k, v). prefix p k) (bFirst B s b)) = map (\<lambda>x. p @ idf x) xs"
    and get: "\<And>x. x \<in> set xs \<Longrightarrow> get (idf x) = Inr (Some x)" and limit: "0 < limit"
  shows "pageIndex B s b p get missing idf (int limit) cursor = Inr (pageAfter idf xs limit cursor)"
proof -
  define start where "start = p @ cursor"
  define above where "above k \<longleftrightarrow> (if cursor = [] then start \<le> k else start < k)" for k
  define kvs where "kvs = resumeAt cursor start (bSeek B s b start)"
  define rest where "rest = (if cursor = [] then xs else filter (\<lambda>x. cursor < idf x) xs)"
  have kvs: "kvs = filter (\<lambda>(k, _). above k) (bFirst B s b)"
    unfolding kvs_def seek_filter above_def by (rule resumeAt_filter [OF first_sorted start_def])
  have "sorted_keys kvs" unfolding kvs using first_sorted [of s b] by (simp add: sorted_wrt_map sorted_wrt_filter)
  moreover have "\<forall>(k, v) \<in> set kvs. p \<le> k"
    unfolding kvs above_def start_def
    by (auto split: if_splits) (metis append.right_neutral append_le_iff Nil_le_Cons neq_Nil_conv less_imp_le order_trans)
  ultimately have "takeWhile (\<lambda>(k, v). prefix p k) kvs = filter (\<lambda>(k, v). prefix p k) kvs"
    by (rule takeWhile_prefix_filter)
  also have "\<dots> = filter (\<lambda>(k, v). above k) (filter (\<lambda>(k, v). prefix p k) (bFirst B s b))"
    unfolding kvs filter_filter by (rule filter_cong) auto
  finally have "map fst (takeWhile (\<lambda>(k, v). prefix p k) kvs) =
      filter above (map fst (filter (\<lambda>(k, v). prefix p k) (bFirst B s b)))"
    by (simp add: filter_map comp_def split_def)
  also have "\<dots> = map (\<lambda>x. p @ idf x) rest"
    unfolding keys rest_def above_def start_def by (auto simp: filter_map comp_def filter_id_conv prefix_imp_le)
  finally have k: "map fst (takeWhile (\<lambda>(k, v). prefix p k) kvs) = map (\<lambda>x. p @ idf x) rest" .
  have fetch: "fetchIndexed p get missing (p @ idf x, v) = Inr x" if "x \<in> set rest" for x v
    using get that by (simp add: fetchIndexed_def rest_def split: if_splits)
  have "pageLoop (prefix p) (fetchIndexed p get missing) idf (int limit) [] kvs =
      Inr (take limit rest, if limit < length rest then idf (last (take limit rest)) else [])"
    using pageLoop_take [OF k fetch, of "[]" limit idf] limit by simp
  moreover have "(if cursor \<noteq> [] then p @ cursor else p) = start" by (simp add: start_def)
  ultimately show ?thesis using limit
    unfolding pageIndex_def Let_def pageAfter_def kvs_def rest_def by simp
qed

text \<open>Every page of an index is a page of its full scan.\<close>

lemma scan_pages:
  assumes idx: "index_ok B s b (\<lambda>x. indexKey (tn x) (md x) (idf x)) X"
    and ok: "\<And>x. x \<in> X \<Longrightarrow> no_colon (tn x) \<and> no_colon (md x)" and t: "no_colon t" "no_colon m"
    and get: "\<And>x. x \<in> X \<Longrightarrow> tn x = t \<Longrightarrow> get (idf x) = Inr (Some x)" and limit: "0 < limit"
  shows "\<exists>xs. scanIndex B s b (indexKey t m []) get missing = (xs, None) \<and> sorted_wrt (\<lambda>x y. idf x < idf y) xs \<and>
    set xs \<subseteq> X \<and> (\<forall>cursor. pageIndex B s b (indexKey t m []) get missing idf (int limit) cursor = Inr (pageAfter idf xs limit cursor))"
proof (rule scan_index [OF idx ok t get])
  fix xs assume xs: "scanIndex B s b (indexKey t m []) get missing = (xs, None)"
    "map fst (filter (\<lambda>(k, v). prefix (indexKey t m []) k) (bFirst B s b)) = map (\<lambda>x. indexKey t m (idf x)) xs"
    "sorted_wrt (\<lambda>x y. idf x < idf y) xs" "set xs = {x \<in> X. tn x = t \<and> md x = m}"
  from xs(2) have k: "map fst (filter (\<lambda>(k, v). prefix (indexKey t m []) k) (bFirst B s b)) = map (\<lambda>x. indexKey t m [] @ idf x) xs"
    by (simp add: indexKey_append)
  have "pageIndex B s b (indexKey t m []) get missing idf (int limit) cursor = Inr (pageAfter idf xs limit cursor)" for cursor
    using xs(4) get by (intro page_index [OF k _ limit]) auto
  with xs show ?thesis by auto
qed

lemma pages_of_store:
  assumes inv: "store_inv B s" and t: "no_colon t" "no_colon j" and limit: "0 < limit"
  shows "\<exists>xs. boltListExecutionsBySchedule B s t j = (xs, None) \<and> sorted_wrt (\<lambda>x y. eID x < eID y) xs \<and> set xs \<subseteq> executions_of B s \<and>
      (\<forall>cursor. boltListExecutionsBySchedulePage B s t j (int limit) cursor = Inr (pageAfter eID xs limit cursor))"
    and "\<exists>xs. boltListExecutionsByStatus B s t j = (xs, None) \<and> sorted_wrt (\<lambda>x y. eID x < eID y) xs \<and> set xs \<subseteq> executions_of B s \<and>
      (\<forall>cursor. boltListExecutionsByStatusPage B s t j (int limit) cursor = Inr (pageAfter eID xs limit cursor))"
    and "\<exists>xs. boltListAttemptsByExecution B s t j = (xs, None) \<and> sorted_wrt (\<lambda>x y. aID x < aID y) xs \<and> set xs \<subseteq> attempts_of B s \<and>
      (\<forall>cursor. boltListAttemptsByExecutionPage B s t j (int limit) cursor = Inr (pageAfter aID xs limit cursor))"
proof -
  from inv have i: "executions_inv B s" "attempts_inv B s" by (simp_all add: store_inv_def)
  have ge: "boltGetExecution B s t (eID e) = Inr (Some e)" if "e \<in> executions_of B s" "eTenantID e = t" for e
    using that get_laws(2) [OF inv t(1)] view_lookup(2) [OF inv, of t "eID e" e] by simp
  have ga: "boltGetAttempt B s t (aID a) = Inr (Some a)" if "a \<in> attempts_of B s" "aTenantID a = t" for a
    using that get_laws(3) [OF inv t(1)] view_lookup(3) [OF inv, of t "aID a" a] by simp
  note defs = boltListExecutionsBySchedule_def boltListExecutionsBySchedulePage_def boltListExecutionsByStatus_def
    boltListExecutionsByStatusPage_def boltListAttemptsByExecution_def boltListAttemptsByExecutionPage_def index_keys
  show "\<exists>xs. boltListExecutionsBySchedule B s t j = (xs, None) \<and> sorted_wrt (\<lambda>x y. eID x < eID y) xs \<and> set xs \<subseteq> executions_of B s \<and>
      (\<forall>cursor. boltListExecutionsBySchedulePage B s t j (int limit) cursor = Inr (pageAfter eID xs limit cursor))"
    unfolding defs using i(1) executions_of_ok [OF i(1)] ge
    by (intro scan_pages [where tn = eTenantID and md = eScheduleID, OF _ _ t _ limit]) (auto simp: executions_inv_def index_keys)
  show "\<exists>xs. boltListExecutionsByStatus B s t j = (xs, None) \<and> sorted_wrt (\<lambda>x y. eID x < eID y) xs \<and> set xs \<subseteq> executions_of B s \<and>
      (\<forall>cursor. boltListExecutionsByStatusPage B s t j (int limit) cursor = Inr (pageAfter eID xs limit cursor))"
    unfolding defs using i(1) executions_of_ok [OF i(1)] ge
    by (intro scan_pages [where tn = eTenantID and md = eStatus, OF _ _ t _ limit]) (auto simp: executions_inv_def index_keys)
  show "\<exists>xs. boltListAttemptsByExecution B s t j = (xs, None) \<and> sorted_wrt (\<lambda>x y. aID x < aID y) xs \<and> set xs \<subseteq> attempts_of B s \<and>
      (\<forall>cursor. boltListAttemptsByExecutionPage B s t j (int limit) cursor = Inr (pageAfter aID xs limit cursor))"
    unfolding defs using i(2) attempts_of_ok [OF i(2)] ga
    by (intro scan_pages [where tn = aTenantID and md = aExecutionID, OF _ _ t _ limit]) (auto simp: attempts_inv_def index_keys)
qed

end

section \<open>All pages\<close>

text \<open>A client that reads pages until the next cursor is empty, at most \<open>n\<close> of them.\<close>

fun collectPages :: "nat \<Rightarrow> (string \<Rightarrow> 'r list \<times> string) \<Rightarrow> string \<Rightarrow> 'r list" where
  "collectPages 0 page cursor = []"
| "collectPages (Suc n) page cursor =
     (let (xs, next) = page cursor in xs @ (if next = [] then [] else collectPages n page next))"

lemma sorted_filter_after:
  assumes "sorted_wrt (\<lambda>x y. idOf x < (idOf y :: string)) (ys @ x # zs)"
  shows "filter (\<lambda>z. idOf x < idOf z) (ys @ x # zs) = zs"
proof -
  from assms have "\<forall>y \<in> set ys. \<not> idOf x < idOf y" "\<forall>z \<in> set zs. idOf x < idOf z"
    by (auto simp: sorted_wrt_append dest: less_asym)
  then show ?thesis by (simp add: filter_empty_conv filter_id_conv)
qed

lemma collectPages_rest:
  assumes "sorted_wrt (\<lambda>x y. idOf x < (idOf y :: string)) xs" "\<And>x. x \<in> set xs \<Longrightarrow> idOf x \<noteq> []" "0 < limit"
    and "rest = (if cursor = [] then xs else filter (\<lambda>x. cursor < idOf x) xs)" "length rest < n"
    and "\<exists>done. xs = done @ rest"
  shows "collectPages n (pageAfter idOf xs limit) cursor = rest"
  using assms(4-)
proof (induction n arbitrary: cursor rest)
  case (Suc n)
  have page: "pageAfter idOf xs limit cursor =
      (take limit rest, if limit < length rest then idOf (last (take limit rest)) else [])"
    unfolding pageAfter_def Let_def Suc.prems(1) ..
  show ?case
  proof (cases "limit < length rest")
    case False
    with page show ?thesis by simp
  next
    case True
    define x where "x = last (take limit rest)"
    have "take limit rest \<noteq> []" using True assms(3) by auto
    then have split: "take limit rest = butlast (take limit rest) @ [x]" by (simp add: x_def)
    from Suc.prems(3) obtain dn where dn: "xs = dn @ rest" by blast
    have xs: "xs = (dn @ butlast (take limit rest)) @ x # drop limit rest"
      unfolding dn append_assoc by (subst append_take_drop_id [of limit rest, symmetric], subst split) simp
    then have "x \<in> set xs" "filter (\<lambda>z. idOf x < idOf z) xs = drop limit rest"
      using assms(1) sorted_filter_after [of idOf "dn @ butlast (take limit rest)" x "drop limit rest"] by (metis in_set_conv_decomp)+
    moreover have "idOf x \<noteq> []" using assms(2) \<open>x \<in> set xs\<close> by blast
    ultimately have "collectPages n (pageAfter idOf xs limit) (idOf x) = drop limit rest"
      using Suc.prems(2) True assms(3) dn by (intro Suc.IH) (auto intro!: exI [of _ "dn @ take limit rest"])
    with page True \<open>idOf x \<noteq> []\<close> show ?thesis by (simp add: x_def)
  qed
qed simp

lemma collectPages_all:
  assumes "sorted_wrt (\<lambda>x y. idOf x < (idOf y :: string)) xs" "\<And>x. x \<in> set xs \<Longrightarrow> idOf x \<noteq> []" "0 < limit"
  shows "collectPages (Suc (length xs)) (pageAfter idOf xs limit) [] = xs"
  by (rule collectPages_rest [OF assms]) auto

text \<open>A listing whose pages are given by its full scan is what reading its pages collects.\<close>

lemma listing_collected:
  assumes "\<exists>xs. full = (xs, None) \<and> sorted_wrt (\<lambda>x y. idOf x < (idOf y :: string)) xs \<and> set xs \<subseteq> X \<and> Q xs"
    and "\<And>x. x \<in> X \<Longrightarrow> idOf x \<noteq> []" "0 < limit"
  shows "\<exists>xs. full = (xs, None) \<and> Q xs \<and> collectPages (Suc (length xs)) (pageAfter idOf xs limit) [] = xs"
proof -
  from assms(1) obtain xs where xs: "full = (xs, None)" "sorted_wrt (\<lambda>x y. idOf x < idOf y) xs" "set xs \<subseteq> X" "Q xs" by blast
  then have "collectPages (Suc (length xs)) (pageAfter idOf xs limit) [] = xs"
    using assms(2,3) by (intro collectPages_all) auto
  with xs(1,4) show ?thesis by blast
qed

end
