(* ===== verification/Worker.thy ===== *)
theory Worker
  imports StateMachine
begin

text \<open>
  The leader's worker, \<open>internal/scheduler/worker.go\<close>: recovery of the executions a previous
  leader left in flight, the periodic tick that claims due runs and queues tasks, and the
  tasks that call the callback URL, record the attempt and complete the execution.

  A goroutine is a program in the type \<open>prog\<close>: the calls it makes to the outside (reads and
  proposals through the Raft node, the HTTP call, the clock, the ID generator, its context,
  the task queue), each with the continuation the answer is handed to. The code between
  two calls is a pure function, so the programs below are the Go functions cut at their
  calls. Log output is left out.
\<close>

section \<open>HTTP\<close>

record HttpRequest =
  hqMethod :: string
  hqURL :: string
  hqHeaders :: "(string \<times> string) list"
  hqBody :: string
  hqTimeout :: int

record HttpResponse =
  hrStatus :: int
  hrHeader :: "(string \<times> string list) list"
  hrBody :: string

text \<open>
  What \<open>httpClient.Do\<close> returns: a response, an error, or, after a failed redirect, both. The
  code only asks whether an error is \<open>context.Canceled\<close>. A body is the bytes that arrive
  before its end or before an error that cuts it short.
\<close>

datatype doError = Canceled | DoFailed goerror

type_synonym HttpResult = "HttpResponse option \<times> doError option"

text \<open>\<open>http.Header.Set\<close>: the canonical form of the key, the value in place of any other.\<close>

definition headerSet :: "(string \<times> string) list \<Rightarrow> string \<times> string \<Rightarrow> (string \<times> string) list" where
  "headerSet h kv = (CanonicalMIMEHeaderKey (fst kv), snd kv) # filter (\<lambda>e. fst e \<noteq> CanonicalMIMEHeaderKey (fst kv)) h"

section \<open>Programs\<close>

datatype Task = FreshFire Execution | InFlight string Execution

definition KindRetry :: string where "KindRetry = ''retry''"
definition KindTimeout :: string where "KindTimeout = ''timeout''"
definition KindFinalize :: string where "KindFinalize = ''finalize''"

lemmas task_kind_defs = KindRetry_def KindTimeout_def KindFinalize_def

datatype 'a prog =
    Return 'a
  | ReadTenants "Tenant list fallible \<Rightarrow> 'a prog"
  | ReadDue string "Schedule list fallible \<Rightarrow> 'a prog"
  | ReadSchedule string string "Schedule option fallible \<Rightarrow> 'a prog"
  | ReadExecutions string string "Execution list fallible \<Rightarrow> 'a prog"
  | ReadAttempts string string "Attempt list fallible \<Rightarrow> 'a prog"
  | ProposeCmd Command "ApplyResponse fallible \<Rightarrow> 'a prog"
  | SendHttp HttpRequest "HttpResult \<Rightarrow> 'a prog"
  | ReadClock "Time \<Rightarrow> 'a prog"
  | DrawUlid "string \<Rightarrow> 'a prog"
  | CheckCtx "goerror option \<Rightarrow> 'a prog"
  | Enqueue Task "'a prog"
  | WaitTasks "'a prog"

primrec andThenP :: "'a prog \<Rightarrow> ('a \<Rightarrow> 'b prog) \<Rightarrow> 'b prog" where
  "andThenP (Return a) f = f a"
| "andThenP (ReadTenants k) f = ReadTenants (\<lambda>r. andThenP (k r) f)"
| "andThenP (ReadDue t k) f = ReadDue t (\<lambda>r. andThenP (k r) f)"
| "andThenP (ReadSchedule t i k) f = ReadSchedule t i (\<lambda>r. andThenP (k r) f)"
| "andThenP (ReadExecutions t st k) f = ReadExecutions t st (\<lambda>r. andThenP (k r) f)"
| "andThenP (ReadAttempts t i k) f = ReadAttempts t i (\<lambda>r. andThenP (k r) f)"
| "andThenP (ProposeCmd c k) f = ProposeCmd c (\<lambda>r. andThenP (k r) f)"
| "andThenP (SendHttp q k) f = SendHttp q (\<lambda>r. andThenP (k r) f)"
| "andThenP (ReadClock k) f = ReadClock (\<lambda>r. andThenP (k r) f)"
| "andThenP (DrawUlid k) f = DrawUlid (\<lambda>r. andThenP (k r) f)"
| "andThenP (CheckCtx k) f = CheckCtx (\<lambda>r. andThenP (k r) f)"
| "andThenP (Enqueue t k) f = Enqueue t (andThenP k f)"
| "andThenP (WaitTasks k) f = WaitTasks (andThenP k f)"

text \<open>
  \<open>for _, x := range xs { if err := body(x); err != nil { return err } }\<close>; a \<open>continue\<close> in the
  body is a body that returns no error.
\<close>

fun forEach :: "'x list \<Rightarrow> ('x \<Rightarrow> goerror option prog) \<Rightarrow> goerror option prog" where
  "forEach [] body = Return None"
| "forEach (x # xs) body =
     andThenP (body x) (\<lambda>err. case err of Some e \<Rightarrow> Return (Some e) | None \<Rightarrow> forEach xs body)"

text \<open>\<open>if err := ctx.Err(); err != nil { return err }\<close>\<close>

definition unlessCanceled :: "goerror option prog \<Rightarrow> goerror option prog" where
  "unlessCanceled p = CheckCtx (\<lambda>err. case err of Some e \<Rightarrow> Return (Some e) | None \<Rightarrow> p)"

section \<open>Classification\<close>

definition classifyAttemptOutcome :: "int \<Rightarrow> doError option \<Rightarrow> int \<Rightarrow> int \<Rightarrow> string" where
  "classifyAttemptOutcome status doErr attemptNumber maxAttempts =
     (if doErr = None \<and> 200 \<le> status \<and> status < 300 then OutcomeSuccess
      else if 0 < maxAttempts \<and> maxAttempts \<le> attemptNumber then OutcomeTerminalFailure
      else OutcomeRetry)"

definition flattenHeaders :: "(string \<times> string list) list \<Rightarrow> (string \<times> string) list" where
  "flattenHeaders h = map (\<lambda>(k, v). (k, hd v)) (filter (\<lambda>(k, v). v \<noteq> []) h)"

datatype Bucket = BucketNoAttempts | BucketSuccess | BucketTerminalFailure | BucketRetryElapsed | BucketRetryPending

definition classifyOne :: "Attempt list \<Rightarrow> Time \<Rightarrow> Bucket fallible" where
  "classifyOne attempts now =
     (if attempts = [] then Inr BucketNoAttempts
      else let a = last attempts
      in if aOutcome a = OutcomeSuccess then Inr BucketSuccess
         else if aOutcome a = OutcomeTerminalFailure then Inr BucketTerminalFailure
         else if aOutcome a = OutcomeRetry
         then (if \<not> Before now (aRetryAt a) then Inr BucketRetryElapsed else Inr BucketRetryPending)
         else Inl (''unknown outcome value: '' @ aOutcome a))"

section \<open>The worker\<close>

text \<open>
  The fields of \<open>Worker\<close> the code reads, its clients apart. What the standard library decides
  about a callback is in \<open>net\<close>: whether \<open>http.NewRequestWithContext\<close> accepts the URL, and the
  hex form of the SHA-256 of the body.
\<close>

definition defaultPoolSize :: nat where "defaultPoolSize = 8"
definition defaultTickInterval :: int where "defaultTickInterval = 5 * nanosPerSecond"
definition responseExcerptLimit :: nat where "responseExcerptLimit = 4096"
definition taskChCapacity :: nat where "taskChCapacity = 256"

record Worker =
  wNodeID :: string
  wTickInterval :: int
  wPoolSize :: nat
  wDefaultCallTimeout :: int

definition NewWorker :: "string \<Rightarrow> Worker" where
  "NewWorker nodeID = \<lparr>wNodeID = nodeID, wTickInterval = defaultTickInterval, wPoolSize = defaultPoolSize,
     wDefaultCallTimeout = DefaultCallTimeout\<rparr>"

record net =
  NewRequestErr :: "string \<Rightarrow> goerror option"
  Sha256Hex :: "string \<Rightarrow> string"

section \<open>Completing an execution\<close>

text \<open>
  The proposal of \<open>complete_execution\<close> and the reading of its result, as four places of the
  code write it out: a conflict means that the execution was finished elsewhere.
\<close>

definition completeCmd :: "string \<Rightarrow> string \<Rightarrow> string \<Rightarrow> string \<Rightarrow> CompleteExecutionCommand" where
  "completeCmd tenantID execID finalStatus finalOutcome =
     \<lparr>coTenantID = tenantID, coExecutionID = execID, coFinalStatus = finalStatus,
      coFinalOutcome = finalOutcome, coNextRunAt = None\<rparr>"

definition proposeComplete :: "string \<Rightarrow> string \<Rightarrow> string \<Rightarrow> string \<Rightarrow> goerror option prog" where
  "proposeComplete tenantID execID finalStatus finalOutcome =
     ProposeCmd (CompleteExecution (completeCmd tenantID execID finalStatus finalOutcome)) (\<lambda>result.
       case result of
         Inl err \<Rightarrow> Return (Some (''propose complete for execution '' @ execID @ '': '' @ err))
       | Inr (Refused cmdErr) \<Rightarrow>
           if ceKind cmdErr = KindConflict then Return None
           else Return (Some (''complete execution rejected for execution '' @ execID @ '': '' @ ceMessage cmdErr))
       | Inr _ \<Rightarrow> Return None)"

section \<open>One dispatch\<close>

definition callTimeoutOf :: "Worker \<Rightarrow> Schedule \<Rightarrow> int" where
  "callTimeoutOf w schedule = (case sCallTimeout schedule of None \<Rightarrow> wDefaultCallTimeout w | Some d \<Rightarrow> d)"

definition callbackRequest :: "Worker \<Rightarrow> Execution \<Rightarrow> Schedule \<Rightarrow> string \<Rightarrow> HttpRequest" where
  "callbackRequest w exec schedule attemptID =
     \<lparr>hqMethod = ''POST'', hqURL = sCallbackURL schedule,
      hqHeaders = headerSet (headerSet (headerSet (foldl headerSet [] (sHeaders schedule))
          (''Content-Type'', ''application/json''))
          (HeaderIdempotencyKey, eIdempotencyKey exec))
          (HeaderAttemptID, attemptID),
      hqBody = sPayload schedule, hqTimeout = callTimeoutOf w schedule\<rparr>"

definition recordCmd ::
  "platform \<Rightarrow> net \<Rightarrow> string \<Rightarrow> Execution \<Rightarrow> Schedule \<Rightarrow> int \<Rightarrow> string \<Rightarrow> Time \<Rightarrow> Time \<Rightarrow> HttpResult \<Rightarrow> RecordAttemptCommand" where
  "recordCmd P N nodeID exec schedule attemptNumber attemptID startedAt completedAt result =
     (let (resp, doErr) = result;
          respStatus = (case resp of None \<Rightarrow> 0 | Some r \<Rightarrow> hrStatus r);
          outcome = classifyAttemptOutcome respStatus doErr attemptNumber (sMaxAttempts schedule)
      in \<lparr>raTenantID = sTenantID schedule, raExecutionID = eID exec, raID = attemptID, raNodeID = nodeID,
          raStartedAt = Some startedAt, raCompletedAt = Some completedAt, raOutcome = outcome,
          raRetryAt = (if outcome = OutcomeRetry
            then Some (Add completedAt (DelayForAttempt (outOfRange P) (sRetryBackoff schedule) attemptNumber)) else None),
          raRequestURL = sCallbackURL schedule, raRequestHeaders = sHeaders schedule,
          raRequestBodyHash = Sha256Hex N (sPayload schedule), raResponseStatus = respStatus,
          raResponseBodyExcerpt = (case resp of None \<Rightarrow> [] | Some r \<Rightarrow> take responseExcerptLimit (hrBody r)),
          raResponseHeaders = (case resp of None \<Rightarrow> [] | Some r \<Rightarrow> flattenHeaders (hrHeader r))\<rparr>)"

definition finalStatusFor :: "string \<Rightarrow> string" where
  "finalStatusFor outcome =
     (if outcome = OutcomeTerminalFailure then ExecutionStatusFailedTerminal else ExecutionStatusSucceeded)"

text \<open>After the call: record the attempt, and complete the execution unless it is to be retried.\<close>

definition recordAndComplete :: "string \<Rightarrow> RecordAttemptCommand \<Rightarrow> goerror option prog" where
  "recordAndComplete execID cmd =
     ProposeCmd (RecordAttempt cmd) (\<lambda>result.
       case result of
         Inl err \<Rightarrow> Return (Some (''callback for execution '' @ execID @
           '' was dispatched but record_attempt failed to commit (relying on receiver-side idempotency-key dedup for correctness): '' @ err))
       | Inr (Refused cmdErr) \<Rightarrow>
           if ceKind cmdErr = KindConflict then Return None
           else Return (Some (''record attempt rejected for execution '' @ execID @ '': '' @ ceMessage cmdErr))
       | Inr _ \<Rightarrow>
           unlessCanceled
             (if raOutcome cmd \<noteq> OutcomeRetry
              then proposeComplete (raTenantID cmd) execID (finalStatusFor (raOutcome cmd)) (raOutcome cmd)
              else Return None))"

text \<open>
  The part \<open>freshFireTask.run\<close> and \<open>runRetry\<close> have in common, from the read of the schedule on;
  they differ in the attempt number.
\<close>

definition dispatchAttempt :: "platform \<Rightarrow> net \<Rightarrow> Worker \<Rightarrow> Execution \<Rightarrow> int \<Rightarrow> goerror option prog" where
  "dispatchAttempt P N w exec attemptNumber =
     ReadSchedule (eTenantID exec) (eScheduleID exec) (\<lambda>r.
       case r of
         Inl err \<Rightarrow> Return (Some (''get schedule for execution '' @ eID exec @ '': '' @ err))
       | Inr None \<Rightarrow> Return None
       | Inr (Some schedule) \<Rightarrow>
           if sStatus schedule \<noteq> ScheduleStatusActive then Return None
           else DrawUlid (\<lambda>attemptID. ReadClock (\<lambda>startedAt.
             case NewRequestErr N (sCallbackURL schedule) of
               Some err \<Rightarrow> Return (Some (''build request for execution '' @ eID exec @ '': '' @ err))
             | None \<Rightarrow>
                 SendHttp (callbackRequest w exec schedule attemptID) (\<lambda>result.
                   if snd result = Some Canceled then CheckCtx Return
                   else ReadClock (\<lambda>completedAt.
                     recordAndComplete (eID exec)
                       (recordCmd P N (wNodeID w) exec schedule attemptNumber attemptID startedAt completedAt result))))))"

section \<open>Tasks\<close>

definition freshFireTask_run :: "platform \<Rightarrow> net \<Rightarrow> Worker \<Rightarrow> Execution \<Rightarrow> goerror option prog" where
  "freshFireTask_run P N w exec = unlessCanceled (dispatchAttempt P N w exec 1)"

definition runRetry :: "platform \<Rightarrow> net \<Rightarrow> Worker \<Rightarrow> Execution \<Rightarrow> goerror option prog" where
  "runRetry P N w exec = dispatchAttempt P N w exec (eAttemptCount exec + 1)"

definition runTimeout :: "Execution \<Rightarrow> goerror option prog" where
  "runTimeout exec =
     ProposeCmd (FailExecutionTimeout \<lparr>feTenantID = eTenantID exec, feExecutionID = eID exec, feFinalOutcome = FinalOutcomeTimedOut\<rparr>)
       (\<lambda>result. case result of
           Inl err \<Rightarrow> Return (Some (''propose fail execution timeout for execution '' @ eID exec @ '': '' @ err))
         | Inr (Refused cmdErr) \<Rightarrow>
             if ceKind cmdErr = KindConflict then Return None
             else Return (Some (''fail execution timeout rejected for execution '' @ eID exec @ '': '' @ ceMessage cmdErr))
         | Inr _ \<Rightarrow> Return None)"

definition runFinalize :: "Execution \<Rightarrow> goerror option prog" where
  "runFinalize exec =
     ReadAttempts (eTenantID exec) (eID exec) (\<lambda>r.
       case r of
         Inl err \<Rightarrow> Return (Some (''list attempts for execution '' @ eID exec @ '': '' @ err))
       | Inr attempts \<Rightarrow>
           if attempts = [] then Return None
           else let lastOutcome = aOutcome (last attempts)
           in if lastOutcome = OutcomeSuccess
              then proposeComplete (eTenantID exec) (eID exec) ExecutionStatusSucceeded OutcomeSuccess
              else if lastOutcome = OutcomeTerminalFailure
              then proposeComplete (eTenantID exec) (eID exec) ExecutionStatusFailedTerminal OutcomeTerminalFailure
              else Return None)"

definition inFlightTask_run :: "platform \<Rightarrow> net \<Rightarrow> Worker \<Rightarrow> string \<Rightarrow> Execution \<Rightarrow> goerror option prog" where
  "inFlightTask_run P N w kind exec =
     unlessCanceled
       (if kind = KindRetry then runRetry P N w exec
        else if kind = KindTimeout then runTimeout exec
        else if kind = KindFinalize then runFinalize exec
        else Return (Some (''inFlightTask: unhandled kind '' @ quoted kind @ '' for execution '' @ eID exec)))"

fun taskRun :: "platform \<Rightarrow> net \<Rightarrow> Worker \<Rightarrow> Task \<Rightarrow> goerror option prog" where
  "taskRun P N w (FreshFire exec) = freshFireTask_run P N w exec"
| "taskRun P N w (InFlight kind exec) = inFlightTask_run P N w kind exec"

section \<open>Recovery\<close>

definition proposeAdopt :: "Worker \<Rightarrow> string \<Rightarrow> Execution \<Rightarrow> goerror option prog" where
  "proposeAdopt w tenantID exec =
     ProposeCmd (AdoptExecution \<lparr>adTenantID = tenantID, adExecutionID = eID exec,
         adPreviousOwner = eOwnerNodeID exec, adNewOwner = wNodeID w\<rparr>) (\<lambda>result.
       case result of
         Inl err \<Rightarrow> Return (Some (''propose adopt for execution '' @ eID exec @ '': '' @ err))
       | Inr (Refused cmdErr) \<Rightarrow>
           if ceKind cmdErr = KindConflict then Return None
           else Return (Some (''adopt execution rejected for execution '' @ eID exec @ '': '' @ ceMessage cmdErr))
       | Inr _ \<Rightarrow> Return None)"

definition adoptOrComplete :: "Worker \<Rightarrow> string \<Rightarrow> Execution \<Rightarrow> Bucket \<Rightarrow> goerror option prog" where
  "adoptOrComplete w tenantID exec bucket =
     unlessCanceled
       (case bucket of
          BucketSuccess \<Rightarrow> proposeComplete tenantID (eID exec) ExecutionStatusSucceeded OutcomeSuccess
        | BucketTerminalFailure \<Rightarrow> proposeComplete tenantID (eID exec) ExecutionStatusFailedTerminal OutcomeTerminalFailure
        | _ \<Rightarrow> if eOwnerNodeID exec = wNodeID w then Return None else proposeAdopt w tenantID exec)"

definition prefixErr :: "string \<Rightarrow> goerror option prog \<Rightarrow> goerror option prog" where
  "prefixErr msg p = andThenP p (\<lambda>err. Return (map_option (\<lambda>e. msg @ e) err))"

definition recoverOne :: "Worker \<Rightarrow> string \<Rightarrow> Execution \<Rightarrow> goerror option prog" where
  "recoverOne w tenantID exec =
     unlessCanceled (ReadAttempts tenantID (eID exec) (\<lambda>r.
       case r of
         Inl err \<Rightarrow> Return (Some (''read attempts for execution '' @ eID exec @ '': '' @ err))
       | Inr attempts \<Rightarrow> ReadClock (\<lambda>now.
           case classifyOne attempts now of
             Inl err \<Rightarrow> Return (Some (''classify for execution '' @ eID exec @ '': '' @ err))
           | Inr bucket \<Rightarrow> prefixErr (''adopt or complete for execution '' @ eID exec @ '': '') (adoptOrComplete w tenantID exec bucket))))"

definition recoverTenant :: "Worker \<Rightarrow> Tenant \<Rightarrow> goerror option prog" where
  "recoverTenant w tenant =
     unlessCanceled (ReadExecutions (tnID tenant) ExecutionStatusInFlight (\<lambda>r.
       case r of
         Inl err \<Rightarrow> Return (Some (''list in-flight for tenant '' @ tnID tenant @ '': '' @ err))
       | Inr execs \<Rightarrow> forEach execs (recoverOne w (tnID tenant))))"

definition runRecover :: "Worker \<Rightarrow> goerror option prog" where
  "runRecover w =
     ReadTenants (\<lambda>r.
       case r of
         Inl err \<Rightarrow> Return (Some (''list tenants: '' @ err))
       | Inr tenants \<Rightarrow> forEach tenants (recoverTenant w))"

section \<open>The tick\<close>

text \<open>The claim of one due schedule; only an execution handed back is dispatched.\<close>

definition fireDue :: "Worker \<Rightarrow> string \<Rightarrow> Schedule \<Rightarrow> goerror option prog" where
  "fireDue w tenantID schedule =
     unlessCanceled
       (case sNextRunAt schedule of
          None \<Rightarrow> Return None
        | Some scheduledFor \<Rightarrow>
            DrawUlid (\<lambda>execID.
              ProposeCmd (ClaimExecution \<lparr>clID = execID, clTenantID = tenantID, clScheduleID = sID schedule,
                  clScheduledFor = scheduledFor, clOwnerNodeID = wNodeID w\<rparr>) (\<lambda>result.
                case result of
                  Inr (Applied (ResExecution claimedExec)) \<Rightarrow> Enqueue (FreshFire claimedExec) (Return None)
                | _ \<Rightarrow> Return None)))"

definition scanInFlight :: "string \<Rightarrow> Execution \<Rightarrow> goerror option prog" where
  "scanInFlight tenantID exec =
     unlessCanceled
       (if eLastAttemptID exec \<noteq> [] \<and> eLastRetryAt exec = None
        then Enqueue (InFlight KindFinalize exec) (Return None)
        else case eLastRetryAt exec of
          None \<Rightarrow> Return None
        | Some retryAt \<Rightarrow> ReadClock (\<lambda>now.
            if After retryAt now then Return None
            else ReadSchedule tenantID (eScheduleID exec) (\<lambda>r.
              case r of
                Inl err \<Rightarrow> Return None
              | Inr _ \<Rightarrow> Enqueue (InFlight KindRetry exec) (Return None))))"

definition tickTenant :: "Worker \<Rightarrow> Tenant \<Rightarrow> goerror option prog" where
  "tickTenant w tenant =
     unlessCanceled (ReadDue (tnID tenant) (\<lambda>r.
       case r of
         Inl err \<Rightarrow> Return None
       | Inr schedules \<Rightarrow>
           andThenP (forEach schedules (fireDue w (tnID tenant))) (\<lambda>err.
             case err of
               Some e \<Rightarrow> Return (Some e)
             | None \<Rightarrow> ReadExecutions (tnID tenant) ExecutionStatusInFlight (\<lambda>r'.
                 case r' of
                   Inl err' \<Rightarrow> Return None
                 | Inr executions \<Rightarrow> forEach executions (scanInFlight (tnID tenant))))))"

definition runTick :: "Worker \<Rightarrow> goerror option prog" where
  "runTick w =
     ReadTenants (\<lambda>r.
       case r of
         Inl err \<Rightarrow> Return (Some (''list tenants: '' @ err))
       | Inr tenants \<Rightarrow>
           andThenP (forEach tenants (tickTenant w)) (\<lambda>err.
             case err of Some e \<Rightarrow> Return (Some e) | None \<Rightarrow> WaitTasks (Return None)))"

text \<open>
  The loop of \<open>steadyState\<close>, over the events its \<open>select\<close> receives: \<open>True\<close> when the context is
  done, \<open>False\<close> for a tick. It returns \<open>None\<close> as long as it still waits for the next event.
\<close>

fun steadyState :: "Worker \<Rightarrow> bool list \<Rightarrow> goerror option option prog" where
  "steadyState w [] = Return None"
| "steadyState w (True # evs) = CheckCtx (\<lambda>err. Return (Some err))"
| "steadyState w (False # evs) =
     andThenP (runTick w) (\<lambda>err.
       case err of Some e \<Rightarrow> Return (Some (Some (''run tick: '' @ e))) | None \<Rightarrow> steadyState w evs)"

definition workerRun :: "Worker \<Rightarrow> bool list \<Rightarrow> goerror option option prog" where
  "workerRun w evs =
     andThenP (runRecover w) (\<lambda>err. case err of Some e \<Rightarrow> Return (Some (Some e)) | None \<Rightarrow> steadyState w evs)"

end
