(* ===== verification/WorkerTraces.thy ===== *)
theory WorkerTraces
  imports Worker
begin

text \<open>
  Runs of the worker's programs. An environment answers every call from a state of its own,
  which may change with each answer, so a statement about all environments is one about
  all answers the calls can get. A run yields the proposals, HTTP calls and queued tasks in
  order. The lemmas say what the tasks and the loops do on every such run.
\<close>

section \<open>Runs\<close>

record 'w env =
  envTenants :: "'w \<Rightarrow> 'w \<times> Tenant list fallible"
  envDue :: "'w \<Rightarrow> string \<Rightarrow> 'w \<times> Schedule list fallible"
  envSchedule :: "'w \<Rightarrow> string \<Rightarrow> string \<Rightarrow> 'w \<times> Schedule option fallible"
  envExecutions :: "'w \<Rightarrow> string \<Rightarrow> string \<Rightarrow> 'w \<times> Execution list fallible"
  envAttempts :: "'w \<Rightarrow> string \<Rightarrow> string \<Rightarrow> 'w \<times> Attempt list fallible"
  envPropose :: "'w \<Rightarrow> Command \<Rightarrow> 'w \<times> ApplyResponse fallible"
  envHttp :: "'w \<Rightarrow> HttpRequest \<Rightarrow> 'w \<times> HttpResult"
  envNow :: "'w \<Rightarrow> 'w \<times> Time"
  envUlid :: "'w \<Rightarrow> 'w \<times> string"
  envCtx :: "'w \<Rightarrow> 'w \<times> goerror option"

datatype event = Proposed Command "ApplyResponse fallible" | Called HttpRequest HttpResult | Queued Task | Waited

definition answer :: "event list \<Rightarrow> ('x \<Rightarrow> 'w \<Rightarrow> event list \<times> 'a \<times> 'w) \<Rightarrow> 'w \<times> 'x \<Rightarrow> event list \<times> 'a \<times> 'w" where
  "answer evs k wx = (let (evs', a, w') = k (snd wx) (fst wx) in (evs @ evs', a, w'))"

primrec execute :: "'w env \<Rightarrow> 'a prog \<Rightarrow> 'w \<Rightarrow> event list \<times> 'a \<times> 'w" where
  "execute E (Return a) = (\<lambda>w. ([], a, w))"
| "execute E (ReadTenants k) = (\<lambda>w. answer [] (\<lambda>r. execute E (k r)) (envTenants E w))"
| "execute E (ReadDue t k) = (\<lambda>w. answer [] (\<lambda>r. execute E (k r)) (envDue E w t))"
| "execute E (ReadSchedule t i k) = (\<lambda>w. answer [] (\<lambda>r. execute E (k r)) (envSchedule E w t i))"
| "execute E (ReadExecutions t st k) = (\<lambda>w. answer [] (\<lambda>r. execute E (k r)) (envExecutions E w t st))"
| "execute E (ReadAttempts t i k) = (\<lambda>w. answer [] (\<lambda>r. execute E (k r)) (envAttempts E w t i))"
| "execute E (ProposeCmd c k) = (\<lambda>w. let wr = envPropose E w c in answer [Proposed c (snd wr)] (\<lambda>r. execute E (k r)) wr)"
| "execute E (SendHttp q k) = (\<lambda>w. let wr = envHttp E w q in answer [Called q (snd wr)] (\<lambda>r. execute E (k r)) wr)"
| "execute E (ReadClock k) = (\<lambda>w. answer [] (\<lambda>r. execute E (k r)) (envNow E w))"
| "execute E (DrawUlid k) = (\<lambda>w. answer [] (\<lambda>r. execute E (k r)) (envUlid E w))"
| "execute E (CheckCtx k) = (\<lambda>w. answer [] (\<lambda>r. execute E (k r)) (envCtx E w))"
| "execute E (Enqueue t k) = (\<lambda>w. answer [Queued t] (\<lambda>_. execute E k) (w, ()))"
| "execute E (WaitTasks k) = (\<lambda>w. answer [Waited] (\<lambda>_. execute E k) (w, ()))"

lemma execute_andThenP:
  "execute E (andThenP p f) w =
     (let (evs, a, w1) = execute E p w; (evs', b, w2) = execute E (f a) w1 in (evs @ evs', b, w2))"
  by (induction p arbitrary: w) (auto simp: answer_def split_def Let_def)

text \<open>
  The first call of a program and the rest of its run; a proof about a run follows it call
  by call.
\<close>

lemma execute_read:
  "execute E (ReadTenants k1) w = execute E (k1 (snd (envTenants E w))) (fst (envTenants E w))"
  "execute E (ReadDue t k2) w = execute E (k2 (snd (envDue E w t))) (fst (envDue E w t))"
  "execute E (ReadSchedule t i k3) w = execute E (k3 (snd (envSchedule E w t i))) (fst (envSchedule E w t i))"
  "execute E (ReadExecutions t st k4) w = execute E (k4 (snd (envExecutions E w t st))) (fst (envExecutions E w t st))"
  "execute E (ReadAttempts t i k5) w = execute E (k5 (snd (envAttempts E w t i))) (fst (envAttempts E w t i))"
  "execute E (ReadClock k6) w = execute E (k6 (snd (envNow E w))) (fst (envNow E w))"
  "execute E (DrawUlid k7) w = execute E (k7 (snd (envUlid E w))) (fst (envUlid E w))"
  "execute E (CheckCtx k8) w = execute E (k8 (snd (envCtx E w))) (fst (envCtx E w))"
  by (simp_all add: answer_def split_def)

lemma execute_act:
  "execute E (ProposeCmd c k9) w =
     (let (evs, a, w') = execute E (k9 (snd (envPropose E w c))) (fst (envPropose E w c)) in (Proposed c (snd (envPropose E w c)) # evs, a, w'))"
  "execute E (SendHttp q k10) w =
     (let (evs, a, w') = execute E (k10 (snd (envHttp E w q))) (fst (envHttp E w q)) in (Called q (snd (envHttp E w q)) # evs, a, w'))"
  "execute E (Enqueue t p) w = (let (evs, a, w') = execute E p w in (Queued t # evs, a, w'))"
  "execute E (WaitTasks p) w = (let (evs, a, w') = execute E p w in (Waited # evs, a, w'))"
  by (simp_all add: answer_def split_def Let_def)

lemmas execute_calls = execute_read execute_act execute_andThenP

declare execute.simps(2-) [simp del]

text \<open>The events of a loop are the events of its rounds, in order.\<close>

lemma forEach_events:
  assumes "execute E (forEach xs body) w = (evs, r, w')" "ev \<in> set evs"
  shows "\<exists>x \<in> set xs. \<exists>u evs1 r1 u1. execute E (body x) u = (evs1, r1, u1) \<and> ev \<in> set evs1"
  using assms
proof (induction xs arbitrary: w evs)
  case (Cons x xs)
  obtain e1 r1 u1 where b: "execute E (body x) w = (e1, r1, u1)" by (cases "execute E (body x) w") auto
  show ?case
  proof (cases "ev \<in> set e1")
    case True
    with b show ?thesis by (meson list.set_intros(1))
  next
    case False
    with Cons.prems b obtain e2 where "execute E (forEach xs body) u1 = (e2, r, w')" "ev \<in> set e2"
      by (auto simp: execute_calls split: option.splits prod.splits)
    from Cons.IH [OF this] show ?thesis by (meson list.set_intros(2))
  qed
qed simp

section \<open>One dispatch\<close>

fun refusedBy :: "ApplyResponse fallible \<Rightarrow> bool" where
  "refusedBy (Inl err) \<longleftrightarrow> True"
| "refusedBy (Inr (Refused ce)) \<longleftrightarrow> True"
| "refusedBy (Inr _) \<longleftrightarrow> False"

lemma proposeComplete_events:
  "\<exists>r. fst (execute E (proposeComplete t i st out) w) = [Proposed (CompleteExecution (completeCmd t i st out)) r]"
  by (auto simp: proposeComplete_def execute_calls split_def Let_def split: sum.splits ApplyResponse.splits)

lemma unlessCanceled_events:
  "fst (execute E (unlessCanceled p) w) = [] \<or> (\<exists>u. fst (execute E (unlessCanceled p) w) = fst (execute E p u))"
  by (auto simp: unlessCanceled_def execute_calls split: option.splits)

lemma recordAndComplete_events:
  "\<exists>r r'. fst (execute E (recordAndComplete i c) w) = [Proposed (RecordAttempt c) r] \<or>
     (fst (execute E (recordAndComplete i c) w) = [Proposed (RecordAttempt c) r,
        Proposed (CompleteExecution (completeCmd (raTenantID c) i (finalStatusFor (raOutcome c)) (raOutcome c))) r'] \<and>
      \<not> refusedBy r \<and> raOutcome c \<noteq> OutcomeRetry)"
proof -
  let ?r = "snd (envPropose E w (RecordAttempt c))" and ?w = "fst (envPropose E w (RecordAttempt c))"
  let ?q = "if raOutcome c \<noteq> OutcomeRetry then proposeComplete (raTenantID c) i (finalStatusFor (raOutcome c)) (raOutcome c) else Return None"
  show ?thesis
  proof (cases "refusedBy ?r")
    case True
    then have "fst (execute E (recordAndComplete i c) w) = [Proposed (RecordAttempt c) ?r]"
      by (auto simp: recordAndComplete_def execute_calls split_def Let_def elim!: refusedBy.elims)
    then show ?thesis by blast
  next
    case False
    then have e: "fst (execute E (recordAndComplete i c) w) = Proposed (RecordAttempt c) ?r # fst (execute E (unlessCanceled ?q) ?w)"
      by (cases ?r rule: refusedBy.cases) (auto simp: recordAndComplete_def execute_calls split_def Let_def)
    from unlessCanceled_events [of E ?q ?w] show ?thesis
    proof
      assume "\<exists>u. fst (execute E (unlessCanceled ?q) ?w) = fst (execute E ?q u)"
      then obtain u where u: "fst (execute E (unlessCanceled ?q) ?w) = fst (execute E ?q u)" by blast
      show ?thesis
      proof (cases "raOutcome c = OutcomeRetry")
        case True
        with u e show ?thesis by auto
      next
        case retry: False
        then obtain r' where "fst (execute E ?q u) = [Proposed (CompleteExecution
            (completeCmd (raTenantID c) i (finalStatusFor (raOutcome c)) (raOutcome c))) r']"
          using proposeComplete_events [of E "raTenantID c" i "finalStatusFor (raOutcome c)" "raOutcome c" u] by auto
        with u e retry False show ?thesis by auto
      qed
    qed (use e in auto)
  qed
qed

lemma dispatchAttempt_events:
  "fst (execute E (dispatchAttempt P N w e n) s) = [] \<or>
   (\<exists>schedule i st q res. sStatus schedule = ScheduleStatusActive \<and> q = callbackRequest w e schedule i \<and>
     (fst (execute E (dispatchAttempt P N w e n) s) = [Called q res] \<or>
      snd res \<noteq> Some Canceled \<and> (\<exists>ct u. fst (execute E (dispatchAttempt P N w e n) s) =
        Called q res # fst (execute E (recordAndComplete (eID e) (recordCmd P N (wNodeID w) e schedule n i st ct res)) u))))"
proof -
  obtain s1 r where r: "envSchedule E s (eTenantID e) (eScheduleID e) = (s1, r)" by fastforce
  show ?thesis
  proof (cases "\<exists>x. r = Inr (Some x) \<and> sStatus x = ScheduleStatusActive")
    case False
    with r have "fst (execute E (dispatchAttempt P N w e n) s) = []"
      by (auto simp: dispatchAttempt_def execute_calls split: sum.splits option.splits)
    then show ?thesis ..
  next
    case True
    then obtain x where x: "r = Inr (Some x)" "sStatus x = ScheduleStatusActive" by blast
    obtain s2 i where i: "envUlid E s1 = (s2, i)" by fastforce
    obtain s3 st where st: "envNow E s2 = (s3, st)" by fastforce
    let ?q = "callbackRequest w e x i"
    obtain s4 res where res: "envHttp E s3 ?q = (s4, res)" by (cases "envHttp E s3 ?q")
    obtain s5 ct where ct: "envNow E s4 = (s5, ct)" by fastforce
    let ?c = "recordCmd P N (wNodeID w) e x n i st ct res"
    note step = r x i st res ct dispatchAttempt_def execute_calls
    consider "NewRequestErr N (sCallbackURL x) \<noteq> None" | "NewRequestErr N (sCallbackURL x) = None" "snd res = Some Canceled"
      | "NewRequestErr N (sCallbackURL x) = None" "snd res \<noteq> Some Canceled" by blast
    then show ?thesis
    proof cases
      case 1
      then have "fst (execute E (dispatchAttempt P N w e n) s) = []" by (auto simp: step)
      then show ?thesis ..
    next
      case 2
      then have "fst (execute E (dispatchAttempt P N w e n) s) = [Called ?q res]" by (simp add: step)
      with x(2) show ?thesis by blast
    next
      case 3
      then have "fst (execute E (dispatchAttempt P N w e n) s) = Called ?q res # fst (execute E (recordAndComplete (eID e) ?c) s5)"
        by (simp add: step split_def Let_def)
      with x(2) 3 show ?thesis by blast
    qed
  qed
qed

text \<open>What a dispatching task does, as a prefix of the longest run it can have.\<close>

definition dispatch_trace :: "platform \<Rightarrow> net \<Rightarrow> Worker \<Rightarrow> Execution \<Rightarrow> int \<Rightarrow> event list \<Rightarrow> bool" where
  "dispatch_trace P N w e n evs \<longleftrightarrow>
     (\<exists>schedule i st ct res c r r'. sStatus schedule = ScheduleStatusActive \<and>
        c = recordCmd P N (wNodeID w) e schedule n i st ct res \<and>
        prefix evs [Called (callbackRequest w e schedule i) res, Proposed (RecordAttempt c) r,
          Proposed (CompleteExecution (completeCmd (raTenantID c) (eID e) (finalStatusFor (raOutcome c)) (raOutcome c))) r'] \<and>
        (2 \<le> length evs \<longrightarrow> snd res \<noteq> Some Canceled) \<and>
        (length evs = 3 \<longrightarrow> \<not> refusedBy r \<and> raOutcome c \<noteq> OutcomeRetry))"

lemma dispatch_trace_Nil: "dispatch_trace P N w e n []"
  unfolding dispatch_trace_def
  by (rule exI [of _ "undefined\<lparr>sStatus := ScheduleStatusActive\<rparr>"]) auto

lemma dispatch_trace_run: "dispatch_trace P N w e n (fst (execute E (dispatchAttempt P N w e n) s))" (is "dispatch_trace _ _ _ _ _ ?evs")
proof (cases "?evs = []")
  case True
  then show ?thesis by (simp add: dispatch_trace_Nil)
next
  case False
  with dispatchAttempt_events [of E P N w e n s] obtain x i st res where x: "sStatus x = ScheduleStatusActive"
    and evs: "?evs = [Called (callbackRequest w e x i) res] \<or> snd res \<noteq> Some Canceled \<and> (\<exists>ct u. ?evs =
        Called (callbackRequest w e x i) res # fst (execute E (recordAndComplete (eID e) (recordCmd P N (wNodeID w) e x n i st ct res)) u))"
    by blast
  from evs show ?thesis
  proof
    assume "?evs = [Called (callbackRequest w e x i) res]"
    with x show ?thesis unfolding dispatch_trace_def by fastforce
  next
    assume "snd res \<noteq> Some Canceled \<and> (\<exists>ct u. ?evs =
        Called (callbackRequest w e x i) res # fst (execute E (recordAndComplete (eID e) (recordCmd P N (wNodeID w) e x n i st ct res)) u))"
    then obtain ct u where c: "snd res \<noteq> Some Canceled" "?evs =
        Called (callbackRequest w e x i) res # fst (execute E (recordAndComplete (eID e) (recordCmd P N (wNodeID w) e x n i st ct res)) u)"
      by blast
    from recordAndComplete_events [of E "eID e" "recordCmd P N (wNodeID w) e x n i st ct res" u] c x
    show ?thesis unfolding dispatch_trace_def by (elim exE disjE; intro exI [of _ x] exI [of _ i] exI [of _ st] exI [of _ ct] exI [of _ res]) auto
  qed
qed

end
