(* ===== verification/WorkerCorrect.thy ===== *)
theory WorkerCorrect
  imports WorkerTraces Bolt
begin

text \<open>
  What the worker's tasks and its tick do, whatever the calls answer: the headers of a
  callback, the order of call, attempt and completion, and the correspondence between
  claims and dispatches.
\<close>

section \<open>Headers\<close>

lemma map_of_headerSet:
  "map_of (headerSet h kv) k = (if k = CanonicalMIMEHeaderKey (fst kv) then Some (snd kv) else map_of h k)"
  by (simp add: headerSet_def map_of_filter_other)

lemma keys_headerSet: "distinct (map fst h) \<Longrightarrow> distinct (map fst (headerSet h kv))"
  by (auto simp: headerSet_def distinct_map_filter)

lemma operator_headers:
  "map_of (foldl headerSet h hs) k =
     (case map_of (rev (map (\<lambda>kv. (CanonicalMIMEHeaderKey (fst kv), snd kv)) hs)) k of Some v \<Rightarrow> Some v | None \<Rightarrow> map_of h k)"
  by (induction hs arbitrary: h) (auto simp: map_of_headerSet map_add_def split: option.splits)

lemma keys_operator: "distinct (map fst h) \<Longrightarrow> distinct (map fst (foldl headerSet h hs))"
  by (induction hs arbitrary: h) (auto simp: keys_headerSet)

lemma scheduler_headers:
  "CanonicalMIMEHeaderKey ''Content-Type'' = ''Content-Type''"
  "CanonicalMIMEHeaderKey HeaderIdempotencyKey = HeaderIdempotencyKey"
  "CanonicalMIMEHeaderKey HeaderAttemptID = HeaderAttemptID"
  by code_simp+

lemma headers_of_callback:
  "map_of (hqHeaders (callbackRequest w e schedule i)) k =
     (if k = HeaderAttemptID then Some i else if k = HeaderIdempotencyKey then Some (eIdempotencyKey e)
      else if k = ''Content-Type'' then Some ''application/json''
      else map_of (rev (map (\<lambda>kv. (CanonicalMIMEHeaderKey (fst kv), snd kv)) (sHeaders schedule))) k)"
  "distinct (map fst (hqHeaders (callbackRequest w e schedule i)))"
  by (auto simp: callbackRequest_def map_of_headerSet operator_headers scheduler_headers keys_headerSet keys_operator
      split: option.splits)

text \<open>
  C23. A callback carries the scheduler's own headers whatever the operator configured: the
  content type, the execution's idempotency key and the attempt's ID, each once and under
  its canonical name; every other header is the operator's, by canonical name.
\<close>

theorem callback_headers:
  "hqMethod (callbackRequest w e schedule i) = ''POST'' \<and> hqBody (callbackRequest w e schedule i) = sPayload schedule \<and>
   distinct (map fst (hqHeaders (callbackRequest w e schedule i))) \<and>
   map_of (hqHeaders (callbackRequest w e schedule i)) k =
     (if k = HeaderAttemptID then Some i else if k = HeaderIdempotencyKey then Some (eIdempotencyKey e)
      else if k = ''Content-Type'' then Some ''application/json''
      else map_of (rev (map (\<lambda>kv. (CanonicalMIMEHeaderKey (fst kv), snd kv)) (sHeaders schedule))) k)"
  using headers_of_callback [of w e schedule i] by (simp add: callbackRequest_def)

section \<open>The order of call, attempt and completion\<close>

lemma unless_trace: "dispatch_trace P N w e n (fst (execute E (unlessCanceled (dispatchAttempt P N w e n)) s))"
proof -
  from unlessCanceled_events [of E "dispatchAttempt P N w e n" s] show ?thesis
  proof
    assume "\<exists>u. fst (execute E (unlessCanceled (dispatchAttempt P N w e n)) s) = fst (execute E (dispatchAttempt P N w e n) u)"
    then obtain u where "fst (execute E (unlessCanceled (dispatchAttempt P N w e n)) s) = fst (execute E (dispatchAttempt P N w e n) u)" ..
    then show ?thesis by (simp add: dispatch_trace_run)
  qed (simp add: dispatch_trace_Nil)
qed

text \<open>The number of the attempt a dispatching task is about to make.\<close>

fun attemptOf :: "Task \<Rightarrow> int" where
  "attemptOf (FreshFire e) = 1"
| "attemptOf (InFlight k e) = eAttemptCount e + 1"

lemma task_trace:
  assumes "task = FreshFire e \<or> task = InFlight KindRetry e"
  shows "dispatch_trace P N w e (attemptOf task) (fst (execute E (taskRun P N w task) s))"
  using assms unless_trace [of P N w e 1 E s] unless_trace [of P N w e "eAttemptCount e + 1" E s]
  by (elim disjE) (simp_all add: freshFireTask_run_def inFlightTask_run_def runRetry_def)

section \<open>Claims and dispatches\<close>

fun freshTask :: "event \<Rightarrow> Execution option" where
  "freshTask (Queued (FreshFire e)) = Some e"
| "freshTask _ = None"

fun claimGranted :: "event \<Rightarrow> Execution option" where
  "claimGranted (Proposed (ClaimExecution c) (Inr (Applied (ResExecution e)))) = Some e"
| "claimGranted _ = None"

fun timeoutTask :: "event \<Rightarrow> bool" where
  "timeoutTask (Queued (InFlight k e)) \<longleftrightarrow> k = KindTimeout"
| "timeoutTask (Proposed (FailExecutionTimeout c) r) \<longleftrightarrow> True"
| "timeoutTask _ \<longleftrightarrow> False"

definition claims_match :: "event list \<Rightarrow> bool" where
  "claims_match evs \<longleftrightarrow> List.map_filter freshTask evs = List.map_filter claimGranted evs \<and> \<not> list_ex timeoutTask evs"

lemma claims_match_Nil [simp]: "claims_match []"
  by (simp add: claims_match_def)

lemma claims_match_append: "claims_match xs \<Longrightarrow> claims_match ys \<Longrightarrow> claims_match (xs @ ys)"
  by (simp add: claims_match_def List.map_filter_def)

text \<open>A property of event lists that is closed under concatenation passes from the body to the loop.\<close>

lemma forEach_closed:
  assumes "Q []" "\<And>xs ys. Q xs \<Longrightarrow> Q ys \<Longrightarrow> Q (xs @ ys)" "\<And>x u. Q (fst (execute E (body x) u))"
  shows "Q (fst (execute E (forEach xs body) w))"
proof (induction xs arbitrary: w)
  case (Cons x xs)
  obtain e1 r1 u1 where b: "execute E (body x) w = (e1, r1, u1)" by (cases "execute E (body x) w") auto
  with assms(3) [of x w] have "Q e1" by simp
  moreover have "Q (fst (execute E (forEach xs body) u1))" by (rule Cons.IH)
  ultimately show ?case using assms(1,2) b by (auto simp: execute_calls split_def Let_def split: option.split)
qed (simp add: assms(1))

lemma fireDue_match: "claims_match (fst (execute E (fireDue w t x) u))"
  by (auto simp: fireDue_def unlessCanceled_def execute_calls claims_match_def List.map_filter_def split_def Let_def
      split: option.splits sum.splits ApplyResponse.splits Result.splits)

lemma scanInFlight_match: "claims_match (fst (execute E (scanInFlight t x) u))"
  by (auto simp: scanInFlight_def unlessCanceled_def execute_calls claims_match_def List.map_filter_def split_def Let_def
      task_kind_defs split: option.splits sum.splits)

lemma tickTenant_match: "claims_match (fst (execute E (tickTenant w t) u))"
  using forEach_closed [of claims_match E "fireDue w (tnID t)"] forEach_closed [of claims_match E "scanInFlight (tnID t)"]
  by (auto simp: tickTenant_def unlessCanceled_def execute_calls split_def Let_def fireDue_match scanInFlight_match
      claims_match_append split: option.split sum.split)

lemma runTick_match: "claims_match (fst (execute E (runTick w) u))"
proof -
  have "claims_match [Waited]" by (simp add: claims_match_def List.map_filter_def)
  then show ?thesis using forEach_closed [of claims_match E "tickTenant w"]
    by (auto simp: runTick_def execute_calls split_def Let_def tickTenant_match claims_match_append split: option.split sum.split)
qed

text \<open>
  C25. Every run is dispatched for the first time once: on any tick, the executions queued for
  a first dispatch are exactly those the tick's own claims were granted, in order and with
  repetitions; a refused, failed or unanswered claim dispatches nothing.
\<close>

theorem one_dispatch_per_claim:
  "List.map_filter freshTask (fst (execute E (runTick w) u)) = List.map_filter claimGranted (fst (execute E (runTick w) u))"
  using runTick_match [of E w u] by (simp add: claims_match_def)

section \<open>What the tick leaves alone\<close>

text \<open>
  An execution in flight with no attempt recorded is never dispatched by the in-flight
  scan of a tick: whatever the clock and the node answer, nothing is proposed, called or
  queued for it. A claim whose first dispatch was lost, or that recovery adopted, stays in
  flight.
\<close>

theorem unattempted_not_dispatched:
  assumes "eLastAttemptID e = []" "eLastRetryAt e = None"
  shows "fst (execute E (scanInFlight t e) u) = []"
  using assms by (simp add: scanInFlight_def unlessCanceled_def execute_calls split: option.split)

text \<open>
  The timeout path is never taken: no tick queues a timeout task or proposes to fail an
  execution as timed out.
\<close>

theorem timeout_never_queued: "\<not> list_ex timeoutTask (fst (execute E (runTick w) u))"
  using runTick_match [of E w u] by (simp add: claims_match_def)

end
