(* ===== verification/Config.thy ===== *)
theory Config
  imports Prelude
begin

text \<open>
  The configuration of a node (\<open>internal/config/config.go\<close>): the fields filled from flags and
  the environment, the parsing of the peer list and the validation of the whole. Parsing
  the command line itself is the \<open>flag\<close> package; the model starts from the parsed fields.
\<close>

section \<open>Strings\<close>

text \<open>
  What \<open>strings\<close> does here: \<open>SplitSeq\<close> and \<open>Cut\<close> at a one-byte separator, and \<open>TrimSpace\<close>,
  which for ASCII text drops the six space characters at both ends.
\<close>

definition isSpace :: "char \<Rightarrow> bool" where
  "isSpace c \<longleftrightarrow> c \<in> {CHR 0x09, CHR 0x0A, CHR 0x0B, CHR 0x0C, CHR 0x0D, CHR '' ''}"

definition TrimSpace :: "string \<Rightarrow> string" where
  "TrimSpace s = rev (dropWhile isSpace (rev (dropWhile isSpace s)))"

fun Split :: "char \<Rightarrow> string \<Rightarrow> string list" where
  "Split sep [] = [[]]"
| "Split sep (c # cs) =
     (if c = sep then [] # Split sep cs
      else case Split sep cs of [] \<Rightarrow> [[c]] | p # ps \<Rightarrow> (c # p) # ps)"

definition Cut :: "char \<Rightarrow> string \<Rightarrow> string \<times> string \<times> bool" where
  "Cut sep s =
     (if sep \<in> set s then (takeWhile (\<lambda>c. c \<noteq> sep) s, tl (dropWhile (\<lambda>c. c \<noteq> sep) s), True)
      else (s, [], False))"

section \<open>The configuration\<close>

record Config =
  cfgNodeID :: string
  cfgRaftAddr :: string
  cfgHTTPAddr :: string
  cfgDataDir :: string
  cfgPeers :: "(string \<times> string) list"
  cfgBootstrap :: bool
  cfgAdminKey :: string
  cfgPeersRaw :: string

definition adminKeyEnvVar :: string where
  "adminKeyEnvVar = ''SCHEDULER_ADMIN_KEY''"

text \<open>
  One round of the loop of \<open>parsePeers\<close>: an entry is added to the peers collected so far. The
  map is an association list in the order the entries were added.
\<close>

definition parsePeer :: "(string \<times> string) list \<Rightarrow> string \<Rightarrow> (string \<times> string) list fallible" where
  "parsePeer peers entry0 =
     (let entry = TrimSpace entry0; (id0, addr0, ok) = Cut (CHR ''='') entry
      in if \<not> ok then Inl (''malformed peer entry '' @ quoted entry @ '', want node-id=addr'')
         else let i = TrimSpace id0; addr = TrimSpace addr0
         in if i = [] then Inl (''malformed peer entry '' @ quoted entry @ '', empty node-id'')
            else if addr = [] then Inl (''malformed peer entry '' @ quoted entry @ '', empty addr'')
            else if map_of peers i \<noteq> None then Inl (''duplicate peer node-id '' @ quoted i)
            else Inr (peers @ [(i, addr)]))"

fun parsePeersLoop :: "(string \<times> string) list \<Rightarrow> string list \<Rightarrow> (string \<times> string) list fallible" where
  "parsePeersLoop peers [] = Inr peers"
| "parsePeersLoop peers (e # es) = andThen (parsePeer peers e) (\<lambda>peers'. parsePeersLoop peers' es)"

definition parsePeers :: "Config \<Rightarrow> Config fallible" where
  "parsePeers cfg =
     (if cfgPeersRaw cfg = [] then Inl ''peers are required''
      else andThen (parsePeersLoop [] (Split (CHR '','') (cfgPeersRaw cfg))) (\<lambda>peers.
        Inr (cfg\<lparr>cfgPeers := peers\<rparr>)))"

definition validate :: "Config \<Rightarrow> Config fallible" where
  "validate cfg =
     (if cfgNodeID cfg = [] then Inl ''node-id is required''
      else if cfgRaftAddr cfg = [] then Inl ''raft-addr is required''
      else if cfgHTTPAddr cfg = [] then Inl ''http-addr is required''
      else if cfgDataDir cfg = [] then Inl ''data-dir is required''
      else if cfgAdminKey cfg = [] then Inl (adminKeyEnvVar @ '' environment variable is required'')
      else andThen (parsePeers cfg) (\<lambda>cfg'.
        if map_of (cfgPeers cfg') (cfgNodeID cfg') = None
        then Inl (''node-id '' @ quoted (cfgNodeID cfg') @ '' not found in peers'')
        else Inr cfg'))"

text \<open>
  \<open>New\<close>: the flags as \<open>flag.FlagSet.Parse\<close> leaves them in a fresh configuration, or its error,
  then the environment, then validation.
\<close>

definition configNew :: "Config fallible \<Rightarrow> (string \<Rightarrow> string) \<Rightarrow> Config fallible" where
  "configNew parsed getenv =
     andThen parsed (\<lambda>cfg. validate (cfg\<lparr>cfgAdminKey := getenv adminKeyEnvVar\<rparr>))"

section \<open>Properties\<close>

lemma TrimSpace_id:
  assumes "s \<noteq> []" "\<not> isSpace (hd s)" "\<not> isSpace (last s)"
  shows "TrimSpace s = s"
proof -
  from assms(1,2) have "dropWhile isSpace s = s" by (cases s) auto
  moreover from assms(1,3) have "dropWhile isSpace (rev s) = rev s" by (cases s rule: rev_cases) auto
  ultimately show ?thesis by (simp add: TrimSpace_def)
qed

lemma TrimSpace_trimmed:
  "TrimSpace s \<noteq> [] \<Longrightarrow> \<not> isSpace (hd (TrimSpace s)) \<and> \<not> isSpace (last (TrimSpace s))"
proof -
  let ?d = "dropWhile isSpace s" and ?r = "dropWhile isSpace (rev (dropWhile isSpace s))"
  assume ne: "TrimSpace s \<noteq> []"
  then have r: "?r \<noteq> []" by (simp add: TrimSpace_def)
  then have "\<not> isSpace (hd ?r)" by (rule hd_dropWhile)
  then have l: "\<not> isSpace (last (TrimSpace s))" by (simp add: TrimSpace_def last_rev)
  have "?d \<noteq> []" using r by (cases "?d") auto
  then have h: "\<not> isSpace (hd ?d)" by (rule hd_dropWhile)
  have "?d = TrimSpace s @ rev (takeWhile isSpace (rev ?d))"
    unfolding TrimSpace_def by (metis rev_append rev_rev_ident takeWhile_dropWhile_id)
  with ne have "hd ?d = hd (TrimSpace s)" by (metis hd_append2)
  with h l show ?thesis by simp
qed

lemma Cut_sep:
  assumes "sep \<notin> set a"
  shows "Cut sep (a @ sep # b) = (a, b, True)"
  using assms by (simp add: Cut_def takeWhile_append dropWhile_append)

lemma Split_no_sep: "sep \<notin> set a \<Longrightarrow> Split sep a = [a]"
  by (induction a) auto

lemma Split_append: "sep \<notin> set a \<Longrightarrow> Split sep (a @ sep # b) = a # Split sep b"
  by (induction a) auto

text \<open>A peer list as it is written on the command line.\<close>

definition showPeer :: "string \<times> string \<Rightarrow> string" where
  "showPeer p = fst p @ CHR ''='' # snd p"

fun showPeers :: "(string \<times> string) list \<Rightarrow> string" where
  "showPeers [] = []"
| "showPeers [p] = showPeer p"
| "showPeers (p # ps) = showPeer p @ CHR '','' # showPeers ps"

text \<open>Names and addresses the list can carry: no separators, no space at the ends.\<close>

definition trimmed :: "string \<Rightarrow> bool" where
  "trimmed s \<longleftrightarrow> s \<noteq> [] \<and> \<not> isSpace (hd s) \<and> \<not> isSpace (last s)"

definition peer_ok :: "string \<times> string \<Rightarrow> bool" where
  "peer_ok p \<longleftrightarrow> trimmed (fst p) \<and> trimmed (snd p) \<and> CHR ''='' \<notin> set (fst p) \<and>
     CHR '','' \<notin> set (fst p) \<and> CHR '','' \<notin> set (snd p)"

lemma parsePeer_show:
  assumes "peer_ok p" "fst p \<notin> fst ` set peers"
  shows "parsePeer peers (showPeer p) = Inr (peers @ [p])"
proof -
  from assms(1) have t: "trimmed (fst p)" "trimmed (snd p)" "CHR ''='' \<notin> set (fst p)" by (simp_all add: peer_ok_def)
  from t(1,2) have "TrimSpace (showPeer p) = showPeer p"
    by (intro TrimSpace_id) (auto simp: showPeer_def trimmed_def)
  moreover have "TrimSpace (fst p) = fst p" "TrimSpace (snd p) = snd p"
    using t(1,2) by (auto simp: trimmed_def intro: TrimSpace_id)
  moreover have "map_of peers (fst p) = None" using assms(2) by (simp add: map_of_eq_None_iff)
  moreover have "Cut (CHR ''='') (showPeer p) = (fst p, snd p, True)"
    unfolding showPeer_def by (rule Cut_sep [OF t(3)])
  ultimately show ?thesis using t(1,2) by (simp add: parsePeer_def trimmed_def)
qed

lemma Split_showPeers:
  assumes "ps \<noteq> []" "\<And>p. p \<in> set ps \<Longrightarrow> peer_ok p"
  shows "Split (CHR '','') (showPeers ps) = map showPeer ps"
  using assms
proof (induction ps rule: showPeers.induct)
  case (2 p)
  then show ?case using Split_no_sep [of "CHR '',''" "showPeer p"] by (auto simp: peer_ok_def showPeer_def)
next
  case (3 p q ps)
  then have "CHR '','' \<notin> set (showPeer p)" by (auto simp: peer_ok_def showPeer_def)
  from Split_append [OF this] 3 show ?case by auto
qed simp

lemma parsePeersLoop_show:
  assumes "\<And>p. p \<in> set ps \<Longrightarrow> peer_ok p" "distinct (map fst (peers @ ps))"
  shows "parsePeersLoop peers (map showPeer ps) = Inr (peers @ ps)"
  using assms
proof (induction ps arbitrary: peers)
  case (Cons p ps)
  then have "parsePeer peers (showPeer p) = Inr (peers @ [p])" by (intro parsePeer_show) auto
  with Cons show ?case by simp
qed simp

text \<open>What a parsed peer list looks like, whatever the input was.\<close>

lemma parsePeer_ok:
  assumes "parsePeer peers e = Inr peers'" "distinct (map fst peers)" "\<forall>p \<in> set peers. trimmed (fst p) \<and> trimmed (snd p)"
  shows "distinct (map fst peers') \<and> (\<forall>p \<in> set peers'. trimmed (fst p) \<and> trimmed (snd p)) \<and> peers' \<noteq> []"
proof -
  obtain a b ok where c: "Cut (CHR ''='') (TrimSpace e) = (a, b, ok)" by (cases "Cut (CHR ''='') (TrimSpace e)") auto
  with assms(1) have "peers' = peers @ [(TrimSpace a, TrimSpace b)]" "TrimSpace a \<noteq> []" "TrimSpace b \<noteq> []"
    "map_of peers (TrimSpace a) = None"
    by (auto simp: parsePeer_def Let_def split: if_splits)
  with assms(2,3) TrimSpace_trimmed show ?thesis by (auto simp: trimmed_def map_of_eq_None_iff)
qed

lemma parsePeersLoop_ok:
  assumes "parsePeersLoop peers es = Inr peers'" "distinct (map fst peers)"
    "\<forall>p \<in> set peers. trimmed (fst p) \<and> trimmed (snd p)"
  shows "distinct (map fst peers') \<and> (\<forall>p \<in> set peers'. trimmed (fst p) \<and> trimmed (snd p)) \<and> (es \<noteq> [] \<longrightarrow> peers' \<noteq> [])"
  using assms
proof (induction es arbitrary: peers)
  case (Cons e es)
  then obtain p1 where p1: "parsePeer peers e = Inr p1" "parsePeersLoop p1 es = Inr peers'" by auto
  from parsePeer_ok [OF p1(1) Cons.prems(2,3)] Cons.IH [OF p1(2)] p1(2) show ?case by (cases es) auto
qed simp

text \<open>
  C21. The peer list survives its command line form: any non-empty list of distinct node IDs
  with addresses, free of the separators and of space at the ends, is parsed back from the
  text \<open>id=addr,id=addr,...\<close> exactly.
\<close>

theorem peers_round_trip:
  assumes "ps \<noteq> []" "list_all peer_ok ps" "distinct (map fst ps)"
  shows "parsePeers (cfg\<lparr>cfgPeersRaw := showPeers ps\<rparr>) = Inr (cfg\<lparr>cfgPeersRaw := showPeers ps, cfgPeers := ps\<rparr>)"
proof -
  have ok: "\<And>p. p \<in> set ps \<Longrightarrow> peer_ok p" using assms(2) by (simp add: list_all_iff)
  have "showPeers ps \<noteq> []" using assms(1) by (cases ps rule: showPeers.cases) (auto simp: showPeer_def)
  moreover have "parsePeersLoop [] (Split (CHR '','') (showPeers ps)) = Inr ps"
    using parsePeersLoop_show [OF ok, of ps "[]"] Split_showPeers [OF assms(1)] ok assms(3) by simp
  ultimately show ?thesis by (simp add: parsePeers_def)
qed

definition nodeConfig :: Config where
  "nodeConfig = \<lparr>cfgNodeID = ''node1'', cfgRaftAddr = ''127.0.0.1:7001'', cfgHTTPAddr = ''127.0.0.1:8001'',
     cfgDataDir = ''/var/lib/node1'', cfgPeers = [], cfgBootstrap = True, cfgAdminKey = ''secret'', cfgPeersRaw = []\<rparr>"

theorem peers_round_trip_witness:
  "parsePeers (nodeConfig\<lparr>cfgPeersRaw := ''node1=127.0.0.1:7001,node2=127.0.0.1:7002''\<rparr>) =
   Inr (nodeConfig\<lparr>cfgPeersRaw := ''node1=127.0.0.1:7001,node2=127.0.0.1:7002'',
     cfgPeers := [(''node1'', ''127.0.0.1:7001''), (''node2'', ''127.0.0.1:7002'')]\<rparr>)"
  using peers_round_trip [of "[(''node1'', ''127.0.0.1:7001''), (''node2'', ''127.0.0.1:7002'')]" nodeConfig]
  by (simp add: peer_ok_def trimmed_def isSpace_def showPeer_def)



end
