(* ===== verification/RaftNode.thy ===== *)
theory RaftNode
  imports StateMachine Config
begin

text \<open>
  The Raft integration \<open>internal/raftnode/raftnode.go\<close>: construction of a node, proposals, and
  the leader-gated reads with their catch-up barrier. The Raft library is a parameter: a
  record of the calls the code makes. Each call returns with the state the library has
  reached by then, so replication, elections and the calls of other goroutines may happen
  before, during and after any of them.
\<close>

section \<open>The Raft library\<close>

datatype RaftState = Follower | Candidate | Leader | ShutdownState

record ('r, 'b) raft =
  rfState :: "'r \<Rightarrow> 'r \<times> RaftState"
  rfLeader :: "'r \<Rightarrow> 'r \<times> string"
  rfCurrentTerm :: "'r \<Rightarrow> 'r \<times> nat"
  rfBarrier :: "'r \<Rightarrow> 'r \<times> unit fallible"
  rfApply :: "'r \<Rightarrow> LogEntry \<Rightarrow> 'r \<times> ApplyResponse fallible"
  rfLeadershipTransfer :: "'r \<Rightarrow> 'r \<times> unit fallible"
  rfShutdown :: "'r \<Rightarrow> 'r \<times> unit fallible"
  rfFSM :: "'r \<Rightarrow> 'r \<times> 'b StateMachine"

section \<open>The node\<close>

text \<open>
  The storage of a node is the object it was handed at construction, here its handle. A
  transaction on an object that was closed fails with bbolt's \<open>ErrDatabaseNotOpen\<close>.
\<close>

record 'r RaftNode =
  rnRaft :: 'r
  rnStorage :: nat
  rnID :: string
  rnReadyTerm :: nat

definition storageOf :: "'b StateMachine \<Rightarrow> nat" where
  "storageOf sm = smHandle sm"

definition viewOn :: "'b StateMachine \<Rightarrow> nat \<Rightarrow> ('b \<Rightarrow> 'x fallible) \<Rightarrow> 'x fallible" where
  "viewOn sm handle fn =
     (if smOpen sm \<and> handle = smHandle sm then storageView (smDB sm) fn else Inl ErrDatabaseNotOpen)"

datatype readError = NotLeader string | NotCaughtUp string | ReadFailed string

fun readErrorText :: "readError \<Rightarrow> string" where
  "readErrorText (NotLeader m) = m"
| "readErrorText (NotCaughtUp m) = m"
| "readErrorText (ReadFailed m) = m"

definition ErrNotCaughtUp :: goerror where
  "ErrNotCaughtUp = ''leader elected but not yet caught up''"

definition TransferLeadership :: "('r, 'b) raft \<Rightarrow> 'r RaftNode \<Rightarrow> 'r RaftNode \<times> unit fallible" where
  "TransferLeadership R rn = (let (r, res) = rfLeadershipTransfer R (rnRaft rn) in (rn\<lparr>rnRaft := r\<rparr>, res))"

definition ensureCaughtUpAsLeader :: "('r, 'b) raft \<Rightarrow> 'r RaftNode \<Rightarrow> 'r RaftNode \<times> readError option" where
  "ensureCaughtUpAsLeader R rn =
     (let (r1, t) = rfCurrentTerm R (rnRaft rn); rn1 = rn\<lparr>rnRaft := r1\<rparr>
      in if rnReadyTerm rn1 = t then (rn1, None)
         else case rfBarrier R r1 of
           (r2, Inl err) \<Rightarrow> (rn1\<lparr>rnRaft := r2\<rparr>, Some (NotCaughtUp (ErrNotCaughtUp @ '': '' @ err)))
         | (r2, Inr _) \<Rightarrow> (rn1\<lparr>rnRaft := r2, rnReadyTerm := t\<rparr>, None))"

text \<open>
  The construction: the stores, the transport and the library may each fail to open; a
  bootstrapping node installs one voter per configured peer. What the constructors return
  is a parameter; the stores take the directory and the name of their file.
\<close>

record Server =
  svID :: string
  svAddress :: string

record 'r raftSetup =
  NewLogStore :: "string \<Rightarrow> string \<Rightarrow> unit fallible"
  NewStableStore :: "string \<Rightarrow> string \<Rightarrow> unit fallible"
  NewFileSnapshotStore :: "string \<Rightarrow> nat \<Rightarrow> unit fallible"
  NewTCPTransport :: "string \<Rightarrow> unit fallible"
  NewRaft :: "string \<Rightarrow> 'r fallible"
  BootstrapCluster :: "'r \<Rightarrow> Server list \<Rightarrow> 'r fallible"

definition raftServers :: "Config \<Rightarrow> Server list" where
  "raftServers cfg = map (\<lambda>(nodeID, addr). \<lparr>svID = nodeID, svAddress = addr\<rparr>) (cfgPeers cfg)"

definition raftnodeNew :: "'r raftSetup \<Rightarrow> Config \<Rightarrow> nat \<Rightarrow> 'r RaftNode fallible" where
  "raftnodeNew S cfg st =
     andThen (wrapErr ''Could not create logStore : '' (NewLogStore S (cfgDataDir cfg) ''raft-log.db'')) (\<lambda>_.
     andThen (wrapErr ''Could not create stableStore : '' (NewStableStore S (cfgDataDir cfg) ''raft-stable.db'')) (\<lambda>_.
     andThen (wrapErr ''Could not create snapshotStore : '' (NewFileSnapshotStore S (cfgDataDir cfg) 3)) (\<lambda>_.
     andThen (wrapErr ''Could not create transport : '' (NewTCPTransport S (cfgRaftAddr cfg))) (\<lambda>_.
     andThen (wrapErr ''Could not create raft : '' (NewRaft S (cfgNodeID cfg))) (\<lambda>newRaft.
     andThen (if cfgBootstrap cfg
              then wrapErr ''Could not bootstrap the cluster '' (BootstrapCluster S newRaft (raftServers cfg))
              else Inr newRaft) (\<lambda>r.
       Inr \<lparr>rnRaft = r, rnStorage = st, rnID = cfgNodeID cfg, rnReadyTerm = 0\<rparr>))))))"

section \<open>Leader-gated reads\<close>

text \<open>
  The body the read methods share: answer only as leader, catch up once per term, then read
  in one transaction on the node's storage. \<open>msg\<close> is the text of the rejection.
\<close>

definition leaderRead ::
  "('r, 'b) raft \<Rightarrow> string \<Rightarrow> ('b \<Rightarrow> 'x fallible) \<Rightarrow> 'r RaftNode \<Rightarrow> 'r RaftNode \<times> (readError + 'x)" where
  "leaderRead R msg fn rn =
     (let (r1, st) = rfState R (rnRaft rn)
      in if st \<noteq> Leader
         then let (r2, leader) = rfLeader R r1 in (rn\<lparr>rnRaft := r2\<rparr>, Inl (NotLeader (msg @ leader)))
         else case ensureCaughtUpAsLeader R (rn\<lparr>rnRaft := r1\<rparr>) of
           (rn2, Some err) \<Rightarrow> (rn2, Inl err)
         | (rn2, None) \<Rightarrow>
             (let (r3, sm) = rfFSM R (rnRaft rn2)
              in (rn2\<lparr>rnRaft := r3\<rparr>,
                  case viewOn sm (rnStorage rn2) fn of Inl err \<Rightarrow> Inl (ReadFailed err) | Inr x \<Rightarrow> Inr x)))"

text \<open>A listing whose callback collects every row: the error of the iteration discards them.\<close>

definition collected :: "'x listing \<Rightarrow> 'x list fallible" where
  "collected l = (case snd l of Some err \<Rightarrow> Inl err | None \<Rightarrow> Inr (fst l))"

definition rnGetSchedule where
  "rnGetSchedule R B rn tenantID i =
     leaderRead R ''failed to GetSchedule on node '' (\<lambda>tx. GetSchedule (boltTx B) tx tenantID i) rn"

definition rnListSchedulesDue where
  "rnListSchedulesDue R B rn now tenantID =
     leaderRead R ''failed to ListSchedulesDue on node '' (\<lambda>tx. collected (ListSchedulesDue (boltTx B) tx tenantID now)) rn"

definition rnGetTenant where
  "rnGetTenant R B rn tenantID =
     leaderRead R ''not leader; current leader is '' (\<lambda>tx. GetTenant (boltTx B) tx tenantID) rn"

definition rnListTenants where
  "rnListTenants R B rn = leaderRead R ''failed to ListTenants on node '' (ListTenants (boltTx B)) rn"

definition rnListTenantsPage where
  "rnListTenantsPage R B rn limit cursor =
     leaderRead R ''failed to ListTenantsPage on node '' (\<lambda>tx. ListTenantsPage (boltTx B) tx limit cursor) rn"

definition rnGetExecution where
  "rnGetExecution R B rn tenantID i =
     leaderRead R ''failed to GetExecution on node '' (\<lambda>tx. GetExecution (boltTx B) tx tenantID i) rn"

definition rnGetAttempt where
  "rnGetAttempt R B rn tenantID i =
     leaderRead R ''failed to GetAttempt on node '' (\<lambda>tx. GetAttempt (boltTx B) tx tenantID i) rn"

definition rnListExecutionsBySchedule where
  "rnListExecutionsBySchedule R B rn tenantID scheduleID =
     leaderRead R ''failed to ListExecutionsBySchedule on node ''
       (\<lambda>tx. collected (ListExecutionsBySchedule (boltTx B) tx tenantID scheduleID)) rn"

definition rnListExecutionsBySchedulePage where
  "rnListExecutionsBySchedulePage R B rn tenantID scheduleID limit cursor =
     leaderRead R ''failed to ListExecutionsBySchedulePage on node ''
       (\<lambda>tx. ListExecutionsBySchedulePage (boltTx B) tx tenantID scheduleID limit cursor) rn"

definition rnListExecutionsByStatus where
  "rnListExecutionsByStatus R B rn tenantID status =
     leaderRead R ''failed to ListExecutionsByStatus on node ''
       (\<lambda>tx. collected (ListExecutionsByStatus (boltTx B) tx tenantID status)) rn"

definition rnListExecutionsByStatusPage where
  "rnListExecutionsByStatusPage R B rn tenantID status limit cursor =
     leaderRead R ''failed to ListExecutionsByStatusPage on node ''
       (\<lambda>tx. ListExecutionsByStatusPage (boltTx B) tx tenantID status limit cursor) rn"

definition rnListAttemptsByExecution where
  "rnListAttemptsByExecution R B rn tenantID executionID =
     leaderRead R ''failed to ListAttemptsByExecution on node ''
       (\<lambda>tx. collected (ListAttemptsByExecution (boltTx B) tx tenantID executionID)) rn"

definition rnListAttemptsByExecutionPage where
  "rnListAttemptsByExecutionPage R B rn tenantID executionID limit cursor =
     leaderRead R ''failed to ListAttemptsByExecutionPage on node ''
       (\<lambda>tx. ListAttemptsByExecutionPage (boltTx B) tx tenantID executionID limit cursor) rn"

section \<open>Proposals\<close>

text \<open>
  \<open>json.Marshal\<close> of a command: it fails on a time JSON cannot carry and on a multiplier that
  is not a finite number; otherwise the entry decodes to the same command.
\<close>

definition backoffOK :: "RetryBackoff \<Rightarrow> bool" where
  "backoffOK rb \<longleftrightarrow> (case rbMultiplier rb of Finite _ \<Rightarrow> True | _ \<Rightarrow> False)"

fun commandOK :: "Command \<Rightarrow> bool" where
  "commandOK (CreateSchedule c) \<longleftrightarrow> jsonTimeOK (csFirstRunAt c) \<and> backoffOK (csRetryBackoff c)"
| "commandOK (UpdateSchedule c) \<longleftrightarrow> (case usRetryBackoff c of None \<Rightarrow> True | Some rb \<Rightarrow> backoffOK rb)"
| "commandOK (ClaimExecution c) \<longleftrightarrow> jsonTimeOK (clScheduledFor c)"
| "commandOK (RecordAttempt c) \<longleftrightarrow> optTimeOK (raStartedAt c) \<and> optTimeOK (raCompletedAt c) \<and> optTimeOK (raRetryAt c)"
| "commandOK (CompleteExecution c) \<longleftrightarrow> optTimeOK (coNextRunAt c)"
| "commandOK _ \<longleftrightarrow> True"

definition Propose ::
  "('r, 'b) raft \<Rightarrow> 'r RaftNode \<Rightarrow> Time \<Rightarrow> Command \<Rightarrow> 'r RaftNode \<times> ApplyResponse fallible" where
  "Propose R rn now cmd =
     (if \<not> commandOK cmd then (rn, Inl (''Error while marshalling command to json: '' @ marshalErr))
      else if \<not> jsonTimeOK now then (rn, Inl (''Error while marshalling to json '' @ marshalErr))
      else let (r, res) = rfApply R (rnRaft rn) \<lparr>lePayload = cmd, leProposedAt = now\<rparr>
           in (rn\<lparr>rnRaft := r\<rparr>, wrapErr ''Could not apply '' res))"

definition IsLeader :: "('r, 'b) raft \<Rightarrow> 'r RaftNode \<Rightarrow> 'r RaftNode \<times> bool" where
  "IsLeader R rn = (let (r, st) = rfState R (rnRaft rn) in (rn\<lparr>rnRaft := r\<rparr>, st = Leader))"

definition LeaderAddr :: "('r, 'b) raft \<Rightarrow> 'r RaftNode \<Rightarrow> 'r RaftNode \<times> string" where
  "LeaderAddr R rn = (let (r, addr) = rfLeader R (rnRaft rn) in (rn\<lparr>rnRaft := r\<rparr>, addr))"

text \<open>\<open>Shutdown\<close> closes everything and reports the first error.\<close>

fun firstErr :: "unit fallible list \<Rightarrow> goerror option" where
  "firstErr [] = None"
| "firstErr (Inl err # rs) = Some err"
| "firstErr (Inr _ # rs) = firstErr rs"

definition raftnodeShutdown ::
  "('r, 'b) raft \<Rightarrow> unit fallible \<Rightarrow> unit fallible \<Rightarrow> unit fallible \<Rightarrow> 'r RaftNode \<Rightarrow> 'r RaftNode \<times> goerror option" where
  "raftnodeShutdown R logStoreClose stableStoreClose transportClose rn =
     (let (r, res) = rfShutdown R (rnRaft rn)
      in (rn\<lparr>rnRaft := r\<rparr>, firstErr [res, logStoreClose, stableStoreClose, transportClose]))"

end
