(* ===== verification/Recovery.thy ===== *)
theory Recovery
  imports WorkerCorrect CommandErrors RaftNode
begin

text \<open>
  Recovery after a change of leader, on the store itself: the worker runs alone over a
  store, its reads are the storage layer's and its proposals are applied by the state
  machine. When \<open>runRecover\<close> returns without error, every execution in flight belongs to the
  node.
\<close>

section \<open>A worker over a store\<close>

text \<open>
  The state of this environment is the store and the number of clock readings so far; the
  clock, the ID generator and the callback are arbitrary.
\<close>

definition storeEnv ::
  "('b, row) bolt \<Rightarrow> platform \<Rightarrow> (nat \<Rightarrow> Time) \<Rightarrow> (nat \<Rightarrow> string) \<Rightarrow> (HttpRequest \<Rightarrow> HttpResult) \<Rightarrow> ('b \<times> nat) env" where
  "storeEnv B P clock ulid http = \<lparr>
     envTenants = (\<lambda>w. (w, ListTenants (boltTx B) (fst w))),
     envDue = (\<lambda>(s, n) t. ((s, Suc n), collected (ListSchedulesDue (boltTx B) s t (clock n)))),
     envSchedule = (\<lambda>w t i. (w, GetSchedule (boltTx B) (fst w) t i)),
     envExecutions = (\<lambda>w t st. (w, collected (ListExecutionsByStatus (boltTx B) (fst w) t st))),
     envAttempts = (\<lambda>w t i. (w, collected (ListAttemptsByExecution (boltTx B) (fst w) t i))),
     envPropose = (\<lambda>(s, n) c. let (s', resp) = Apply B P s (Inr \<lparr>lePayload = c, leProposedAt = clock n\<rparr>)
        in ((s', Suc n), if panicked resp then Inl ''leadership lost while committing log'' else Inr resp)),
     envHttp = (\<lambda>w q. (w, http q)),
     envNow = (\<lambda>(s, n). ((s, Suc n), clock n)),
     envUlid = (\<lambda>(s, n). ((s, Suc n), ulid n)),
     envCtx = (\<lambda>w. (w, None))\<rparr>"

lemma forEach_None:
  assumes "execute E (forEach (x # xs) body) w = (evs, None, w')"
  obtains evs1 w1 evs2 where "execute E (body x) w = (evs1, None, w1)" "execute E (forEach xs body) w1 = (evs2, None, w')"
  using assms
  by (cases "execute E (body x) w") (auto simp: execute_calls split: option.splits prod.splits)

lemma decodeAll_Inr:
  "\<forall>kv \<in> set kvs. f (snd kv) = Inr (g (snd kv)) \<Longrightarrow> decodeAll f kvs = Inr (map (g \<circ> snd) kvs)"
  by (induction kvs) auto

text \<open>The execution under a key, if in flight, belongs to the worker's node.\<close>

definition settled :: "Worker \<Rightarrow> db \<Rightarrow> string \<times> string \<Rightarrow> bool" where
  "settled w d k \<longleftrightarrow> (\<forall>e. dbExecutions d k = Some e \<longrightarrow> eStatus e = ExecutionStatusInFlight \<longrightarrow> eOwnerNodeID e = wNodeID w)"

text \<open>Only one execution was touched, and it is settled.\<close>

definition settles :: "Worker \<Rightarrow> string \<times> string \<Rightarrow> db \<Rightarrow> db \<Rightarrow> bool" where
  "settles w k d d' \<longleftrightarrow> dbTenants d' = dbTenants d \<and> settled w d' k \<and>
     (\<forall>k'. k' \<noteq> k \<longrightarrow> dbExecutions d' k' = dbExecutions d k')"

inductive_cases adopt_stepE: "db_step P now (AdoptExecution c) d r d'"
inductive_cases complete_stepE: "db_step P now (CompleteExecution c) d r d'"

context row_store
begin

lemma list_tenants:
  assumes "store_inv B s"
  shows "\<exists>ts. boltListTenants B s = Inr ts \<and> tnID ` set ts = dom (dbTenants (store_view B s))"
proof -
  from assms have t: "\<exists>x. r = TenantRow x \<and> k = tnID x" if "(k, r) \<in> set (bFirst B s bucketTenants)" for k r
    using that by (auto simp: store_inv_def tenants_inv_def get_iff)
  define g where "g r = the (theTenant r)" for r
  have "decodeAll unmarshalTenant (bFirst B s bucketTenants) = Inr (map (g \<circ> snd) (bFirst B s bucketTenants))"
    using t by (intro decodeAll_Inr) (fastforce simp: g_def)
  moreover have "tnID ` set (map (g \<circ> snd) (bFirst B s bucketTenants)) = dom (dbTenants (store_view B s))"
  proof -
    have "dbTenants (store_view B s) k = Some n \<longleftrightarrow> (k, TenantRow n) \<in> set (bFirst B s bucketTenants)" for k n
    proof
      assume "dbTenants (store_view B s) k = Some n"
      then obtain r where "bGet B s bucketTenants k = Some r" "theTenant r = Some n"
        by (auto simp: store_view_def bind_eq_Some_conv)
      then show "(k, TenantRow n) \<in> set (bFirst B s bucketTenants)" by (cases r) (auto simp: get_iff)
    qed (auto simp: store_view_def get_iff [symmetric])
    then show ?thesis using t by (force simp: g_def image_iff dom_def)
  qed
  ultimately show ?thesis by (auto simp: boltListTenants_def)
qed

lemma refused_dispatch:
  "Apply B P s (Inr e) = (s', Refused ce) \<Longrightarrow> Dispatch (boltTx B) P s (lePayload e) (leProposedAt e) = Inl (Rejected ce)"
  by (auto simp: Apply_def storageUpdate_def split: sum.splits failure.splits prod.splits)

lemma adopt_not_conflict:
  assumes "store_inv B s" "no_colon t" "dbExecutions (store_view B s) (t, i) = Some e" "eStatus e = ExecutionStatusInFlight"
    "Dispatch (boltTx B) P s (AdoptExecution \<lparr>adTenantID = t, adExecutionID = i, adPreviousOwner = eOwnerNodeID e, adNewOwner = n\<rparr>) now
      = Inl (Rejected ce)"
  shows "ceKind ce \<noteq> KindConflict"
  using assms(5) get_laws(2) [OF assms(1,2), of i] assms(3,4)
  by (auto simp: boltTx_def ApplyAdoptExecution_def cmdError_def kind_defs withResult_def Let_def split: if_splits sum.splits)

lemma complete_not_conflict:
  assumes "store_inv B s" "no_colon t" "dbExecutions (store_view B s) (t, i) = Some e" "eStatus e = ExecutionStatusInFlight"
    "Dispatch (boltTx B) P s (CompleteExecution (completeCmd t i st out)) now = Inl (Rejected ce)"
  shows "ceKind ce \<noteq> KindConflict"
proof -
  have nt: "\<not> IsTerminal (eStatus e)" using assms(4) terminal_not_inflight by blast
  show ?thesis using assms(5) get_laws(2) [OF assms(1,2), of i] assms(3) nt
    by (auto simp: boltTx_def ApplyCompleteExecution_def finishExecution_def advancedSchedule_def completeCmd_def cmdError_def
        kind_defs withResult_def Let_def split: if_splits sum.splits option.splits failure.splits)
qed

text \<open>One proposal about an execution in flight, when the program goes on without error.\<close>

lemma settle_execution:
  assumes r: "reachable B P s" and t: "no_colon t" and e: "dbExecutions (store_view B s) (t, i) = Some e" "eStatus e = ExecutionStatusInFlight"
    and c: "c = AdoptExecution \<lparr>adTenantID = t, adExecutionID = i, adPreviousOwner = eOwnerNodeID e, adNewOwner = wNodeID w\<rparr> \<or>
      c = CompleteExecution (completeCmd t i st out)"
    and a: "Apply B P s (Inr \<lparr>lePayload = c, leProposedAt = now\<rparr>) = (s', resp)" "\<not> panicked resp"
    and k: "\<And>ce. resp = Refused ce \<Longrightarrow> ceKind ce = KindConflict"
  shows "reachable B P s' \<and> settles w (t, i) (store_view B s) (store_view B s')"
proof -
  from reachable_inv [OF r] have inv: "store_inv B s" "rows_keyed (store_view B s)" by (auto simp: db_inv_def)
  from e inv(2) have keys: "eTenantID e = t" "eID e = i" by (auto simp: rows_keyed_def)
  from c t have adm: "admissible (store_view B s) c" by (auto simp: admissible_def completeCmd_def)
  have r': "reachable B P s'" using reachable.applied [OF r, of "\<lparr>lePayload = c, leProposedAt = now\<rparr>"] adm a(1) by simp
  have "resp \<noteq> Refused ce" for ce
  proof
    assume "resp = Refused ce"
    with k a refused_dispatch have "ceKind ce = KindConflict" "Dispatch (boltTx B) P s c now = Inl (Rejected ce)" by fastforce+
    with c adopt_not_conflict [OF inv(1) t e] complete_not_conflict [OF inv(1) t e] show False by blast
  qed
  then obtain x where x: "resp = Applied x" using a(2) by (cases resp) auto
  have "db_step P now c (store_view B s) x (store_view B s')"
    by (rule apply_cases [OF inv(1) _ a(1)]) (use adm x in auto)
  with c have "settles w (t, i) (store_view B s) (store_view B s')"
  proof (elim disjE)
    assume "c = AdoptExecution \<lparr>adTenantID = t, adExecutionID = i, adPreviousOwner = eOwnerNodeID e, adNewOwner = wNodeID w\<rparr>"
      "db_step P now c (store_view B s) x (store_view B s')"
    with e keys show ?thesis by (auto elim!: adopt_stepE simp: settles_def settled_def)
  next
    assume "c = CompleteExecution (completeCmd t i st out)" "db_step P now c (store_view B s) x (store_view B s')"
    with e keys show ?thesis
      by (auto elim!: complete_stepE simp: settles_def settled_def completeCmd_def finished_def dest: terminal_not_inflight)
  qed
  with r' show ?thesis by blast
qed

lemma recover_one:
  assumes r: "reachable B P s" and t: "no_colon t"
    and e: "dbExecutions (store_view B s) (t, eID e) = Some e" "eStatus e = ExecutionStatusInFlight"
    and x: "execute (storeEnv B P clock ulid http) (recoverOne w t e) (s, n) = (evs, None, (s', n'))"
  shows "reachable B P s' \<and> settles w (t, eID e) (store_view B s) (store_view B s')"
proof -
  let ?E = "storeEnv B P clock ulid http"
  have settle: ?thesis if "execute ?E (proposeAdopt w t e) (s, m) = (evs', None, (s', n'))" for m evs'
  proof -
    obtain s1 resp where a: "Apply B P s (Inr \<lparr>lePayload = AdoptExecution \<lparr>adTenantID = t, adExecutionID = eID e,
        adPreviousOwner = eOwnerNodeID e, adNewOwner = wNodeID w\<rparr>, leProposedAt = clock m\<rparr>) = (s1, resp)" by fastforce
    with that have "\<not> panicked resp" "s1 = s'" "\<And>ce. resp = Refused ce \<Longrightarrow> ceKind ce = KindConflict"
      by (auto simp: proposeAdopt_def execute_calls storeEnv_def split_def Let_def split: if_splits ApplyResponse.splits)
    with settle_execution [OF r t e, of _ w] a show ?thesis by blast
  qed
  have complete: ?thesis if "execute ?E (proposeComplete t (eID e) st out) (s, m) = (evs', None, (s', n'))" for m evs' st out
  proof -
    obtain s1 resp where a: "Apply B P s (Inr \<lparr>lePayload = CompleteExecution (completeCmd t (eID e) st out), leProposedAt = clock m\<rparr>) = (s1, resp)"
      by fastforce
    with that have "\<not> panicked resp" "s1 = s'" "\<And>ce. resp = Refused ce \<Longrightarrow> ceKind ce = KindConflict"
      by (auto simp: proposeComplete_def execute_calls storeEnv_def split_def Let_def split: if_splits ApplyResponse.splits)
    with settle_execution [OF r t e, of _ w] a show ?thesis by blast
  qed
  have own: ?thesis if "eOwnerNodeID e = wNodeID w" "s' = s"
    using that r e by (auto simp: settles_def settled_def)
  obtain as bucket where b: "execute ?E (adoptOrComplete w t e bucket) (s, Suc n) = (evs, None, (s', n'))"
    using x by (auto simp: recoverOne_def unlessCanceled_def prefixErr_def execute_calls storeEnv_def split: sum.splits prod.splits)
  then show ?thesis using settle complete own
    by (cases bucket) (auto simp: adoptOrComplete_def unlessCanceled_def execute_read storeEnv_def split: if_splits)
qed

lemma recover_list:
  assumes "reachable B P s" "no_colon t" "distinct (map eID es)"
    and "\<And>e. e \<in> set es \<Longrightarrow> dbExecutions (store_view B s) (t, eID e) = Some e \<and> eStatus e = ExecutionStatusInFlight"
    and "execute (storeEnv B P clock ulid http) (forEach es (recoverOne w t)) (s, n) = (evs, None, (s', n'))"
  shows "reachable B P s' \<and> dbTenants (store_view B s') = dbTenants (store_view B s) \<and>
    (\<forall>k. k \<notin> Pair t ` eID ` set es \<longrightarrow> dbExecutions (store_view B s') k = dbExecutions (store_view B s) k) \<and>
    (\<forall>e \<in> set es. settled w (store_view B s') (t, eID e))"
  using assms
proof (induction es arbitrary: s n evs)
  case (Cons e es)
  from Cons.prems(5) obtain evs1 s1 n1 evs2 where
    x: "execute (storeEnv B P clock ulid http) (recoverOne w t e) (s, n) = (evs1, None, (s1, n1))"
      "execute (storeEnv B P clock ulid http) (forEach es (recoverOne w t)) (s1, n1) = (evs2, None, (s', n'))"
    by (elim forEach_None) auto
  from Cons.prems(4) have e: "dbExecutions (store_view B s) (t, eID e) = Some e" "eStatus e = ExecutionStatusInFlight" by auto
  from recover_one [OF Cons.prems(1,2) e x(1)]
  have s1: "reachable B P s1" "dbTenants (store_view B s1) = dbTenants (store_view B s)" "settled w (store_view B s1) (t, eID e)"
    "\<And>k. k \<noteq> (t, eID e) \<Longrightarrow> dbExecutions (store_view B s1) k = dbExecutions (store_view B s) k"
    by (auto simp: settles_def)
  have "dbExecutions (store_view B s1) (t, eID e') = Some e' \<and> eStatus e' = ExecutionStatusInFlight" if "e' \<in> set es" for e'
  proof -
    from that have "eID e' \<in> eID ` set es" by (rule imageI)
    with Cons.prems(3) have "eID e' \<noteq> eID e" by (cases "eID e' = eID e") simp_all
    with s1(4) [of "(t, eID e')"] Cons.prems(4) [of e'] that show ?thesis by simp
  qed
  from Cons.IH [OF s1(1) Cons.prems(2) _ this x(2)] Cons.prems(3)
  have s': "reachable B P s'" "dbTenants (store_view B s') = dbTenants (store_view B s1)"
    "\<And>k. k \<notin> Pair t ` eID ` set es \<Longrightarrow> dbExecutions (store_view B s') k = dbExecutions (store_view B s1) k"
    "\<And>e. e \<in> set es \<Longrightarrow> settled w (store_view B s') (t, eID e)" by auto
  have "(t, eID e) \<notin> Pair t ` eID ` set es" using Cons.prems(3) by auto
  from s'(3) [OF this] s1(3) have "settled w (store_view B s') (t, eID e)" by (simp add: settled_def)
  with s1 s' show ?case by auto
qed simp

lemma recover_tenant:
  assumes "reachable B P s" "no_colon (tnID tn)"
    and x: "execute (storeEnv B P clock ulid http) (recoverTenant w tn) (s, n) = (evs, None, (s', n'))"
  shows "reachable B P s' \<and> dbTenants (store_view B s') = dbTenants (store_view B s) \<and>
    (\<forall>t i. t \<noteq> tnID tn \<longrightarrow> dbExecutions (store_view B s') (t, i) = dbExecutions (store_view B s) (t, i)) \<and>
    (\<forall>i. settled w (store_view B s') (tnID tn, i))"
proof -
  from reachable_inv [OF assms(1)] have inv: "store_inv B s" "rows_keyed (store_view B s)" by (auto simp: db_inv_def)
  have "no_colon ExecutionStatusInFlight" by (simp add: no_colon_def execution_status_defs)
  from tx_spec.list_by_status [OF is_tx inv(1) assms(2) this]
  obtain es where es: "ListExecutionsByStatus (boltTx B) s (tnID tn) ExecutionStatusInFlight = (es, None)"
    "sorted_wrt (\<lambda>x y. eID x < eID y) es"
    "set es = {e. \<exists>i. dbExecutions (store_view B s) (tnID tn, i) = Some e \<and> eStatus e = ExecutionStatusInFlight}"
    by (rule lists_rowsE)
  from es(2) have "sorted_wrt (<) (map eID es)" by (simp add: sorted_wrt_map)
  then have d: "distinct (map eID es)" using strict_sorted_iff by blast
  have rows: "\<And>e. e \<in> set es \<Longrightarrow> dbExecutions (store_view B s) (tnID tn, eID e) = Some e \<and> eStatus e = ExecutionStatusInFlight"
    using es(3) inv(2) by (fastforce simp: rows_keyed_def)
  have "execute (storeEnv B P clock ulid http) (forEach es (recoverOne w (tnID tn))) (s, n) = (evs, None, (s', n'))"
    using x es(1) by (simp add: recoverTenant_def unlessCanceled_def execute_read storeEnv_def collected_def)
  note l = recover_list [OF assms(1,2) d rows this]
  have "settled w (store_view B s') (tnID tn, i)" for i
  proof (cases "i \<in> eID ` set es")
    case True
    with l show ?thesis by auto
  next
    case False
    then have "dbExecutions (store_view B s') (tnID tn, i) = dbExecutions (store_view B s) (tnID tn, i)" using l by auto
    moreover have "eStatus e \<noteq> ExecutionStatusInFlight" if "dbExecutions (store_view B s) (tnID tn, i) = Some e" for e
      using False that es(3) inv(2) by (fastforce simp: rows_keyed_def)
    ultimately show ?thesis by (auto simp: settled_def)
  qed
  with l show ?thesis by auto
qed

lemma recover_tenants:
  assumes "reachable B P s" "\<forall>tn \<in> set tns. no_colon (tnID tn)"
    and "execute (storeEnv B P clock ulid http) (forEach tns (recoverTenant w)) (s, n) = (evs, None, (s', n'))"
  shows "reachable B P s' \<and> dbTenants (store_view B s') = dbTenants (store_view B s) \<and>
    (\<forall>t i. t \<notin> tnID ` set tns \<longrightarrow> dbExecutions (store_view B s') (t, i) = dbExecutions (store_view B s) (t, i)) \<and>
    (\<forall>t i. t \<in> tnID ` set tns \<longrightarrow> settled w (store_view B s') (t, i))"
  using assms
proof (induction tns arbitrary: s n evs)
  case (Cons tn tns)
  from Cons.prems(3) obtain evs1 s1 n1 evs2 where
    x: "execute (storeEnv B P clock ulid http) (recoverTenant w tn) (s, n) = (evs1, None, (s1, n1))"
      "execute (storeEnv B P clock ulid http) (forEach tns (recoverTenant w)) (s1, n1) = (evs2, None, (s', n'))"
    by (elim forEach_None) auto
  from recover_tenant [OF Cons.prems(1) _ x(1)] Cons.prems(2)
  have s1: "reachable B P s1" "dbTenants (store_view B s1) = dbTenants (store_view B s)"
    "\<And>t i. t \<noteq> tnID tn \<Longrightarrow> dbExecutions (store_view B s1) (t, i) = dbExecutions (store_view B s) (t, i)"
    "\<And>i. settled w (store_view B s1) (tnID tn, i)" by auto
  note s' = Cons.IH [OF s1(1) _ x(2)]
  have "settled w (store_view B s') (t, i)" if "t = tnID tn" for t i
    using s' s1(4) [of i] Cons.prems(2) that by (cases "t \<in> tnID ` set tns") (auto simp: settled_def)
  with s' s1 Cons.prems(2) show ?case by auto
qed simp

lemma recover_settles:
  assumes "reachable B P s" "\<And>t. dbTenants (store_view B s) t \<noteq> None \<Longrightarrow> no_colon t"
    and x: "execute (storeEnv B P clock ulid http) (runRecover w) (s, n) = (evs, None, (s', n'))"
  shows "reachable B P s' \<and> (\<forall>t i. dbTenants (store_view B s) t \<noteq> None \<longrightarrow> settled w (store_view B s') (t, i))"
proof -
  from reachable_inv [OF assms(1)] have "store_inv B s" by blast
  from list_tenants [OF this] obtain tns where tns: "boltListTenants B s = Inr tns"
    "tnID ` set tns = dom (dbTenants (store_view B s))" by blast
  have "execute (storeEnv B P clock ulid http) (forEach tns (recoverTenant w)) (s, n) = (evs, None, (s', n'))"
    using x tns(1) by (simp add: runRecover_def execute_read storeEnv_def boltTx_def)
  moreover have "\<forall>tn \<in> set tns. no_colon (tnID tn)" using assms(2) tns(2) by (metis domD imageI option.distinct(1))
  ultimately have "reachable B P s'" "\<forall>t i. t \<in> tnID ` set tns \<longrightarrow> settled w (store_view B s') (t, i)"
    using recover_tenants [OF assms(1)] by blast+
  then show ?thesis unfolding tns(2) by (simp add: dom_def)
qed

end

end
