(* ===== verification/Cluster.thy ===== *)
theory Cluster
  imports System
begin

text \<open>
  The invariant of the cluster and what follows from it: the workers' programs are safe, the
  store is always reachable by admissible commands, and no run is dispatched for the first
  time twice.
\<close>

section \<open>The worker's programs are safe\<close>

lemma no_colon_statuses [simp]: "no_colon ExecutionStatusInFlight"
  by (simp add: no_colon_def execution_status_defs)

lemma safe_unlessCanceled: "safe p D G \<Longrightarrow> safe (unlessCanceled p) D G"
  by (auto simp: unlessCanceled_def split: option.split)

lemma safe_complete: "no_colon t \<Longrightarrow> safe (proposeComplete t i st out) D G"
  by (auto simp: proposeComplete_def completeCmd_def split: sum.split ApplyResponse.split)

lemma safe_adopt: "no_colon t \<Longrightarrow> safe (proposeAdopt w t e) D G"
  by (auto simp: proposeAdopt_def split: sum.split ApplyResponse.split)

lemma safe_record:
  "no_colon (raTenantID c) \<Longrightarrow> no_colon (raExecutionID c) \<Longrightarrow> raID c \<in> D \<Longrightarrow> safe (recordAndComplete i c) D G"
  by (auto simp: recordAndComplete_def safe_complete intro!: safe_unlessCanceled split: sum.split ApplyResponse.split)

lemma recordCmd_sel [simp]:
  "raTenantID (recordCmd P N n e x k i st ct res) = sTenantID x" "raExecutionID (recordCmd P N n e x k i st ct res) = eID e"
  "raID (recordCmd P N n e x k i st ct res) = i"
  by (simp_all add: recordCmd_def Let_def split: prod.split)

lemma safe_dispatch: "plainExecution e \<Longrightarrow> safe (dispatchAttempt P N w e n) D G"
  by (auto simp: dispatchAttempt_def plainExecution_def intro!: safe_record split: sum.split option.split)

lemma safe_task: "plainExecution (taskExecution t) \<Longrightarrow> safe (taskRun P N w t) {} {}"
proof (cases t)
  case (InFlight kind e)
  assume "plainExecution (taskExecution t)"
  with InFlight have e: "plainExecution e" "no_colon (eTenantID e)" by (simp_all add: plainExecution_def)
  have "safe (runTimeout e) {} {}" using e by (auto simp: runTimeout_def split: sum.split ApplyResponse.split)
  moreover have "safe (runFinalize e) {} {}" using e by (auto simp: runFinalize_def safe_complete Let_def split: sum.split)
  ultimately show ?thesis using InFlight safe_dispatch [OF e(1)]
    by (simp add: inFlightTask_run_def runRetry_def safe_unlessCanceled)
qed (simp add: freshFireTask_run_def safe_unlessCanceled safe_dispatch)

lemma safe_recoverOne: "no_colon t \<Longrightarrow> safe (recoverOne w t e) {} {}"
  by (auto simp: recoverOne_def prefixErr_def adoptOrComplete_def safe_complete safe_adopt
      intro!: safe_unlessCanceled safe_andThenP split: sum.split Bucket.split)

lemma safe_runRecover: "safe (runRecover w) {} {}"
  by (auto simp: runRecover_def recoverTenant_def intro!: safe_forEach safe_unlessCanceled safe_recoverOne split: sum.split)

lemma safe_fireDue: "no_colon t \<Longrightarrow> no_colon (sID x) \<Longrightarrow> safe (fireDue w t x) {} {}"
  by (auto simp: fireDue_def intro!: safe_unlessCanceled split: option.split sum.split ApplyResponse.split Result.split)

lemma safe_scanInFlight: "no_colon t \<Longrightarrow> plainExecution e \<Longrightarrow> safe (scanInFlight t e) {} {}"
  by (auto simp: scanInFlight_def intro!: safe_unlessCanceled split: option.split sum.split)

lemma safe_runTick: "safe (runTick w) {} {}"
proof -
  have "safe (tickTenant w tn) {} {}" if "no_colon (tnID tn)" for tn
    unfolding tickTenant_def using that
    by (auto intro!: safe_unlessCanceled safe_andThenP safe_forEach safe_fireDue safe_scanInFlight split: sum.split option.split)
  then show ?thesis
    by (auto simp: runTick_def intro!: safe_andThenP safe_forEach split: sum.split option.split)
qed

section \<open>What a command adds\<close>

text \<open>All IDs in the database are free of the separator.\<close>

definition plainDb :: "db \<Rightarrow> bool" where
  "plainDb d \<longleftrightarrow>
     (\<forall>t. dbTenants d t \<noteq> None \<longrightarrow> no_colon t) \<and>
     (\<forall>t i. dbSchedules d (t, i) \<noteq> None \<longrightarrow> no_colon t \<and> no_colon i) \<and>
     (\<forall>t i e. dbExecutions d (t, i) = Some e \<longrightarrow> no_colon t \<and> no_colon (eScheduleID e) \<and> no_colon i)"

text \<open>The IDs of the executions and attempts in the database, of whatever tenant.\<close>

definition idsIn :: "db \<Rightarrow> string set" where
  "idsIn d = {i. \<exists>t. dbExecutions d (t, i) \<noteq> None \<or> dbAttempts d (t, i) \<noteq> None}"

definition plainCommand :: "Command \<Rightarrow> bool" where
  "plainCommand c \<longleftrightarrow> clientCommand c \<or> ids_ok c \<and> (\<forall>n. c \<noteq> CreateTenant n) \<and> (\<forall>i \<in> set (spentIDs c). no_colon i)"

lemma plain_ids_ok: "plainCommand c \<Longrightarrow> ids_ok c"
  by (cases c) (auto simp: plainCommand_def)

lemma plain_set:
  assumes "plainDb d"
  shows "no_colon (tnID n) \<Longrightarrow> plainDb (setTenant d n)"
    "no_colon (sTenantID x) \<Longrightarrow> no_colon (sID x) \<Longrightarrow> plainDb (setSchedule d x)"
    "no_colon (eTenantID e) \<Longrightarrow> no_colon (eScheduleID e) \<Longrightarrow> no_colon (eID e) \<Longrightarrow> plainDb (setExecution d e)"
    "plainDb (setAttempt d a)"
  using assms by (auto simp: plainDb_def)

lemma plain_row:
  assumes "plainDb d" "rows_keyed d"
  shows "dbSchedules d k = Some x \<Longrightarrow> no_colon (sTenantID x) \<and> no_colon (sID x)"
    "dbExecutions d k = Some e \<Longrightarrow> no_colon (eTenantID e) \<and> no_colon (eScheduleID e) \<and> no_colon (eID e)"
  using assms by (cases k; fastforce simp: plainDb_def rows_keyed_def)+

lemma step_plain:
  assumes "db_step P now c d r d'" "plainCommand c" "plainDb d" "rows_keyed d"
  shows "plainDb d'"
proof -
  note row = plain_row [OF assms(3,4)] and set = plain_set [OF assms(3)] and pc = assms(2) [unfolded plainCommand_def]
  from assms(1) show ?thesis
  proof (cases rule: db_step.cases)
    case (update_schedule c x y)
    with row(1) [OF update_schedule(4)] updated_static(1,2) [OF update_schedule(7)] set(2) show ?thesis by simp
  next
    case (complete_execution c e x msg y e')
    with row(2) [OF complete_execution(4)] row(1) [OF complete_execution(8)] advanced_static(1,2) [OF complete_execution(9)]
    show ?thesis by (auto intro!: plain_set(2,3) assms(3) simp: finished_def)
  next
    case (fail_execution_timeout c e x msg y e')
    with row(2) [OF fail_execution_timeout(4)] row(1) [OF fail_execution_timeout(7)] advanced_static(1,2) [OF fail_execution_timeout(8)]
    show ?thesis by (auto intro!: plain_set(2,3) assms(3) simp: finished_def)
  next
    case (record_attempt c e a e')
    with row(2) [OF record_attempt(4)] show ?thesis by (auto intro!: plain_set(3,4) assms(3))
  qed (use row set pc assms(3) in \<open>auto simp: claimedExecution_def\<close>)
qed

lemma step_ids:
  assumes "db_step P now c d r d'" "rows_keyed d"
  shows "idsIn d' \<subseteq> idsIn d \<union> set (spentIDs c)"
  using assms
  by (cases rule: db_step.cases)
    (auto simp: idsIn_def rows_keyed_def finished_def claimedExecution_def recordedAttempt_def split: if_splits)

section \<open>The invariant\<close>

text \<open>
  Every store so far is reachable and plain; every goroutine is safe with the IDs it holds;
  no ID is held twice, by goroutines or pending commands, and none that is held is in the
  database; a granted execution not yet queued, or a queued one, is counted once.
\<close>

definition heldIDs :: "'b system \<Rightarrow> string list" where
  "heldIDs sy = concat (map goDrawn (syGos sy)) @ concat (map spentIDs (syPending sy))"

definition grantsOf :: "'b system \<Rightarrow> Execution list" where
  "grantsOf sy = concat (map goGranted (syGos sy)) @ syFired sy"

text \<open>The execution has a row, which may have moved on since.\<close>

definition has_row :: "('b, row) bolt \<Rightarrow> 'b system \<Rightarrow> Execution \<Rightarrow> bool" where
  "has_row B sy e \<longleftrightarrow>
     (\<exists>e'. dbExecutions (store_view B (syStore sy)) (eTenantID e, eID e) = Some e' \<and> execution_evolves e e')"

definition sys_inv :: "('b, row) bolt \<Rightarrow> platform \<Rightarrow> 'b system \<Rightarrow> bool" where
  "sys_inv B P sy \<longleftrightarrow>
     syStore sy \<in> syPast sy \<and> (\<forall>s \<in> syPast sy. reachable B P s \<and> plainDb (store_view B s)) \<and>
     (\<forall>g \<in> set (syGos sy). safe (goProg g) (set (goDrawn g)) (set (goGranted g))) \<and>
     list_all plainCommand (syPending sy) \<and>
     distinct (heldIDs sy) \<and> set (heldIDs sy) \<subseteq> syUsed sy \<and> list_all no_colon (heldIDs sy) \<and>
     set (heldIDs sy) \<inter> idsIn (store_view B (syStore sy)) = {} \<and> idsIn (store_view B (syStore sy)) \<subseteq> syUsed sy \<and>
     distinct (map eID (grantsOf sy)) \<and> (\<forall>e \<in> set (grantsOf sy). has_row B sy e)"

lemma has_row_id: "has_row B sy e \<Longrightarrow> eID e \<in> idsIn (store_view B (syStore sy))"
  by (auto simp: has_row_def idsIn_def)

lemma has_row_later:
  "has_row B sy e \<Longrightarrow> db_evolves (store_view B (syStore sy)) (store_view B (syStore sy')) \<Longrightarrow> has_row B sy' e"
  unfolding has_row_def db_evolves_def using execution_evolves_trans by blast

lemma has_row_same [simp]:
  "has_row B (sy\<lparr>syGos := gs\<rparr>) = has_row B sy" "has_row B (sy\<lparr>syPending := cs\<rparr>) = has_row B sy"
  "has_row B (sy\<lparr>syFired := es\<rparr>) = has_row B sy" "has_row B (sy\<lparr>syUsed := u\<rparr>) = has_row B sy"
  by (simp_all add: fun_eq_iff has_row_def)

context row_store
begin

text \<open>Committing a plain command whose own ID is unused.\<close>

lemma commit_step:
  assumes r: "reachable B P (syStore sy)" "plainDb (store_view B (syStore sy))" and c: "plainCommand cmd"
    and f: "set (spentIDs cmd) \<inter> idsIn (store_view B (syStore sy)) = {}"
    and a: "commit B P cmd now sy = (sy', resp)"
  shows "sy' = sy\<lparr>syStore := syStore sy', syPast := insert (syStore sy') (syPast sy)\<rparr>"
    and "reachable B P (syStore sy')" "plainDb (store_view B (syStore sy'))"
    and "idsIn (store_view B (syStore sy)) \<subseteq> idsIn (store_view B (syStore sy'))"
    and "idsIn (store_view B (syStore sy')) \<subseteq> idsIn (store_view B (syStore sy)) \<union> set (spentIDs cmd)"
    and "db_evolves (store_view B (syStore sy)) (store_view B (syStore sy'))"
    and "resp = Applied (ResExecution e) \<Longrightarrow> plainExecution e"
    and "e' \<in> set (grantedBy cmd (Inr resp)) \<Longrightarrow> eID e' \<in> set (spentIDs cmd) \<and> has_row B sy' e'"
proof -
  let ?e = "\<lparr>lePayload = cmd, leProposedAt = now\<rparr>"
  from a obtain s' where s': "Apply B P (syStore sy) (Inr ?e) = (s', resp)"
    "sy' = sy\<lparr>syStore := s', syPast := insert s' (syPast sy)\<rparr>" by (auto simp: commit_def split: prod.splits)
  then show "sy' = sy\<lparr>syStore := syStore sy', syPast := insert (syStore sy') (syPast sy)\<rparr>" by simp
  from reachable_inv [OF r(1)] have inv: "store_inv B (syStore sy)" "db_inv (store_view B (syStore sy))" "rows_keyed (store_view B (syStore sy))"
    by (auto simp: db_inv_def)
  have "fresh_ids (store_view B (syStore sy)) cmd" using f by (cases cmd) (auto simp: idsIn_def)
  then have adm: "admissible (store_view B (syStore sy)) (lePayload ?e)" using plain_ids_ok [OF c] by (simp add: admissible_def)
  show "reachable B P (syStore sy')" using reachable.applied [OF r(1) adm] s' by simp
  from apply_evolves [OF r(1) adm] s' show ev: "db_evolves (store_view B (syStore sy)) (store_view B (syStore sy'))" by simp
  then show "idsIn (store_view B (syStore sy)) \<subseteq> idsIn (store_view B (syStore sy'))"
    unfolding idsIn_def db_evolves_def by fastforce
  have "plainDb (store_view B s') \<and> idsIn (store_view B s') \<subseteq> idsIn (store_view B (syStore sy)) \<union> set (spentIDs cmd) \<and>
    (\<forall>e. resp = Applied (ResExecution e) \<longrightarrow> plainExecution e) \<and>
    (\<forall>e \<in> set (grantedBy cmd (Inr resp)). eID e \<in> set (spentIDs cmd) \<and> dbExecutions (store_view B s') (eTenantID e, eID e) = Some e)"
    using inv(1) adm s'(1)
  proof (cases rule: apply_cases)
    case (applied x)
    then have st: "db_step P now cmd (store_view B (syStore sy)) x (store_view B s')" by simp
    have res: "\<exists>t i. dbExecutions (store_view B s') (t, i) = Some e \<and> eTenantID e = t \<and> eID e = i" if "x = ResExecution e" for e
      using st that by (cases rule: db_step.cases) auto
    have "plainExecution e" if "x = ResExecution e" for e
      using res [OF that] step_plain [OF st c r(2) inv(3)] by (fastforce simp: plainDb_def plainExecution_def)
    moreover have "\<forall>e \<in> set (grantedBy cmd (Inr resp)). eID e \<in> set (spentIDs cmd) \<and> dbExecutions (store_view B s') (eTenantID e, eID e) = Some e"
      using st by (cases rule: db_step.cases) (auto simp: applied(1) claimedExecution_def)
    ultimately show ?thesis using applied(1) step_plain [OF st c r(2) inv(3)] step_ids [OF st inv(3)] by simp
  next
    case unchanged
    then have "grantedBy cmd (Inr resp) = []" by (cases "(cmd, Inr resp :: ApplyResponse fallible)" rule: grantedBy.cases) auto
    with unchanged r(2) show ?thesis by auto
  qed
  with s' show "plainDb (store_view B (syStore sy'))" "idsIn (store_view B (syStore sy')) \<subseteq> idsIn (store_view B (syStore sy)) \<union> set (spentIDs cmd)"
    "resp = Applied (ResExecution e) \<Longrightarrow> plainExecution e"
    "e' \<in> set (grantedBy cmd (Inr resp)) \<Longrightarrow> eID e' \<in> set (spentIDs cmd) \<and> has_row B sy' e'"
    by (simp_all add: has_row_def)
qed

text \<open>The rows a read returns are plain.\<close>

lemma read_safe:
  assumes "reachable B P s" "plainDb (store_view B s)" "readStep B s p p'" "safe p D G"
  shows "safe p' D G"
proof -
  from reachable_inv [OF assms(1)] have inv: "store_inv B s" "rows_keyed (store_view B s)" by (auto simp: db_inv_def)
  from assms(3,4) show ?thesis
  proof (cases rule: readStep.cases)
    case (tenants r err k)
    from list_tenants [OF inv(1)] obtain ts where "boltListTenants B s = Inr ts" "tnID ` set ts = dom (dbTenants (store_view B s))" by blast
    then have "no_colon (tnID t)" if "boltListTenants B s = Inr ts'" "t \<in> set ts'" for t ts'
      using that assms(2) unfolding plainDb_def by (metis domD imageI option.distinct(1) sum.inject(2))
    with tenants assms(4) show ?thesis by (auto simp: boltTx_def)
  next
    case (due r t now err k)
    with assms(4) have t: "no_colon t" by simp
    from tx_spec.list_due [OF is_tx inv(1) t, of now] obtain xs where xs: "ListSchedulesDue (boltTx B) s t now = (xs, None)"
      "set xs = {x. \<exists>i. dbSchedules (store_view B s) (t, i) = Some x \<and> sStatus x = ScheduleStatusActive \<and> isDue now x}"
      by (elim lists_rowsE) auto
    then have "\<forall>x \<in> set xs. no_colon (sID x)" using plain_row(1) [OF assms(2) inv(2)] by blast
    with due assms(4) xs(1) show ?thesis by (auto simp: collected_def)
  next
    case (schedule r t i err k)
    with assms(4) have t: "no_colon t" by simp
    with schedule assms(4) tx_spec.get_schedule [OF is_tx inv(1) t, of i] inv(2) show ?thesis by (auto simp: rows_keyed_def)
  next
    case (executions r t st err k)
    with assms(4) have t: "no_colon t" "no_colon st" by simp_all
    from tx_spec.list_by_status [OF is_tx inv(1) t] obtain es where es: "ListExecutionsByStatus (boltTx B) s t st = (es, None)"
      "set es = {e. \<exists>i. dbExecutions (store_view B s) (t, i) = Some e \<and> eStatus e = st}" by (rule lists_rowsE)
    then have "\<forall>e \<in> set es. plainExecution e" using plain_row(2) [OF assms(2) inv(2)] by (auto simp: plainExecution_def)
    with executions assms(4) es(1) show ?thesis by (auto simp: collected_def)
  qed (use assms(4) in auto)
qed

end

section \<open>One goroutine at a time\<close>

text \<open>What a goroutine brings along when it joins a system that satisfies the invariant.\<close>

definition go_ok :: "('b, row) bolt \<Rightarrow> 'b system \<Rightarrow> go \<Rightarrow> bool" where
  "go_ok B sy g \<longleftrightarrow>
     safe (goProg g) (set (goDrawn g)) (set (goGranted g)) \<and>
     distinct (goDrawn g) \<and> list_all no_colon (goDrawn g) \<and> set (goDrawn g) \<subseteq> syUsed sy \<and>
     set (goDrawn g) \<inter> set (heldIDs sy) = {} \<and> set (goDrawn g) \<inter> idsIn (store_view B (syStore sy)) = {} \<and>
     distinct (map eID (goGranted g)) \<and> eID ` set (goGranted g) \<inter> eID ` set (grantsOf sy) = {} \<and>
     (\<forall>e \<in> set (goGranted g). has_row B sy e)"

lemma distinct_middle: "distinct (xs @ ds @ ys) \<longleftrightarrow> distinct ds \<and> set ds \<inter> set (xs @ ys) = {} \<and> distinct (xs @ ys)"
  by auto

lemma held_middle:
  obtains xs ys where "heldIDs (sy\<lparr>syGos := gs @ g # gs'\<rparr>) = xs @ goDrawn g @ ys" "heldIDs (sy\<lparr>syGos := gs @ gs'\<rparr>) = xs @ ys"
  using that [of "concat (map goDrawn gs)" "concat (map goDrawn gs') @ concat (map spentIDs (syPending sy))"] by (simp add: heldIDs_def)

lemma held_go:
  "set (heldIDs (sy\<lparr>syGos := gs @ g # gs'\<rparr>)) = set (goDrawn g) \<union> set (heldIDs (sy\<lparr>syGos := gs @ gs'\<rparr>))"
  "distinct (heldIDs (sy\<lparr>syGos := gs @ g # gs'\<rparr>)) \<longleftrightarrow>
     distinct (goDrawn g) \<and> set (goDrawn g) \<inter> set (heldIDs (sy\<lparr>syGos := gs @ gs'\<rparr>)) = {} \<and> distinct (heldIDs (sy\<lparr>syGos := gs @ gs'\<rparr>))"
  "list_all no_colon (heldIDs (sy\<lparr>syGos := gs @ g # gs'\<rparr>)) \<longleftrightarrow>
     list_all no_colon (goDrawn g) \<and> list_all no_colon (heldIDs (sy\<lparr>syGos := gs @ gs'\<rparr>))"
  by (rule held_middle [where sy = sy and gs = gs and g = g and gs' = gs']; auto simp only: distinct_middle set_append list_all_append)+

lemma grants_middle:
  obtains xs ys where "grantsOf (sy\<lparr>syGos := gs @ g # gs'\<rparr>) = xs @ goGranted g @ ys" "grantsOf (sy\<lparr>syGos := gs @ gs'\<rparr>) = xs @ ys"
  using that [of "concat (map goGranted gs)" "concat (map goGranted gs') @ syFired sy"] by (simp add: grantsOf_def)

lemma grants_go:
  "set (grantsOf (sy\<lparr>syGos := gs @ g # gs'\<rparr>)) = set (goGranted g) \<union> set (grantsOf (sy\<lparr>syGos := gs @ gs'\<rparr>))"
  "distinct (map eID (grantsOf (sy\<lparr>syGos := gs @ g # gs'\<rparr>))) \<longleftrightarrow> distinct (map eID (goGranted g)) \<and>
     eID ` set (goGranted g) \<inter> eID ` set (grantsOf (sy\<lparr>syGos := gs @ gs'\<rparr>)) = {} \<and> distinct (map eID (grantsOf (sy\<lparr>syGos := gs @ gs'\<rparr>)))"
  by (rule grants_middle [where sy = sy and gs = gs and g = g and gs' = gs'];
      auto simp only: distinct_middle set_append map_append set_map image_Un)+

lemma sys_inv_go:
  "sys_inv B P (sy\<lparr>syGos := gs @ g # gs'\<rparr>) \<longleftrightarrow> sys_inv B P (sy\<lparr>syGos := gs @ gs'\<rparr>) \<and> go_ok B (sy\<lparr>syGos := gs @ gs'\<rparr>) g"
  unfolding sys_inv_def go_ok_def held_go grants_go by (simp add: Int_Un_distrib2 ball_Un conj_ac)

lemma spent_short: "distinct (spentIDs c)"
  by (cases c) auto

lemma sys_inv_pending:
  assumes "sys_inv B P sy" "plainCommand c" "list_all no_colon (spentIDs c)" "set (spentIDs c) \<subseteq> syUsed sy"
    "set (spentIDs c) \<inter> (set (heldIDs sy) \<union> idsIn (store_view B (syStore sy))) = {}"
  shows "sys_inv B P (sy\<lparr>syPending := c # syPending sy\<rparr>)"
proof -
  let ?sy = "sy\<lparr>syPending := c # syPending sy\<rparr>"
  define xs ys where "xs = concat (map goDrawn (syGos sy))" and "ys = concat (map spentIDs (syPending sy))"
  have h: "heldIDs ?sy = xs @ spentIDs c @ ys" "heldIDs sy = xs @ ys" "grantsOf ?sy = grantsOf sy"
    by (simp_all add: heldIDs_def grantsOf_def xs_def ys_def)
  from assms(5) spent_short [of c] assms(1) have d: "distinct (heldIDs ?sy)" unfolding h(1) distinct_middle sys_inv_def h(2) by blast
  have s: "set (heldIDs ?sy) = set (spentIDs c) \<union> set (heldIDs sy)" unfolding h by auto
  have l: "list_all no_colon (heldIDs ?sy)" using assms(1,3) unfolding sys_inv_def h by simp
  from assms(1,2,4,5) d s l h(3) show ?thesis unfolding sys_inv_def by (simp add: Int_Un_distrib2) blast
qed

lemma sys_inv_fired:
  assumes "sys_inv B P sy" "distinct (map eID es)" "eID ` set es \<inter> eID ` set (grantsOf sy) = {}" "\<forall>e \<in> set es. has_row B sy e"
  shows "sys_inv B P (sy\<lparr>syFired := es @ syFired sy\<rparr>)"
proof -
  let ?sy = "sy\<lparr>syFired := es @ syFired sy\<rparr>"
  define xs ys where "xs = concat (map goGranted (syGos sy))" and "ys = syFired sy"
  have h: "grantsOf ?sy = xs @ es @ ys" "grantsOf sy = xs @ ys" "heldIDs ?sy = heldIDs sy"
    by (simp_all add: heldIDs_def grantsOf_def xs_def ys_def)
  have d: "distinct (map eID (grantsOf ?sy))" using assms(1-3) unfolding h map_append distinct_middle sys_inv_def by (simp add: image_Un)
  have s: "\<forall>e \<in> set (grantsOf ?sy). has_row B sy e" using assms(1,4) unfolding sys_inv_def h by auto
  from assms(1) d s h(3) show ?thesis unfolding sys_inv_def by simp
qed

lemma sy_commute:
  "sy\<lparr>syGos := gs, syPending := cs\<rparr> = sy\<lparr>syPending := cs, syGos := gs\<rparr>"
  "sy\<lparr>syGos := gs, syFired := es\<rparr> = sy\<lparr>syFired := es, syGos := gs\<rparr>"
  by simp_all

lemma sys_inv_split:
  assumes "sys_inv B P sy" "syGos sy = gs @ g # gs'"
  shows "sys_inv B P (sy\<lparr>syGos := gs @ gs'\<rparr>)" "go_ok B (sy\<lparr>syGos := gs @ gs'\<rparr>) g"
proof -
  from assms(2) have "sy = sy\<lparr>syGos := gs @ g # gs'\<rparr>" by simp
  with assms(1) have "sys_inv B P (sy\<lparr>syGos := gs @ g # gs'\<rparr>)" by simp
  then show "sys_inv B P (sy\<lparr>syGos := gs @ gs'\<rparr>)" "go_ok B (sy\<lparr>syGos := gs @ gs'\<rparr>) g" by (simp_all add: sys_inv_go)
qed

lemma sys_inv_new:
  assumes "sys_inv B P sy" "safe p {} {}"
  shows "sys_inv B P (sy\<lparr>syGos := syGos sy @ [\<lparr>goWorker = w, goProg = p, goDrawn = [], goGranted = []\<rparr>]\<rparr>)"
  using assms sys_inv_go [where sy = sy and gs = "syGos sy" and gs' = "[]"] by (simp add: go_ok_def)

lemma commit_gos: "commit B P cmd now sy = (sy', resp) \<Longrightarrow> commit B P cmd now (sy\<lparr>syGos := gs\<rparr>) = (sy'\<lparr>syGos := gs\<rparr>, resp)"
  by (auto simp: commit_def split: prod.splits)

lemma commit_pending: "commit B P cmd now sy = (sy', resp) \<Longrightarrow> commit B P cmd now (sy\<lparr>syPending := cs\<rparr>) = (sy'\<lparr>syPending := cs\<rparr>, resp)"
  by (auto simp: commit_def split: prod.splits)

lemma client_spends_nothing: "clientCommand c \<Longrightarrow> spentIDs c = [] \<and> plainCommand c"
  by (cases c) (auto simp: plainCommand_def)

context row_store
begin

lemma commit_inv:
  assumes "sys_inv B P sy" "plainCommand cmd" "commit B P cmd now sy = (sy', resp)"
    and spent: "set (spentIDs cmd) \<inter> (idsIn (store_view B (syStore sy)) \<union> set (heldIDs sy)) = {}" "set (spentIDs cmd) \<subseteq> syUsed sy"
  shows "sys_inv B P sy'"
proof -
  let ?d = "store_view B (syStore sy)" and ?d' = "store_view B (syStore sy')"
  from assms(1) have r: "reachable B P (syStore sy)" "plainDb ?d" by (auto simp: sys_inv_def)
  from spent(1) have f: "set (spentIDs cmd) \<inter> idsIn ?d = {}" by blast
  note st = commit_step [OF r assms(2) f assms(3)]
  have same: "syGos sy' = syGos sy" "syPending sy' = syPending sy" "syFired sy' = syFired sy" "syUsed sy' = syUsed sy"
    "syPast sy' = insert (syStore sy') (syPast sy)" by (subst st(1); simp)+
  have "has_row B sy' e" if "e \<in> set (grantsOf sy)" for e
  proof -
    from that assms(1) have "has_row B sy e" unfolding sys_inv_def by blast
    then show ?thesis by (rule has_row_later [OF _ st(6)])
  qed
  moreover have "heldIDs sy' = heldIDs sy" "grantsOf sy' = grantsOf sy" by (simp_all add: heldIDs_def grantsOf_def same)
  ultimately show ?thesis using assms(1) st(2-5) spent unfolding sys_inv_def same by (simp add: same) blast
qed

text \<open>The steps of a goroutine that change more than its program.\<close>

lemma propose_ok:
  assumes inv: "sys_inv B P sy" and g: "go_ok B sy g" and p: "goProg g = ProposeCmd cmd k" and c: "commit B P cmd now sy = (sy', resp)"
  shows "sys_inv B P sy'"
    and "go_ok B sy' (g\<lparr>goProg := k (Inr resp), goDrawn := filter (\<lambda>i. i \<notin> set (spentIDs cmd)) (goDrawn g),
      goGranted := grantedBy cmd (Inr resp) @ goGranted g\<rparr>)" (is "go_ok B sy' ?g")
proof -
  from g p have pc: "plainCommand cmd" "set (spentIDs cmd) \<subseteq> set (goDrawn g)"
    by (auto simp: go_ok_def plainCommand_def list_all_iff)
  then have sp: "set (spentIDs cmd) \<inter> (idsIn (store_view B (syStore sy)) \<union> set (heldIDs sy)) = {}" "set (spentIDs cmd) \<subseteq> syUsed sy"
    using g by (auto simp: go_ok_def)
  show "sys_inv B P sy'" by (rule commit_inv [OF inv pc(1) c sp])
  have r: "reachable B P (syStore sy)" "plainDb (store_view B (syStore sy))" "set (spentIDs cmd) \<inter> idsIn (store_view B (syStore sy)) = {}"
    using inv sp(1) by (auto simp: sys_inv_def)
  note st = commit_step [OF r(1,2) pc(1) r(3) c]
  have same: "syUsed sy' = syUsed sy" "heldIDs sy' = heldIDs sy" "grantsOf sy' = grantsOf sy"
    by (subst st(1); simp add: heldIDs_def grantsOf_def)+
  have plain: "\<forall>e. Inr resp = (Inr (Applied (ResExecution e)) :: ApplyResponse fallible) \<longrightarrow> plainExecution e" using st(7) by simp
  have "safe (k (Inr resp)) (set (goDrawn g) - set (spentIDs cmd)) (set (goGranted g) \<union> set (grantedBy cmd (Inr resp)))"
    using g p plain unfolding go_ok_def by (metis safe.simps(7))
  then have sf: "safe (goProg ?g) (set (goDrawn ?g)) (set (goGranted ?g))" by (simp add: set_diff_eq Un_commute)
  have one: "distinct (map eID (grantedBy cmd (Inr resp)))"
    by (cases "(cmd, Inr resp :: ApplyResponse fallible)" rule: grantedBy.cases) auto
  have old: "eID e \<notin> set (spentIDs cmd)" if "e \<in> set (goGranted g) \<union> set (grantsOf sy)" for e
    using that g inv r(3) has_row_id [of B sy e] by (auto simp: go_ok_def sys_inv_def)
  have new: "eID e \<in> set (spentIDs cmd)" "has_row B sy' e" if "e \<in> set (grantedBy cmd (Inr resp))" for e using st(8) [OF that] by blast+
  have rows: "\<forall>e \<in> set (goGranted ?g). has_row B sy' e"
    using g new(2) has_row_later [OF _ st(6)] by (auto simp: go_ok_def)
  have "distinct (map eID (goGranted ?g))" "eID ` set (goGranted ?g) \<inter> eID ` set (grantsOf sy') = {}"
    using g one old new(1) unfolding same go_ok_def by fastforce+
  with sf rows g sp st(4,5) same show "go_ok B sy' ?g" unfolding go_ok_def by (auto simp: list_all_iff)
qed

lemma unanswered_ok:
  assumes inv: "sys_inv B P sy" and g: "go_ok B sy g" and p: "goProg g = ProposeCmd cmd k"
  shows "sys_inv B P (sy\<lparr>syPending := cmd # syPending sy\<rparr>)"
    and "go_ok B (sy\<lparr>syPending := cmd # syPending sy\<rparr>)
      (g\<lparr>goProg := k (Inl err), goDrawn := filter (\<lambda>i. i \<notin> set (spentIDs cmd)) (goDrawn g)\<rparr>)" (is "go_ok B ?sy ?g")
proof -
  from g p have pc: "plainCommand cmd" "set (spentIDs cmd) \<subseteq> set (goDrawn g)"
    by (auto simp: go_ok_def plainCommand_def list_all_iff)
  show "sys_inv B P ?sy" by (rule sys_inv_pending [OF inv pc(1)]) (use g pc(2) in \<open>auto simp: go_ok_def list_all_iff\<close>)
  have plain: "\<forall>e. (Inl err :: ApplyResponse fallible) = Inr (Applied (ResExecution e)) \<longrightarrow> plainExecution e" by simp
  have "safe (k (Inl err)) (set (goDrawn g) - set (spentIDs cmd)) (set (goGranted g) \<union> set (grantedBy cmd (Inl err)))"
    using g p plain unfolding go_ok_def by (metis safe.simps(7))
  then have "safe (goProg ?g) (set (goDrawn ?g)) (set (goGranted ?g))" by (simp add: set_diff_eq)
  with g show "go_ok B ?sy ?g" by (auto simp: go_ok_def heldIDs_def grantsOf_def list_all_iff)
qed

lemma enqueue_ok:
  assumes inv: "sys_inv B P sy" and g: "go_ok B sy g" and p: "goProg g = Enqueue task p"
  shows "sys_inv B P (sy\<lparr>syFired := firedBy task @ syFired sy\<rparr>)"
    and "go_ok B (sy\<lparr>syFired := firedBy task @ syFired sy\<rparr>)
      (g\<lparr>goProg := p, goGranted := filter (\<lambda>e. e \<notin> set (firedBy task)) (goGranted g)\<rparr>)" (is "go_ok B ?sy ?g")
    and "safe (taskRun P N w task) {} {}"
proof -
  from g p have t: "plainExecution (taskExecution task)" "set (firedBy task) \<subseteq> set (goGranted g)"
    "safe p (set (goDrawn g)) (set (goGranted g) - set (firedBy task))" by (auto simp: go_ok_def)
  show "safe (taskRun P N w task) {} {}" by (rule safe_task [OF t(1)])
  have "distinct (map eID (firedBy task))" by (cases task) auto
  moreover have "eID ` set (firedBy task) \<inter> eID ` set (grantsOf sy) = {}" "\<forall>e \<in> set (firedBy task). has_row B sy e"
    using g image_mono [OF t(2), of eID] t(2) unfolding go_ok_def by blast+
  ultimately show "sys_inv B P ?sy" by (rule sys_inv_fired [OF inv])
  have inj: "inj_on eID (set (goGranted g))" "distinct (map eID (goGranted g))" using g by (auto simp: go_ok_def distinct_map)
  have "set (goGranted ?g) = set (goGranted g) - set (firedBy task)" by auto
  then have "safe (goProg ?g) (set (goDrawn ?g)) (set (goGranted ?g))" using t(3) by simp
  moreover have "eID ` set (goGranted ?g) \<inter> eID ` set (firedBy task) = {}" using inj(1) t(2) by (auto dest: inj_onD)
  moreover have "distinct (map eID (goGranted ?g))" using inj(2) by (simp add: distinct_map_filter)
  moreover have "set (grantsOf ?sy) = set (firedBy task) \<union> set (grantsOf sy)" "heldIDs ?sy = heldIDs sy"
    by (auto simp: grantsOf_def heldIDs_def)
  ultimately show "go_ok B ?sy ?g" using g unfolding go_ok_def by (simp add: image_Un Int_Un_distrib) blast
qed

lemma draw_ok:
  assumes "sys_inv B P (sy\<lparr>syGos := hs\<rparr>)" "go_ok B (sy\<lparr>syGos := hs\<rparr>) g"
    and "goProg g = DrawUlid k" "i \<notin> syUsed sy" "no_colon i"
  shows "sys_inv B P (sy\<lparr>syUsed := insert i (syUsed sy), syGos := hs\<rparr>)"
    and "go_ok B (sy\<lparr>syUsed := insert i (syUsed sy), syGos := hs\<rparr>) (g\<lparr>goProg := k i, goDrawn := i # goDrawn g\<rparr>)"
  using assms by (auto simp: go_ok_def sys_inv_def heldIDs_def grantsOf_def)

lemma sysStep_inv:
  assumes inv: "sys_inv B P sy" and step: "sysStep B P N sy sy'"
  shows "sys_inv B P sy'"
  using step
proof (cases rule: sysStep.cases)
  case (client cmd now resp)
  with client_spends_nothing [of cmd] show ?thesis by (intro commit_inv [OF inv _ client(2)]) simp_all
next
  case (deliver cs cmd cs' now sy1 resp)
  let ?sy = "sy\<lparr>syPending := cs @ cs'\<rparr>"
  have "sys_inv B P ?sy" "plainCommand cmd"
    "set (spentIDs cmd) \<inter> (idsIn (store_view B (syStore ?sy)) \<union> set (heldIDs ?sy)) = {}" "set (spentIDs cmd) \<subseteq> syUsed ?sy"
    using inv unfolding sys_inv_def heldIDs_def grantsOf_def deliver(2) by auto
  with commit_inv [OF this(1,2) commit_pending [OF deliver(3)]] deliver(1) show ?thesis by simp
next
  case (begin_recover w)
  then show ?thesis using sys_inv_new [OF inv safe_runRecover] by simp
next
  case (begin_tick w)
  then show ?thesis using sys_inv_new [OF inv safe_runTick] by simp
next
  case (call gs g gs' s p)
  note g = sys_inv_split [OF inv call(2)]
  from inv call(3) have "reachable B P s" "plainDb (store_view B s)" by (auto simp: sys_inv_def)
  from read_safe [OF this call(4)] g(2) have "go_ok B (sy\<lparr>syGos := gs @ gs'\<rparr>) (g\<lparr>goProg := p\<rparr>)" by (auto simp: go_ok_def)
  with g(1) call(1) show ?thesis by (simp add: sys_inv_go)
next
  case (draw gs g gs' k i)
  note g = sys_inv_split [OF inv draw(2)]
  from draw_ok [OF g draw(3-5)] draw(1) show ?thesis by (simp add: sys_inv_go)
next
  case (propose gs g gs' cmd k now sy1 resp)
  note g = sys_inv_split [OF inv propose(2)]
  from propose_ok [OF g propose(3) commit_gos [OF propose(4), of "gs @ gs'"]] propose(1) show ?thesis by (simp add: sys_inv_go)
next
  case (propose_unanswered gs g gs' cmd k err)
  note g = sys_inv_split [OF inv propose_unanswered(2)]
  from unanswered_ok(1) [OF g propose_unanswered(3)] unanswered_ok(2) [OF g propose_unanswered(3), of err] propose_unanswered(1) show ?thesis by (simp add: sys_inv_go sy_commute)
next
  case (enqueue gs g gs' task p)
  note g = sys_inv_split [OF inv enqueue(2)]
  let ?sy = "sy\<lparr>syFired := firedBy task @ syFired sy\<rparr>"
  let ?g = "g\<lparr>goProg := p, goGranted := filter (\<lambda>e. e \<notin> set (firedBy task)) (goGranted g)\<rparr>"
  from enqueue_ok(1,2) [OF g enqueue(3)] have "sys_inv B P (?sy\<lparr>syGos := gs @ ?g # gs'\<rparr>)" by (simp add: sys_inv_go sy_commute)
  from sys_inv_new [OF this enqueue_ok(3) [OF g enqueue(3), where N = N and w = "goWorker g"]] enqueue(1) show ?thesis by simp
qed

lemma run_inv: "sysRun B P N sy \<Longrightarrow> sys_inv B P sy"
proof (induction rule: sysRun.induct)
  case (start s)
  with reachable.initial empty_store_ok(2) show ?case
    by (auto simp: sys_inv_def startSystem_def heldIDs_def grantsOf_def plainDb_def idsIn_def emptyDb_def)
qed (rule sysStep_inv)

end

end
