(* ===== verification/RaftReads.thy ===== *)
theory RaftReads
  imports RaftNode
begin

text \<open>
  What the leader-gated reads guarantee. The locale \<open>raft_log\<close> states what the code relies on
  from the Raft library: terms and the applied log only grow, a barrier that succeeds was
  committed and applied in the node's term, an entry applied in some term comes after every
  entry committed in an earlier one, and the state machine holds the applied log. It is
  instantiated by a cluster of one voter.
\<close>

section \<open>What Raft promises\<close>

text \<open>
  \<open>step\<close> is whatever the library does between two observations of its state, \<open>log\<close> the entries
  its state machine has applied, \<open>appliedTerm\<close> the term of the last item applied, barriers
  included, and \<open>prior r t\<close> the entries committed in terms before \<open>t\<close>.
\<close>

locale raft_log =
  fixes R :: "('r, 'b) raft" and B :: "('b, row) bolt" and P :: platform and s0 :: 'b
    and ok :: "'r \<Rightarrow> bool" and step :: "'r \<Rightarrow> 'r \<Rightarrow> bool"
    and term_of :: "'r \<Rightarrow> nat" and log :: "'r \<Rightarrow> LogEntry list" and appliedTerm :: "'r \<Rightarrow> nat"
    and prior :: "'r \<Rightarrow> nat \<Rightarrow> LogEntry list"
  assumes step_ok: "ok r \<Longrightarrow> step r r' \<Longrightarrow> ok r'"
    and step_grows: "ok r \<Longrightarrow> step r r' \<Longrightarrow>
      term_of r \<le> term_of r' \<and> appliedTerm r \<le> appliedTerm r' \<and> prefix (log r) (log r')"
    and state_step: "rfState R r = (r', st) \<Longrightarrow> step r r'"
    and leader_step: "rfLeader R r = (r', l) \<Longrightarrow> step r r'"
    and term_step: "rfCurrentTerm R r = (r', t) \<Longrightarrow> step r r' \<and> t = term_of r'"
    and barrier_step: "rfBarrier R r = (r', res) \<Longrightarrow> step r r'"
    and fsm_step: "rfFSM R r = (r', sm) \<Longrightarrow> step r r'"
    and apply_step: "rfApply R r e = (r', ares) \<Longrightarrow> step r r'"
    and barrier_applied: "ok r \<Longrightarrow> rfBarrier R r = (r', Inr u) \<Longrightarrow> term_of r \<le> appliedTerm r'"
    and log_complete: "ok r \<Longrightarrow> t \<le> appliedTerm r \<Longrightarrow> prefix (prior r t) (log r)"
    and fsm_log: "ok r \<Longrightarrow> rfFSM R r = (r', sm) \<Longrightarrow> reads_same B (smDB sm) (fst (replay B P s0 (log r')))"
    and apply_response: "ok r \<Longrightarrow> rfApply R r e = (r', Inr resp) \<Longrightarrow>
      \<exists>l. prefix (log r) l \<and> prefix (l @ [e]) (log r') \<and> resp = snd (Apply B P (fst (replay B P s0 l)) (Inr e))"
begin

text \<open>The node's claim to be caught up in its ready term is true.\<close>

definition node_ok :: "'r RaftNode \<Rightarrow> bool" where
  "node_ok rn \<longleftrightarrow> ok (rnRaft rn) \<and> rnReadyTerm rn \<le> appliedTerm (rnRaft rn)"

lemma node_ok_step: "node_ok rn \<Longrightarrow> step (rnRaft rn) r' \<Longrightarrow> node_ok (rn\<lparr>rnRaft := r'\<rparr>)"
  using step_ok [of "rnRaft rn" r'] step_grows [of "rnRaft rn" r'] by (auto simp: node_ok_def)

lemma catch_up:
  assumes "node_ok rn" "ensureCaughtUpAsLeader R rn = (rn', res)"
  shows "node_ok rn'" "rnStorage rn' = rnStorage rn"
    and "res = None \<Longrightarrow> term_of (rnRaft rn) \<le> appliedTerm (rnRaft rn')"
proof -
  obtain r1 t where c: "rfCurrentTerm R (rnRaft rn) = (r1, t)" by fastforce
  obtain r2 b where b: "rfBarrier R r1 = (r2, b)" by fastforce
  from assms(1) have ok: "ok (rnRaft rn)" "rnReadyTerm rn \<le> appliedTerm (rnRaft rn)" by (simp_all add: node_ok_def)
  from term_step [OF c] have t: "step (rnRaft rn) r1" "t = term_of r1" by blast+
  from step_ok [OF ok(1) t(1)] step_grows [OF ok(1) t(1)]
  have r1: "ok r1" "term_of (rnRaft rn) \<le> term_of r1" "appliedTerm (rnRaft rn) \<le> appliedTerm r1" by blast+
  note s2 = barrier_step [OF b]
  from step_ok [OF r1(1) s2] step_grows [OF r1(1) s2] have r2: "ok r2" "appliedTerm r1 \<le> appliedTerm r2" by blast+
  have "node_ok rn' \<and> rnStorage rn' = rnStorage rn \<and> (res = None \<longrightarrow> term_of (rnRaft rn) \<le> appliedTerm (rnRaft rn'))"
  proof (cases "rnReadyTerm rn = t")
    case True
    with assms(2) c have "rn' = rn\<lparr>rnRaft := r1\<rparr>" by (auto simp: ensureCaughtUpAsLeader_def)
    with True ok r1 t(2) show ?thesis by (auto simp: node_ok_def)
  next
    case ready: False
    show ?thesis
    proof (cases b)
      case (Inl err)
      with ready assms(2) c b have "rn' = rn\<lparr>rnRaft := r2\<rparr>" "res \<noteq> None" by (auto simp: ensureCaughtUpAsLeader_def)
      with ok r1 r2 show ?thesis by (auto simp: node_ok_def)
    next
      case (Inr u)
      with ready assms(2) c b have "rn' = rn\<lparr>rnRaft := r2, rnReadyTerm := t\<rparr>" by (auto simp: ensureCaughtUpAsLeader_def)
      moreover from barrier_applied [OF r1(1)] b Inr have "term_of r1 \<le> appliedTerm r2" by blast
      ultimately show ?thesis using ok r1 r2 t(2) by (auto simp: node_ok_def)
    qed
  qed
  then show "node_ok rn'" "rnStorage rn' = rnStorage rn" "res = None \<Longrightarrow> term_of (rnRaft rn) \<le> appliedTerm (rnRaft rn')"
    by blast+
qed

text \<open>A read that answers saw every entry committed in an earlier term.\<close>

lemma leader_read:
  assumes "node_ok rn" "leaderRead R msg fn rn = (rn', res)"
  shows "node_ok rn'"
    and "res = Inr x \<Longrightarrow> \<exists>db. prefix (prior (rnRaft rn') (term_of (rnRaft rn))) (log (rnRaft rn')) \<and>
      reads_same B db (fst (replay B P s0 (log (rnRaft rn')))) \<and> fn db = Inr x"
proof -
  obtain r1 st where s: "rfState R (rnRaft rn) = (r1, st)" by fastforce
  obtain rl l where l: "rfLeader R r1 = (rl, l)" by fastforce
  obtain rn2 e where c: "ensureCaughtUpAsLeader R (rn\<lparr>rnRaft := r1\<rparr>) = (rn2, e)" by fastforce
  obtain r3 sm where f: "rfFSM R (rnRaft rn2) = (r3, sm)" by fastforce
  note n1 = node_ok_step [OF assms(1) state_step [OF s]]
  have nl: "node_ok (rn\<lparr>rnRaft := rl\<rparr>)" using node_ok_step [OF n1] leader_step [OF l] by simp
  note n2 = catch_up [OF n1 c]
  note n3 = node_ok_step [OF n2(1) fsm_step [OF f]]
  have "node_ok rn' \<and> (res = Inr x \<longrightarrow> (\<exists>db. prefix (prior (rnRaft rn') (term_of (rnRaft rn))) (log (rnRaft rn')) \<and>
      reads_same B db (fst (replay B P s0 (log (rnRaft rn')))) \<and> fn db = Inr x))"
  proof (cases "st = Leader \<and> e = None")
    case False
    with assms(2) s l c n2(1) nl show ?thesis by (auto simp: leaderRead_def split: if_splits option.splits)
  next
    case True
    with assms(2) s c f have rn': "rn' = rn2\<lparr>rnRaft := r3\<rparr>"
      and res: "res = (case viewOn sm (rnStorage rn2) fn of Inl err \<Rightarrow> Inl (ReadFailed err) | Inr y \<Rightarrow> Inr y)"
      by (simp_all add: leaderRead_def split_def)
    have ok: "ok (rnRaft rn)" "ok r1" "ok (rnRaft rn2)" "ok r3" using assms(1) n1 n2(1) n3 by (simp_all add: node_ok_def)
    from True n2(3) have "term_of r1 \<le> appliedTerm (rnRaft rn2)" by simp
    moreover have "appliedTerm (rnRaft rn2) \<le> appliedTerm r3" "term_of (rnRaft rn) \<le> term_of r1"
      using step_grows [OF ok(3) fsm_step [OF f]] step_grows [OF ok(1) state_step [OF s]] by blast+
    ultimately have "term_of (rnRaft rn) \<le> appliedTerm r3" by linarith
    from log_complete [OF ok(4) this] have p: "prefix (prior r3 (term_of (rnRaft rn))) (log r3)" .
    moreover have "reads_same B (smDB sm) (fst (replay B P s0 (log r3)))" using fsm_log [OF ok(3) f] .
    moreover have "fn (smDB sm) = Inr x" if "res = Inr x"
      using that res by (auto simp: viewOn_def storageView_def split: sum.splits if_splits)
    ultimately show ?thesis using n3 rn' by auto
  qed
  then show "node_ok rn'" "res = Inr x \<Longrightarrow> \<exists>db. prefix (prior (rnRaft rn') (term_of (rnRaft rn))) (log (rnRaft rn')) \<and>
      reads_same B db (fst (replay B P s0 (log (rnRaft rn')))) \<and> fn db = Inr x" by blast+
qed

lemma propose_applied:
  assumes "node_ok rn" "Propose R rn now cmd = (rn', res)"
  shows "node_ok rn'"
    and "res = Inr resp \<Longrightarrow> \<exists>l. prefix (log (rnRaft rn)) l \<and> prefix (l @ [\<lparr>lePayload = cmd, leProposedAt = now\<rparr>]) (log (rnRaft rn')) \<and>
      resp = snd (Apply B P (fst (replay B P s0 l)) (Inr \<lparr>lePayload = cmd, leProposedAt = now\<rparr>))"
proof -
  obtain r a where r: "rfApply R (rnRaft rn) \<lparr>lePayload = cmd, leProposedAt = now\<rparr> = (r, a)" by fastforce
  note n = node_ok_step [OF assms(1) apply_step [OF r]]
  from assms n r show "node_ok rn'" by (auto simp: Propose_def split: if_splits)
  assume "res = Inr resp"
  with assms(2) r have "a = Inr resp" "rn' = rn\<lparr>rnRaft := r\<rparr>" by (auto simp: Propose_def split: if_splits)
  with apply_response r assms(1) show "\<exists>l. prefix (log (rnRaft rn)) l \<and> prefix (l @ [\<lparr>lePayload = cmd, leProposedAt = now\<rparr>]) (log (rnRaft rn')) \<and>
      resp = snd (Apply B P (fst (replay B P s0 l)) (Inr \<lparr>lePayload = cmd, leProposedAt = now\<rparr>))"
    by (simp add: node_ok_def)
qed

end

section \<open>A cluster of one voter\<close>

text \<open>
  The library when the node is the only voter: as leader it commits and applies at once. The
  log keeps its barriers, with the term each item was appended in.
\<close>

record solo =
  slTerm :: nat
  slLeader :: bool
  slLog :: "(nat \<times> LogEntry option) list"
  slSM :: "row mem StateMachine"

definition soloEntries :: "(nat \<times> LogEntry option) list \<Rightarrow> LogEntry list" where
  "soloEntries l = List.map_filter snd l"

definition soloBarrier :: "solo \<Rightarrow> solo \<times> unit fallible" where
  "soloBarrier r = (if slLeader r then (r\<lparr>slLog := slLog r @ [(slTerm r, None)]\<rparr>, Inr ()) else (r, Inl ''node is not the leader''))"

definition soloApply :: "platform \<Rightarrow> solo \<Rightarrow> LogEntry \<Rightarrow> solo \<times> ApplyResponse fallible" where
  "soloApply P r e =
     (if slLeader r then
        let (s, resp) = Apply memBolt P (smDB (slSM r)) (Inr e)
        in if panicked resp then (r, Inl ''raft is already shutdown'')
           else (r\<lparr>slLog := slLog r @ [(slTerm r, Some e)], slSM := (slSM r)\<lparr>smDB := s\<rparr>\<rparr>, Inr resp)
      else (r, Inl ''node is not the leader''))"

definition soloRaft :: "platform \<Rightarrow> (solo, row mem) raft" where
  "soloRaft P = \<lparr>
     rfState = (\<lambda>r. (r, if slLeader r then Leader else Follower)),
     rfLeader = (\<lambda>r. (r, if slLeader r then ''self'' else [])),
     rfCurrentTerm = (\<lambda>r. (r, slTerm r)),
     rfBarrier = soloBarrier, rfApply = soloApply P,
     rfLeadershipTransfer = (\<lambda>r. (r, Inl ''cannot find peer'')),
     rfShutdown = (\<lambda>r. (r\<lparr>slLeader := False\<rparr>, Inr ())),
     rfFSM = (\<lambda>r. (r, slSM r))\<rparr>"

definition soloAppliedTerm :: "solo \<Rightarrow> nat" where
  "soloAppliedTerm r = (if slLog r = [] then 0 else fst (last (slLog r)))"

definition soloPrior :: "solo \<Rightarrow> nat \<Rightarrow> LogEntry list" where
  "soloPrior r t = soloEntries (filter (\<lambda>x. fst x < t) (slLog r))"

definition soloOk :: "platform \<Rightarrow> solo \<Rightarrow> bool" where
  "soloOk P r \<longleftrightarrow> sorted (map fst (slLog r)) \<and> (\<forall>x \<in> set (slLog r). fst x \<le> slTerm r) \<and>
     (\<exists>rs. replay memBolt P [] (soloEntries (slLog r)) = (smDB (slSM r), rs) \<and> \<not> (\<exists>q \<in> set rs. panicked q))"

text \<open>Elections move to a later term; a restored snapshot replaces the database object.\<close>

inductive soloStep :: "platform \<Rightarrow> solo \<Rightarrow> solo \<Rightarrow> bool" for P where
  stay: "soloStep P r r"
| elect: "slTerm r \<le> t \<Longrightarrow> soloStep P r (r\<lparr>slTerm := t, slLeader := b\<rparr>)"
| barrier: "soloBarrier r = (r', res) \<Longrightarrow> soloStep P r r'"
| entry: "soloApply P r e = (r', ares) \<Longrightarrow> soloStep P r r'"
| restore: "soloStep P r (r\<lparr>slSM := (slSM r)\<lparr>smHandle := Suc (smHandle (slSM r))\<rparr>\<rparr>)"

lemma replay_snoc:
  assumes "replay B P s l = (s1, rs)" "\<not> (\<exists>q \<in> set rs. panicked q)" "Apply B P s1 (Inr e) = (s2, r)"
  shows "replay B P s (l @ [e]) = (s2, rs @ [r])"
  using assms
proof (induction l arbitrary: s rs)
  case (Cons x l)
  then show ?case by (cases "Apply B P s (Inr x)"; cases "replay B P (fst (Apply B P s (Inr x))) l") (auto split: if_splits)
qed simp

lemma soloEntries_append [simp]: "soloEntries (xs @ ys) = soloEntries xs @ soloEntries ys"
  by (simp add: soloEntries_def List.map_filter_def)

lemma soloEntries_single [simp]: "soloEntries [(t, None)] = []" "soloEntries [(t, Some e)] = [e]" "soloEntries [] = []"
  by (simp_all add: soloEntries_def List.map_filter_def)

lemma sorted_filter_split:
  assumes "sorted (map fst l)"
  shows "\<exists>rest. l = filter (\<lambda>x. fst x < (t::nat)) l @ rest"
  using assms
proof (induction l)
  case (Cons x l)
  show ?case
  proof (cases "fst x < t")
    case True
    with Cons show ?thesis by auto
  next
    case False
    with Cons.prems have "filter (\<lambda>x. fst x < t) (x # l) = []" by (auto simp: filter_empty_conv)
    then show ?thesis by simp
  qed
qed simp

lemma solo_step:
  assumes "soloStep P r r'" "soloOk P r"
  shows "soloOk P r' \<and> slTerm r \<le> slTerm r' \<and> soloAppliedTerm r \<le> soloAppliedTerm r' \<and>
    prefix (soloEntries (slLog r)) (soloEntries (slLog r'))"
  using assms
proof (cases rule: soloStep.cases)
  case (barrier res)
  with assms(2) show ?thesis
    by (fastforce simp: soloBarrier_def soloOk_def sorted_append soloAppliedTerm_def split: if_splits)
next
  case (entry e ares)
  obtain s resp where a: "Apply memBolt P (smDB (slSM r)) (Inr e) = (s, resp)" by fastforce
  show ?thesis
  proof (cases "slLeader r \<and> \<not> panicked resp")
    case False
    with entry a assms(2) show ?thesis by (auto simp: soloApply_def split: if_splits)
  next
    case True
    with entry a have r': "r' = r\<lparr>slLog := slLog r @ [(slTerm r, Some e)], slSM := (slSM r)\<lparr>smDB := s\<rparr>\<rparr>"
      by (simp add: soloApply_def)
    from assms(2) obtain rs where rs: "replay memBolt P [] (soloEntries (slLog r)) = (smDB (slSM r), rs)"
      "\<not> (\<exists>q \<in> set rs. panicked q)" by (auto simp: soloOk_def)
    have "replay memBolt P [] (soloEntries (slLog r) @ [e]) = (s, rs @ [resp])" by (rule replay_snoc [OF rs a])
    moreover have "\<not> (\<exists>q \<in> set (rs @ [resp]). panicked q)" using rs(2) True by auto
    ultimately have "\<exists>qs. replay memBolt P [] (soloEntries (slLog r')) = (smDB (slSM r'), qs) \<and> \<not> (\<exists>q \<in> set qs. panicked q)"
      by (intro exI [of _ "rs @ [resp]"]) (simp add: r')
    with assms(2) show ?thesis unfolding r' soloOk_def by (auto simp: sorted_append soloAppliedTerm_def)
  qed
qed (auto simp: soloOk_def soloAppliedTerm_def intro: order_trans)

lemma solo_prior:
  assumes "soloOk P r"
  shows "prefix (soloPrior r t) (soloEntries (slLog r))"
proof -
  from assms sorted_filter_split [of "slLog r" t] obtain rest
    where "slLog r = filter (\<lambda>x. fst x < t) (slLog r) @ rest" by (auto simp: soloOk_def)
  then have "soloEntries (slLog r) = soloPrior r t @ soloEntries rest"
    unfolding soloPrior_def by (metis soloEntries_append)
  then show ?thesis by simp
qed

interpretation solo_log: raft_log "soloRaft P" memBolt P "[]" "soloOk P" "soloStep P" slTerm "\<lambda>r. soloEntries (slLog r)"
  soloAppliedTerm soloPrior
proof
  fix r r' :: solo and sm
  assume r: "soloOk P r" "rfFSM (soloRaft P) r = (r', sm)"
  then show "reads_same memBolt (smDB sm) (fst (replay memBolt P [] (soloEntries (slLog r'))))"
    by (auto simp: soloRaft_def soloOk_def reads_same_def)
next
  fix r r' :: solo and e resp
  assume r: "soloOk P r" "rfApply (soloRaft P) r e = (r', Inr resp)"
  then have a: "soloApply P r e = (r', Inr resp)" by (simp add: soloRaft_def)
  obtain s q where "Apply memBolt P (smDB (slSM r)) (Inr e) = (s, q)" by fastforce
  with a r(1) have "resp = snd (Apply memBolt P (fst (replay memBolt P [] (soloEntries (slLog r)))) (Inr e))"
    "slLog r' = slLog r @ [(slTerm r, Some e)]"
    by (auto simp: soloApply_def soloOk_def split: if_splits)
  then show "\<exists>l. prefix (soloEntries (slLog r)) l \<and> prefix (l @ [e]) (soloEntries (slLog r')) \<and>
      resp = snd (Apply memBolt P (fst (replay memBolt P [] l)) (Inr e))"
    by (intro exI [of _ "soloEntries (slLog r)"]) simp
next
  fix r r' :: solo and u
  assume "rfBarrier (soloRaft P) r = (r', Inr u)"
  then show "slTerm r \<le> soloAppliedTerm r'"
    by (auto simp: soloRaft_def soloBarrier_def soloAppliedTerm_def split: if_splits)
qed (auto simp: soloRaft_def solo_prior dest: solo_step intro: soloStep.intros)

end
