(* ===== verification/WorkerScenario.thy ===== *)
theory WorkerScenario
  imports Scenario Recovery RaftReads
begin

text \<open>
  The demonstration run continued: a tenant is created, the leader is replaced while the
  execution is in flight, and the new leader's worker recovers it. Also the run of a task
  against a callback that succeeds, and a cluster of one voter that took over in a later
  term.
\<close>

section \<open>Recovery by another node\<close>

definition createT :: CreateTenantCommand where
  "createT = \<lparr>ctID = ''t'', ctName = ''Tenant'', ctAPIKeyHash = ''h''\<rparr>"

definition tenantT :: Tenant where
  "tenantT = \<lparr>tnID = ''t'', tnName = ''Tenant'', tnCreatedAt = instant 2, tnAPIKeyHash = ''h''\<rparr>"

definition storeT :: "row mem" where
  "storeT = ((bucketTenants, ''t''), TenantRow tenantT) # store2"

definition execR :: Execution where
  "execR = exec0\<lparr>eOwnerNodeID := ''n2''\<rparr>"

definition adoptE :: AdoptExecutionCommand where
  "adoptE = \<lparr>adTenantID = ''t'', adExecutionID = ''e'', adPreviousOwner = ''n1'', adNewOwner = ''n2''\<rparr>"

definition storeR :: "row mem" where
  "storeR =
    [((bucketExecutionsBySchedule, ''t:s:e''), NoValue), ((bucketExecutionsByStatus, ''t:in_flight:e''), NoValue),
     ((bucketExecutions, ''t:e''), ExecutionRow execR), ((bucketTenants, ''t''), TenantRow tenantT),
     ((bucketExecutionsBySchedule, ''t:s:e''), NoValue), ((bucketExecutions, ''t:e''), ExecutionRow exec0)] @ store1"

lemma execR_sel:
  "eID execR = ''e''" "eTenantID execR = ''t''" "eScheduleID execR = ''s''" "eStatus execR = ExecutionStatusInFlight"
  "marshalExecution execR = Inr (ExecutionRow execR)"
  using demo_sel(19) by (simp_all add: execR_def demo_sel marshalExecution_def split: if_splits)

lemma put_tenant: "PutTenant (boltTx memBolt) store2 tenantT = Inr storeT"
  by (simp add: boltTx_def boltPutTenant_def memBolt_def memPut_def tenantT_def marshalTenant_def instants storeT_def)

lemma put_execR: "PutExecution (boltTx memBolt) storeT execR = Inr storeR"
  by (simp add: mem_simps demo_sel execR_sel storeT_def store1_def store2_def storeR_def execution_status_defs)

lemma demo_tenant: "Apply memBolt utcPlatform store2 (Inr (entry (CreateTenant createT) 2)) = (storeT, Applied (ResTenant tenantT))"
proof (rule mem_apply)
  have "GetTenant (boltTx memBolt) store2 ''t'' = Inr None"
    by (simp add: boltTx_def boltGetTenant_def getRow_def memBolt_def store2_def store1_def)
  then show "Dispatch (boltTx memBolt) utcPlatform store2 (CreateTenant createT) (instant 2) = Inr (storeT, ResTenant tenantT)"
    using put_tenant unfolding tenantT_def by (simp add: ApplyCreateTenant_def createT_def Let_def withResult_def)
qed

lemma demo_adopt: "Apply memBolt utcPlatform storeT (Inr (entry (AdoptExecution adoptE) 3)) = (storeR, Applied (ResExecution execR))"
proof (rule mem_apply)
  have "GetExecution (boltTx memBolt) storeT ''t'' ''e'' = Inr (Some exec0)"
    by (simp add: mem_simps storeT_def store2_def store1_def)
  then show "Dispatch (boltTx memBolt) utcPlatform storeT (AdoptExecution adoptE) (instant 3) = Inr (storeR, ResExecution execR)"
    using put_execR unfolding execR_def by (simp add: ApplyAdoptExecution_def adoptE_def demo_sel withResult_def)
qed

lemma storeT_reachable: "reachable memBolt utcPlatform storeT"
  using reachable.applied [OF demo_reachable(3), of "entry (CreateTenant createT) 2"] demo_tenant by (simp add: admissible_def)

lemma demo_reads:
  "ListTenants (boltTx memBolt) storeT = Inr [tenantT]"
  "ListExecutionsByStatus (boltTx memBolt) storeT ''t'' ExecutionStatusInFlight = ([exec0], None)"
  "ListAttemptsByExecution (boltTx memBolt) storeT ''t'' ''e'' = ([], None)"
  by (simp_all add: mem_simps boltListTenants_def boltListExecutionsByStatus_def boltListAttemptsByExecution_def scanIndex_def
      memItems_def memKeys_def storeT_def store2_def store1_def execution_status_defs fetchIndexed_def)

abbreviation demoEnv :: "(row mem \<times> nat) env" where
  "demoEnv \<equiv> storeEnv memBolt utcPlatform (\<lambda>_. instant 3) (\<lambda>_. ''u'') (\<lambda>_. (None, None))"

lemma demo_recover:
  "\<exists>evs n. execute demoEnv (runRecover (NewWorker ''n2'')) (storeT, 0) = (evs, None, (storeR, n))"
proof -
  have "Apply memBolt utcPlatform storeT (Inr \<lparr>lePayload = AdoptExecution \<lparr>adTenantID = ''t'', adExecutionID = ''e'',
      adPreviousOwner = ''n1'', adNewOwner = ''n2''\<rparr>, leProposedAt = instant 3\<rparr>) = (storeR, Applied (ResExecution execR))"
    using demo_adopt by (simp add: entry_def adoptE_def)
  then show ?thesis
    by (simp add: runRecover_def recoverTenant_def recoverOne_def adoptOrComplete_def proposeAdopt_def prefixErr_def unlessCanceled_def
        execute_calls storeEnv_def demo_reads collected_def classifyOne_def tenantT_def demo_sel NewWorker_def)
qed

section \<open>A successful dispatch\<close>

text \<open>The callback answers 200; the task calls it, records the attempt and completes the execution.\<close>

definition okNet :: net where
  "okNet = \<lparr>NewRequestErr = (\<lambda>_. None), Sha256Hex = (\<lambda>s. s)\<rparr>"

definition okEnv :: "unit env" where
  "okEnv = \<lparr>envTenants = (\<lambda>w. (w, Inr [])), envDue = (\<lambda>w t. (w, Inr [])), envSchedule = (\<lambda>w t i. (w, Inr (Some sched0))),
     envExecutions = (\<lambda>w t st. (w, Inr [])), envAttempts = (\<lambda>w t i. (w, Inr [])),
     envPropose = (\<lambda>w c. (w, Inr (Applied (ResExecution exec0)))),
     envHttp = (\<lambda>w q. (w, (Some \<lparr>hrStatus = 200, hrHeader = [], hrBody = ''ok''\<rparr>, None))),
     envNow = (\<lambda>w. (w, instant 2)), envUlid = (\<lambda>w. (w, ''a'')), envCtx = (\<lambda>w. (w, None))\<rparr>"

lemma ok_dispatch: "length (fst (execute okEnv (taskRun utcPlatform okNet (NewWorker ''n1'') (FreshFire exec0)) ())) = 3"
  by (simp add: freshFireTask_run_def dispatchAttempt_def recordAndComplete_def proposeComplete_def unlessCanceled_def execute_calls
      okEnv_def okNet_def demo_sel recordCmd_def classifyAttemptOutcome_def outcome_defs)

section \<open>A leader in a later term\<close>

definition soloLeader :: solo where
  "soloLeader = \<lparr>slTerm = 2, slLeader = True, slLog = [(1, Some (entry (CreateSchedule createS) 0))],
     slSM = \<lparr>smDB = store1, smHandle = 0, smOpen = True\<rparr>\<rparr>"

definition soloNode :: "solo RaftNode" where
  "soloNode = \<lparr>rnRaft = soloLeader, rnStorage = 0, rnID = ''n1'', rnReadyTerm = 1\<rparr>"

lemma soloLeader_ok: "soloOk utcPlatform soloLeader"
  by (simp add: soloOk_def soloLeader_def demo_apply1)

lemma soloNode_ok: "solo_log.node_ok utcPlatform soloNode"
  unfolding solo_log.node_ok_def by (simp add: soloNode_def soloLeader_ok) (simp add: soloLeader_def soloAppliedTerm_def)

lemma solo_read:
  "snd (rnGetSchedule (soloRaft utcPlatform) memBolt soloNode ''t'' ''s'') = Inr (Some sched0)"
  by (simp add: rnGetSchedule_def leaderRead_def soloRaft_def soloNode_def soloLeader_def ensureCaughtUpAsLeader_def soloBarrier_def
      viewOn_def storageView_def mem_simps store1_def)

end
