(* ===== verification/ClusterScenario.thy ===== *)
theory ClusterScenario
  imports Cluster WorkerScenario
begin

text \<open>
  A run of the cluster: a client creates a schedule and its tenant, and a node's tick finds
  the schedule due, claims its run and queues the first dispatch.
\<close>

definition storeK :: "row mem" where
  "storeK = ((bucketTenants, ''t''), TenantRow tenantT) # store1"

definition storeL :: "row mem" where
  "storeL = [((bucketExecutionsBySchedule, ''t:s:e''), NoValue), ((bucketExecutionsByStatus, ''t:in_flight:e''), NoValue),
     ((bucketExecutions, ''t:e''), ExecutionRow exec0)] @ storeK"

abbreviation worker1 :: Worker where
  "worker1 \<equiv> NewWorker ''n1''"

lemma apply_tenantC: "Apply memBolt utcPlatform store1 (Inr (entry (CreateTenant createT) 2)) = (storeK, Applied (ResTenant tenantT))"
proof (rule mem_apply)
  have "GetTenant (boltTx memBolt) store1 ''t'' = Inr None"
    by (simp add: boltTx_def boltGetTenant_def getRow_def memBolt_def store1_def)
  moreover have "PutTenant (boltTx memBolt) store1 tenantT = Inr storeK"
    by (simp add: boltTx_def boltPutTenant_def memBolt_def memPut_def tenantT_def marshalTenant_def instants storeK_def)
  ultimately show "Dispatch (boltTx memBolt) utcPlatform store1 (CreateTenant createT) (instant 2) = Inr (storeK, ResTenant tenantT)"
    unfolding tenantT_def by (simp add: ApplyCreateTenant_def createT_def Let_def withResult_def)
qed

lemma apply_claimC: "Apply memBolt utcPlatform storeK (Inr (entry (ClaimExecution claimE) 1)) = (storeL, Applied (ResExecution exec0))"
proof (rule mem_apply)
  have "ListExecutionsBySchedule (boltTx memBolt) storeK ''t'' ''s'' = ([], None)"
    by (simp add: mem_simps boltListExecutionsBySchedule_def scanIndex_def memItems_def memKeys_def storeK_def store1_def)
  moreover have "PutExecution (boltTx memBolt) storeK exec0 = Inr storeL"
    by (simp add: mem_simps demo_sel storeK_def store1_def storeL_def execution_status_defs)
  ultimately show "Dispatch (boltTx memBolt) utcPlatform storeK (ClaimExecution claimE) (instant 1) = Inr (storeL, ResExecution exec0)"
    unfolding exec0_def by (simp add: ApplyClaimExecution_def claimE_def instants Let_def withResult_def)
qed

lemma reads_C:
  "ListTenants (boltTx memBolt) storeK = Inr [tenantT]"
  "ListSchedulesDue (boltTx memBolt) storeK ''t'' (instant 1) = ([sched0], None)"
proof -
  have "isDue (instant 1) sched0" by code_simp
  then show "ListTenants (boltTx memBolt) storeK = Inr [tenantT]"
    "ListSchedulesDue (boltTx memBolt) storeK ''t'' (instant 1) = ([sched0], None)"
    by (simp_all add: mem_simps boltListTenants_def boltListSchedulesDue_def scanIndex_def memItems_def memKeys_def storeK_def
        store1_def fetchIndexed_def schedule_status_defs)
qed

text \<open>The tick, call by call.\<close>

lemma tick_calls:
  "\<exists>k1 k2 k3 k4 k5 k6 p. runTick worker1 = ReadTenants k1 \<and> k1 (Inr [tenantT]) = CheckCtx k2 \<and> k2 None = ReadDue ''t'' k3 \<and>
     k3 (Inr [sched0]) = CheckCtx k4 \<and> k4 None = DrawUlid k5 \<and> k5 ''e'' = ProposeCmd (ClaimExecution claimE) k6 \<and>
     k6 (Inr (Applied (ResExecution exec0))) = Enqueue (FreshFire exec0) p"
  by (simp add: runTick_def tickTenant_def fireDue_def unlessCanceled_def tenantT_def NewWorker_def sched0_def claimE_def)

text \<open>A system with one goroutine takes a step.\<close>

lemma run_call:
  assumes "sysRun B P N sy" "syGos sy = [g]" "s \<in> syPast sy" "readStep B s (goProg g) p"
  shows "sysRun B P N (sy\<lparr>syGos := [g\<lparr>goProg := p\<rparr>]\<rparr>)"
  using sysRun.step [OF assms(1) sysStep.call [of sy "[]" g "[]" s B p]] assms(2-4) by simp

lemma commit_entry:
  "Apply B P (syStore sy) (Inr (entry c n)) = (s', resp) \<Longrightarrow>
   commit B P c (instant n) sy = (sy\<lparr>syStore := s', syPast := insert s' (syPast sy)\<rparr>, resp)"
  by (simp add: commit_def entry_def)

lemma cluster_ready:
  "\<exists>sy. sysRun memBolt utcPlatform okNet sy \<and> syStore sy = storeK \<and> storeK \<in> syPast sy \<and> syUsed sy = {} \<and> syFired sy = [] \<and>
     syGos sy = [\<lparr>goWorker = worker1, goProg = runTick worker1, goDrawn = [], goGranted = []\<rparr>]"
proof -
  let ?step = "\<lambda>sy s'. sy\<lparr>syStore := s', syPast := insert s' (syPast sy)\<rparr>"
  have 0: "sysRun memBolt utcPlatform okNet (startSystem [])"
    by (rule sysRun.start) (simp add: empty_store_def memBolt_def)
  have "commit memBolt utcPlatform (CreateSchedule createS) (instant 0) (startSystem []) = (?step (startSystem []) store1, Applied (ResSchedule sched0))"
    by (rule commit_entry) (simp add: startSystem_def demo_apply1)
  from sysRun.step [OF 0 sysStep.client [OF _ this]] have 1: "sysRun memBolt utcPlatform okNet (?step (startSystem []) store1)"
    by (simp add: createS_def no_colon_def)
  have "commit memBolt utcPlatform (CreateTenant createT) (instant 2) (?step (startSystem []) store1) =
      (?step (?step (startSystem []) store1) storeK, Applied (ResTenant tenantT))"
    by (rule commit_entry) (simp add: apply_tenantC)
  from sysRun.step [OF 1 sysStep.client [OF _ this]] have 2: "sysRun memBolt utcPlatform okNet (?step (?step (startSystem []) store1) storeK)"
    by (simp add: createT_def no_colon_def)
  show ?thesis
    by (rule exI, rule conjI, rule sysRun.step [OF 2 sysStep.begin_tick [where w = worker1]]) (simp add: startSystem_def)
qed

lemma cluster_fires:
  "\<exists>sy. sysRun memBolt utcPlatform okNet sy \<and> syStore sy = storeL \<and> syFired sy = [exec0]"
proof -
  obtain k1 k2 k3 k4 k5 k6 p where k: "runTick worker1 = ReadTenants k1" "k1 (Inr [tenantT]) = CheckCtx k2" "k2 None = ReadDue ''t'' k3"
     "k3 (Inr [sched0]) = CheckCtx k4" "k4 None = DrawUlid k5" "k5 ''e'' = ProposeCmd (ClaimExecution claimE) k6"
     "k6 (Inr (Applied (ResExecution exec0))) = Enqueue (FreshFire exec0) p"
    using tick_calls by blast
  obtain sy where sy: "sysRun memBolt utcPlatform okNet sy" "syStore sy = storeK" "storeK \<in> syPast sy" "syUsed sy = {}" "syFired sy = []"
    "syGos sy = [\<lparr>goWorker = worker1, goProg = runTick worker1, goDrawn = [], goGranted = []\<rparr>]" using cluster_ready by blast
  let ?g = "\<lambda>q. \<lparr>goWorker = worker1, goProg = q, goDrawn = [], goGranted = []\<rparr>"
  let ?at = "\<lambda>q. sy\<lparr>syGos := [?g q]\<rparr>"
  have at: "sysRun memBolt utcPlatform okNet (?at q')" if "sysRun memBolt utcPlatform okNet (?at q)" "readStep memBolt storeK q q'" for q q'
    using run_call [OF that(1), of "?g q" storeK q'] that(2) sy(3) by simp
  have "?at (ReadTenants k1) = sy" using sy(6) k(1) by (cases sy) simp
  with sy(1) have "sysRun memBolt utcPlatform okNet (?at (ReadTenants k1))" by simp
  then have "sysRun memBolt utcPlatform okNet (?at (CheckCtx k2))"
    by (rule at) (metis k(2) reads_C(1) readStep.tenants)
  then have "sysRun memBolt utcPlatform okNet (?at (ReadDue ''t'' k3))" by (rule at) (metis k(3) readStep.context_err)
  then have "sysRun memBolt utcPlatform okNet (?at (CheckCtx k4))"
  proof (rule at)
    have "collected (ListSchedulesDue (boltTx memBolt) storeK ''t'' (instant 1)) = Inr [sched0]" by (simp add: reads_C(2) collected_def)
    then show "readStep memBolt storeK (ReadDue ''t'' k3) (CheckCtx k4)" by (metis k(4) readStep.due)
  qed
  then have r: "sysRun memBolt utcPlatform okNet (?at (DrawUlid k5))" by (rule at) (metis k(5) readStep.context_err)
  let ?sy1 = "sy\<lparr>syUsed := {''e''}, syGos := [(?g (ProposeCmd (ClaimExecution claimE) k6))\<lparr>goDrawn := [''e'']\<rparr>]\<rparr>"
  have r1: "sysRun memBolt utcPlatform okNet ?sy1"
    using sysRun.step [OF r sysStep.draw [of "?at (DrawUlid k5)" "[]" "?g (DrawUlid k5)" "[]" k5 "''e''"]] sy(4) k(6)
    by (simp add: no_colon_def)
  have "commit memBolt utcPlatform (ClaimExecution claimE) (instant 1) ?sy1 =
      (?sy1\<lparr>syStore := storeL, syPast := insert storeL (syPast sy)\<rparr>, Applied (ResExecution exec0))"
    using commit_entry [of memBolt utcPlatform ?sy1 "ClaimExecution claimE" 1 storeL] sy(2) apply_claimC by simp
  from sysRun.step [OF r1 sysStep.propose [OF _ _ this, of "[]" _ "[]" k6]]
  have r2: "sysRun memBolt utcPlatform okNet (sy\<lparr>syUsed := {''e''}, syStore := storeL, syPast := insert storeL (syPast sy),
      syGos := [(?g (Enqueue (FreshFire exec0) p))\<lparr>goGranted := [exec0]\<rparr>]\<rparr>)" (is "sysRun _ _ _ ?sy2")
    by (simp add: k(7) claimE_def)
  let ?g2 = "(?g (Enqueue (FreshFire exec0) p))\<lparr>goGranted := [exec0]\<rparr>"
  have "syGos ?sy2 = [] @ ?g2 # []" "goProg ?g2 = Enqueue (FreshFire exec0) p" by simp_all
  from sysRun.step [OF r2 sysStep.enqueue [OF this]] sy(5) show ?thesis
    by (intro exI conjI) (assumption, simp_all)
qed

section \<open>Properties of the cluster\<close>

text \<open>
  C39. The cluster never leaves the states the replicated state is proved correct for: with
  any number of clients, nodes and goroutines interleaved at every call, several leaders at
  once, stale reads, and proposals that commit late or never, the store is always one that
  admissible commands reach; so a run is claimed at most once, and attempts are numbered
  without gaps, although no worker checks any of this itself. Drawn IDs are fresh, and IDs
  that clients choose are free of the key separator.
\<close>

theorem cluster_stays_sound:
  assumes "row_store B" "sysRun B P N sy"
  shows "reachable B P (syStore sy) \<and> claims_unique (store_view B (syStore sy)) \<and> attempts_numbered (store_view B (syStore sy))"
proof -
  have "reachable B P (syStore sy)" using row_store.run_inv [OF assms] by (auto simp: sys_inv_def)
  with row_store.reachable_inv [OF assms(1) this] show ?thesis by (auto simp: db_inv_def)
qed

theorem cluster_stays_sound_witness: "reachable memBolt utcPlatform storeL"
  using cluster_fires cluster_stays_sound [OF mem_rows.row_store_axioms] by metis

text \<open>
  C40. Across the whole cluster and all of its life, the first dispatch of a run of a
  schedule is queued at most once, whatever leaders come and go and however their
  goroutines interleave.
\<close>

theorem first_dispatch_once:
  assumes "row_store B" "sysRun B P N sy"
  shows "distinct (map (\<lambda>e. (eTenantID e, eScheduleID e, tNanos (eScheduledFor e))) (syFired sy))"
proof -
  from row_store.run_inv [OF assms] have i: "reachable B P (syStore sy)" "distinct (map eID (syFired sy))"
    "\<And>e. e \<in> set (syFired sy) \<Longrightarrow> has_row B sy e" by (auto simp: sys_inv_def grantsOf_def)
  from row_store.reachable_inv [OF assms(1) i(1)] have u: "claims_unique (store_view B (syStore sy))" by (simp add: db_inv_def)
  have "e = e'" if "e \<in> set (syFired sy)" "e' \<in> set (syFired sy)" "eTenantID e = eTenantID e'" "eScheduleID e = eScheduleID e'"
    "tNanos (eScheduledFor e) = tNanos (eScheduledFor e')" for e e'
  proof -
    from i(3) [OF that(1)] i(3) [OF that(2)] that(3-5) u have "eID e = eID e'"
      unfolding has_row_def claims_unique_def execution_evolves_def Equal_def by metis
    with i(2) that(1,2) show ?thesis by (simp add: distinct_map inj_on_def)
  qed
  with i(2) show ?thesis by (auto simp: distinct_map inj_on_def)
qed

theorem first_dispatch_once_witness:
  "\<exists>sy. sysRun memBolt utcPlatform okNet sy \<and> syFired sy = [exec0] \<and>
     distinct (map (\<lambda>e. (eTenantID e, eScheduleID e, tNanos (eScheduledFor e))) (syFired sy))"
proof -
  obtain sy where sy: "sysRun memBolt utcPlatform okNet sy" "syStore sy = storeL" "syFired sy = [exec0]" using cluster_fires by blast
  from first_dispatch_once [OF mem_rows.row_store_axioms sy(1)] sy(1,3) show ?thesis by blast
qed

end
