(* ===== verification/RateLimit.thy ===== *)
theory RateLimit
  imports Model
begin

text \<open>
  The rate limiter of the HTTP API (\<open>internal/api/ratelimit.go\<close>): one token bucket per
  identity, created on first use, refilled continuously in float64 arithmetic. A bucket is
  guarded by a mutex, so its operations are sequential.
\<close>

section \<open>Token buckets\<close>

definition defaultRatePerSecond :: f64 where "defaultRatePerSecond = Finite 20"
definition defaultBurst :: f64 where "defaultBurst = Finite 40"

record tokenBucket =
  tbTokens :: f64
  tbLastRefill :: Time
  tbRate :: f64
  tbBurst :: f64

definition newTokenBucket :: "f64 \<Rightarrow> f64 \<Rightarrow> Time \<Rightarrow> tokenBucket" where
  "newTokenBucket rate burst now = \<lparr>tbTokens = burst, tbLastRefill = now, tbRate = rate, tbBurst = burst\<rparr>"

definition bucketAllow :: "Time \<Rightarrow> tokenBucket \<Rightarrow> tokenBucket \<times> bool" where
  "bucketAllow now b =
     (let elapsed = Seconds (Sub now (tbLastRefill b));
          tokens = fmin (tbBurst b) (fadd (tbTokens b) (fmul elapsed (tbRate b)))
      in if flt tokens (Finite 1) then (b\<lparr>tbLastRefill := now, tbTokens := tokens\<rparr>, False)
         else (b\<lparr>tbLastRefill := now, tbTokens := fsub tokens (Finite 1)\<rparr>, True))"

section \<open>The limiter\<close>

record rateLimiter =
  rlBuckets :: "string \<Rightarrow> tokenBucket option"
  rlRate :: f64
  rlBurst :: f64

definition newRateLimiter :: "f64 \<Rightarrow> f64 \<Rightarrow> rateLimiter" where
  "newRateLimiter rate burst = \<lparr>rlBuckets = Map.empty, rlRate = rate, rlBurst = burst\<rparr>"

text \<open>The clock is read when a bucket is created and when it is drawn from.\<close>

definition limiterAllow :: "Time \<Rightarrow> Time \<Rightarrow> string \<Rightarrow> rateLimiter \<Rightarrow> rateLimiter \<times> bool" where
  "limiterAllow created now identity rl =
     (let b = (case rlBuckets rl identity of None \<Rightarrow> newTokenBucket (rlRate rl) (rlBurst rl) created | Some b \<Rightarrow> b);
          (b', ok) = bucketAllow now b
      in (rl\<lparr>rlBuckets := (rlBuckets rl)(identity \<mapsto> b')\<rparr>, ok))"

text \<open>The seconds of the \<open>Retry-After\<close> hint.\<close>

definition retryAfterSeconds :: "(f64 \<Rightarrow> int) \<Rightarrow> rateLimiter \<Rightarrow> int" where
  "retryAfterSeconds oor rl = f64_to_int oor (fceil (fdiv (Finite 1) (rlRate rl)))"

section \<open>Arithmetic\<close>

lemma roundF_between:
  assumes "0 \<le> x" "x \<le> of_int n" "n < 2 ^ 53"
  shows "\<exists>r. roundF x = Finite r \<and> 0 \<le> r \<and> r \<le> of_int n"
proof -
  have "(of_int n :: rat) < of_int (2 ^ 53)" using assms(3) by (simp only: of_int_less_iff)
  then have n: "(of_int n :: rat) < 2 ^ 53" by simp
  then have x: "\<bar>x\<bar> < 2 ^ 53" using assms(1,2) by simp
  have lo: "0 \<le> roundQ x" using roundQ_ge_int [of 0 x] assms(1) x by simp
  have hi: "roundQ x \<le> of_int n" using roundQ_le_int [OF assms(2) x] .
  have "(2::rat) ^ 53 \<le> 2 ^ 1024" by (rule power_increasing) simp_all
  then have "roundF x = Finite (roundQ x)" using lo hi n by (intro roundF_finite) simp
  with lo hi show ?thesis by blast
qed

lemma roundF_ge:
  assumes "of_int m \<le> x" "0 \<le> m" "x \<le> of_int n" "n < 2 ^ 53" "roundF x = Finite r"
  shows "of_int m \<le> r"
proof -
  have "(0::rat) \<le> of_int m" using assms(2) by simp
  then have x0: "0 \<le> x" using assms(1) by linarith
  have "(of_int n :: rat) < of_int (2 ^ 53)" using assms(4) by (simp only: of_int_less_iff)
  then have "\<bar>x\<bar> < 2 ^ 53" using assms(3) x0 by simp
  from roundQ_ge_int [OF assms(1) this] assms(5) show ?thesis by (auto simp: roundF_def Let_def split: if_splits)
qed

lemma Seconds_range:
  assumes "0 \<le> d" "d < 2 ^ 63"
  obtains e where "Seconds d = Finite e" "0 \<le> e" "e \<le> of_int (2 ^ 34)" "k * 1000000000 \<le> d \<Longrightarrow> 0 \<le> k \<Longrightarrow> of_int k \<le> e"
proof -
  have g: "goDiv d 1000000000 = d div 1000000000" "goMod d 1000000000 = d mod 1000000000"
    using assms(1) by (cases "d = 0"; simp add: goDiv_def goMod_def minus_mult_div_eq_mod)+
  have r: "0 \<le> d div 1000000000" "d div 1000000000 < 2 ^ 34 - 1" "0 \<le> d mod 1000000000" "d mod 1000000000 < 1000000000"
    using assms by auto
  have f: "f64_of_int (d div 1000000000) = Finite (of_int (d div 1000000000))" "f64_of_int (d mod 1000000000) = Finite (of_int (d mod 1000000000))"
    using r by (auto intro!: f64_of_int_exact)
  have "(of_int (d mod 1000000000) :: rat) \<le> of_int 1000000000" using r(4) by (simp only: of_int_le_iff)
  then obtain q where q: "roundF (of_int (d mod 1000000000) / 1000000000) = Finite q" "0 \<le> q" "q \<le> of_int 1"
    using roundF_between [of "of_int (d mod 1000000000) / 1000000000" 1] r(3) by (auto simp: divide_le_eq)
  have "(of_int (d div 1000000000) :: rat) \<le> of_int (2 ^ 34 - 1)" using r(2) by (simp only: of_int_le_iff)
  then have sum: "of_int (d div 1000000000) + q \<le> of_int (2 ^ 34)" using q(3) by simp
  then obtain e where e: "roundF (of_int (d div 1000000000) + q) = Finite e" "0 \<le> e" "e \<le> of_int (2 ^ 34)"
    using roundF_between [of "of_int (d div 1000000000) + q" "2 ^ 34"] r(1) q(2) by auto
  have "of_int k \<le> e" if k: "k * 1000000000 \<le> d" "0 \<le> k"
  proof (rule roundF_ge [OF _ k(2) sum _ e(1)])
    have "k \<le> d div 1000000000" using k(1) by simp
    then have "(of_int k :: rat) \<le> of_int (d div 1000000000)" by (simp only: of_int_le_iff)
    then show "of_int k \<le> of_int (d div 1000000000) + q" using q(2) by simp
  qed simp
  with e show thesis by (intro that [of e]) (simp_all add: Seconds_def g f q)
qed

section \<open>Buckets stay within their bounds\<close>

definition bucket_ok :: "tokenBucket \<Rightarrow> bool" where
  "bucket_ok b \<longleftrightarrow> tbRate b = defaultRatePerSecond \<and> tbBurst b = defaultBurst \<and>
     (\<exists>q. tbTokens b = Finite q \<and> 0 \<le> q \<and> q \<le> 40)"

text \<open>The refill of one call: the level after it, before a token is taken.\<close>

lemma refill:
  assumes "bucket_ok b" "\<not> Before now (tbLastRefill b)"
  obtains q where "fmin (tbBurst b) (fadd (tbTokens b) (fmul (Seconds (Sub now (tbLastRefill b))) (tbRate b))) = Finite q"
    "0 \<le> q" "q \<le> 40" "nanosPerSecond \<le> tNanos now - tNanos (tbLastRefill b) \<Longrightarrow> 1 \<le> q"
proof -
  let ?d = "Sub now (tbLastRefill b)"
  have d: "0 \<le> ?d" "?d < 2 ^ 63" using assms(2) by (auto simp: Sub_def Before_def)
  from assms(1) obtain t where t: "tbTokens b = Finite t" "0 \<le> t" "t \<le> 40" "tbRate b = Finite 20" "tbBurst b = Finite 40"
    by (auto simp: bucket_ok_def defaultRatePerSecond_def defaultBurst_def)
  obtain e where e: "Seconds ?d = Finite e" "0 \<le> e" "e \<le> of_int (2 ^ 34)" "1 * 1000000000 \<le> ?d \<Longrightarrow> (0::int) \<le> 1 \<Longrightarrow> of_int 1 \<le> e"
    using Seconds_range [OF d, of 1] by blast
  have p: "e * 20 \<le> of_int (20 * 2 ^ 34)" using e(3) by simp
  then obtain r where r: "roundF (e * 20) = Finite r" "0 \<le> r" "r \<le> of_int (20 * 2 ^ 34)"
    using roundF_between [of "e * 20" "20 * 2 ^ 34"] e(2) by auto
  have s: "t + r \<le> of_int (21 * 2 ^ 34)" using r(3) t(3) by simp
  then obtain u where u: "roundF (t + r) = Finite u" "0 \<le> u" "u \<le> of_int (21 * 2 ^ 34)"
    using roundF_between [of "t + r" "21 * 2 ^ 34"] t(2) r(2) by auto
  have late: "1 \<le> u" if "nanosPerSecond \<le> tNanos now - tNanos (tbLastRefill b)"
  proof -
    have "1 * 1000000000 \<le> ?d" using that by (simp add: Sub_def nanosPerSecond_def)
    with e(4) have "of_int 20 \<le> e * 20" by simp
    from roundF_ge [OF this _ p _ r(1)] have "of_int 1 \<le> t + r" using t(2) by simp
    from roundF_ge [OF this _ s _ u(1)] show ?thesis by simp
  qed
  show thesis
    by (rule that [of "min 40 u"]) (use t e r u late in \<open>auto simp: fmin_def\<close>)
qed

text \<open>What one call does to a bucket that is within its bounds.\<close>

lemma allow_cases:
  assumes "bucket_ok b" "\<not> Before now (tbLastRefill b)" "bucketAllow now b = (b', ok)"
  shows "bucket_ok b'" "tbLastRefill b' = now"
    and "nanosPerSecond \<le> tNanos now - tNanos (tbLastRefill b) \<Longrightarrow> ok"
proof -
  obtain q where q: "fmin (tbBurst b) (fadd (tbTokens b) (fmul (Seconds (Sub now (tbLastRefill b))) (tbRate b))) = Finite q"
    "0 \<le> q" "q \<le> 40" "nanosPerSecond \<le> tNanos now - tNanos (tbLastRefill b) \<Longrightarrow> 1 \<le> q"
    using refill [OF assms(1,2)] by blast
  have "\<exists>r. roundF (q - 1) = Finite r \<and> 0 \<le> r \<and> r \<le> of_int 40" if "1 \<le> q"
    using that q by (intro roundF_between) simp_all
  with assms q show "bucket_ok b'" "tbLastRefill b' = now"
    by (auto simp: bucketAllow_def bucket_ok_def fsub_def Let_def split: if_splits)
  show "nanosPerSecond \<le> tNanos now - tNanos (tbLastRefill b) \<Longrightarrow> ok"
    using assms(3) q by (auto simp: bucketAllow_def Let_def split: if_splits)
qed

text \<open>A limiter with the default rate and burst, whose buckets were last filled before \<open>now\<close>.\<close>

definition limiter_ok :: "Time \<Rightarrow> rateLimiter \<Rightarrow> bool" where
  "limiter_ok now rl \<longleftrightarrow> rlRate rl = defaultRatePerSecond \<and> rlBurst rl = defaultBurst \<and>
     (\<forall>i b. rlBuckets rl i = Some b \<longrightarrow> bucket_ok b \<and> \<not> Before now (tbLastRefill b))"

lemma new_bucket_ok: "bucket_ok (newTokenBucket defaultRatePerSecond defaultBurst now)"
  by (simp add: bucket_ok_def newTokenBucket_def defaultBurst_def)

lemma not_Before_trans: "\<not> Before t u \<Longrightarrow> \<not> Before u v \<Longrightarrow> \<not> Before t v"
  by (simp add: Before_def)

lemma limiter_step:
  assumes "limiter_ok created rl" "\<not> Before now created" "limiterAllow created now identity rl = (rl', ok)"
  shows "limiter_ok now rl'"
proof -
  define b where "b = (case rlBuckets rl identity of None \<Rightarrow> newTokenBucket (rlRate rl) (rlBurst rl) created | Some b \<Rightarrow> b)"
  obtain b' ok' where a: "bucketAllow now b = (b', ok')" by fastforce
  have b: "bucket_ok b" "\<not> Before now (tbLastRefill b)"
    using assms(1,2) new_bucket_ok [of created] not_Before_trans [OF assms(2)]
    by (auto simp: b_def limiter_ok_def newTokenBucket_def split: option.splits)
  from assms(3) a have "rl' = rl\<lparr>rlBuckets := (rlBuckets rl)(identity \<mapsto> b')\<rparr>" by (simp add: limiterAllow_def b_def)
  moreover have "\<not> Before now now" by (simp add: Before_def)
  ultimately show ?thesis using assms(1) allow_cases(1,2) [OF b a] not_Before_trans [OF assms(2)]
    by (auto simp: limiter_ok_def split: if_splits)
qed

section \<open>A burst at one instant\<close>

text \<open>The calls a bucket admits out of \<open>n\<close> made at the same instant.\<close>

fun admitted :: "Time \<Rightarrow> nat \<Rightarrow> tokenBucket \<Rightarrow> nat" where
  "admitted now 0 b = 0"
| "admitted now (Suc n) b = (let (b', ok) = bucketAllow now b in (if ok then 1 else 0) + admitted now n b')"

lemma Seconds_0: "Seconds 0 = Finite 0"
  using Seconds_whole [of 0] by simp

lemma allow_same_instant:
  assumes "tbTokens b = Finite (of_nat k)" "k \<le> 40" "tbRate b = defaultRatePerSecond" "tbBurst b = defaultBurst" "tbLastRefill b = now"
  shows "bucketAllow now b = (if k = 0 then (b, False) else (b\<lparr>tbTokens := Finite (of_nat (k - 1))\<rparr>, True))"
proof -
  have i: "roundF (of_int n) = Finite (of_int n)" if "\<bar>n\<bar> < 2 ^ 53" for n
    using f64_of_int_exact [OF that] by (simp add: f64_of_int_def)
  have k: "roundF (of_nat k) = Finite (of_nat k)" using i [of "int k"] assms(2) by simp
  have k1: "roundF (of_nat k - 1) = Finite (of_nat (k - 1))" if "k \<noteq> 0"
    using i [of "int k - 1"] assms(2) that by (simp add: of_nat_diff)
  have k40: "(of_nat k :: rat) \<le> 40" using assms(2) by (metis of_nat_le_iff of_nat_numeral)
  have "Sub now now = 0" by (simp add: Sub_def)
  then have "fmin (tbBurst b) (fadd (tbTokens b) (fmul (Seconds (Sub now (tbLastRefill b))) (tbRate b))) = Finite (of_nat k)"
    using i [of 0] k k40 assms by (auto simp: Seconds_0 defaultRatePerSecond_def defaultBurst_def fmin_def)
  then show ?thesis using assms k1 by (auto simp: bucketAllow_def fsub_def)
qed

lemma admitted_tokens:
  assumes "tbTokens b = Finite (of_nat k)" "k \<le> 40" "tbRate b = defaultRatePerSecond" "tbBurst b = defaultBurst" "tbLastRefill b = now"
  shows "admitted now n b = min n k"
  using assms
proof (induction n arbitrary: k b)
  case (Suc n)
  note a = allow_same_instant [OF Suc.prems]
  show ?case
  proof (cases k)
    case 0
    then show ?thesis using a Suc.IH [OF Suc.prems] by simp
  next
    case (Suc j)
    let ?b = "b\<lparr>tbTokens := Finite (of_nat j)\<rparr>"
    have "admitted now n ?b = min n j" using Suc.prems Suc by (intro Suc.IH) simp_all
    then show ?thesis using a Suc by simp
  qed
qed simp

section \<open>Properties\<close>

text \<open>
  C33. Every bucket of the limiter stays within its bounds: starting from the new limiter, as
  long as the clock does not run backwards, every bucket holds a finite number of tokens
  between zero and the burst of 40, although refills are computed in float64.
\<close>

theorem limiter_within_bounds:
  assumes "limiter_ok created rl" "\<not> Before now created"
  shows "limiter_ok now (fst (limiterAllow created now identity rl)) \<and> limiter_ok created (newRateLimiter defaultRatePerSecond defaultBurst)"
  using limiter_step [OF assms, of identity "fst (limiterAllow created now identity rl)" "snd (limiterAllow created now identity rl)"]
  by (simp add: limiter_ok_def newRateLimiter_def)

theorem limiter_within_bounds_witness:
  "limiter_ok ZeroTime (fst (limiterAllow ZeroTime ZeroTime ''t'' (newRateLimiter defaultRatePerSecond defaultBurst)))"
  using limiter_within_bounds [of ZeroTime "newRateLimiter defaultRatePerSecond defaultBurst" ZeroTime "''t''"]
  by (simp add: limiter_ok_def newRateLimiter_def Before_def)


lemma retry_after_one: "rlRate rl = defaultRatePerSecond \<Longrightarrow> retryAfterSeconds oor rl = 1"
proof -
  assume r: "rlRate rl = defaultRatePerSecond"
  have "fdiv (Finite 1) (Finite 20) = Finite (3602879701896397 / 72057594037927936)" by code_simp
  then show ?thesis using r by (simp add: retryAfterSeconds_def defaultRatePerSecond_def truncQ_def ceiling_eq_iff)
qed

text \<open>
  C35. The \<open>Retry-After\<close> hint is honoured: it is one second, and a client that waits that long
  after its last request is admitted.
\<close>

theorem retry_after_honoured:
  assumes "limiter_ok created rl" "rlBuckets rl identity = Some b"
    and "retryAfterSeconds oor rl * nanosPerSecond \<le> tNanos now - tNanos (tbLastRefill b)"
  shows "retryAfterSeconds oor rl = 1 \<and> snd (limiterAllow created now identity rl)"
proof -
  have one: "retryAfterSeconds oor rl = 1" using assms(1) retry_after_one by (simp add: limiter_ok_def)
  have b: "bucket_ok b" using assms(1,2) by (simp add: limiter_ok_def)
  have late: "nanosPerSecond \<le> tNanos now - tNanos (tbLastRefill b)" "\<not> Before now (tbLastRefill b)"
    using assms(3) one by (simp_all add: Before_def nanosPerSecond_def)
  obtain b' ok where a: "bucketAllow now b = (b', ok)" by fastforce
  from allow_cases(3) [OF b late(2) a late(1)] a assms(2) one show ?thesis by (simp add: limiterAllow_def)
qed

theorem retry_after_honoured_witness:
  "snd (limiterAllow ZeroTime \<lparr>tNanos = 2000000000, tOffset = 0\<rparr> ''t''
     \<lparr>rlBuckets = [''t'' \<mapsto> \<lparr>tbTokens = Finite 0, tbLastRefill = ZeroTime, tbRate = defaultRatePerSecond, tbBurst = defaultBurst\<rparr>],
      rlRate = defaultRatePerSecond, rlBurst = defaultBurst\<rparr>)" (is "snd (limiterAllow _ ?now _ ?rl)")
proof -
  let ?b = "\<lparr>tbTokens = Finite 0, tbLastRefill = ZeroTime, tbRate = defaultRatePerSecond, tbBurst = defaultBurst\<rparr>"
  have l: "limiter_ok ZeroTime ?rl" by (auto simp: limiter_ok_def bucket_ok_def Before_def)
  have b: "rlBuckets ?rl ''t'' = Some ?b" by simp
  have "retryAfterSeconds (\<lambda>_. 0) ?rl * nanosPerSecond \<le> tNanos ?now - tNanos (tbLastRefill ?b)"
    by (simp add: retry_after_one nanosPerSecond_def ZeroTime_def)
  from retry_after_honoured [OF l b this] show ?thesis by blast
qed

end
