(* ===== verification/Api.thy ===== *)
theory Api
  imports RateLimit RaftNode Worker
begin

text \<open>
  The HTTP API (\<open>internal/api\<close>): authentication, rate limiting, pagination parameters, the
  handlers and the routes. A handler takes the state of the API, the limiter and whatever
  lies behind the backend interface, to the new state and the response. What a request
  carries and what the handler draws from the system while serving it (the clock, random
  bytes) are in one record; a JSON body is the outcome of decoding it.
\<close>

section \<open>Requests, responses, state\<close>

record apiInput =
  inAuthorization :: string
  inQuery :: "string \<Rightarrow> string"
  inTenantBody :: "CreateTenantCommand fallible"
  inScheduleBody :: "CreateScheduleCommand fallible"
  inRandom :: "string fallible"
  inCreatedAt :: Time
  inNow :: Time

datatype apiBody =
    ErrorBody string
  | CreatedTenant Tenant string
  | ResultBody Result
  | TenantPage "Tenant list" string
  | ExecutionPage "Execution list" string
  | AttemptPage "Attempt list" string

record apiResponse =
  arStatus :: int
  arRetryAfter :: "int option"
  arBody :: apiBody

definition writeJSON :: "int \<Rightarrow> apiBody \<Rightarrow> apiResponse" where
  "writeJSON status body = \<lparr>arStatus = status, arRetryAfter = None, arBody = body\<rparr>"

definition writeError :: "int \<Rightarrow> string \<Rightarrow> apiResponse" where
  "writeError status msg = writeJSON status (ErrorBody msg)"

text \<open>The interface \<open>Backend\<close>, over a state of its own.\<close>

record 'w backend =
  beIsLeader :: "'w \<Rightarrow> 'w \<times> bool"
  beLeaderAddr :: "'w \<Rightarrow> 'w \<times> string"
  beGetTenant :: "'w \<Rightarrow> string \<Rightarrow> 'w \<times> (readError + Tenant option)"
  beGetSchedule :: "'w \<Rightarrow> string \<Rightarrow> string \<Rightarrow> 'w \<times> (readError + Schedule option)"
  beGetExecution :: "'w \<Rightarrow> string \<Rightarrow> string \<Rightarrow> 'w \<times> (readError + Execution option)"
  beGetAttempt :: "'w \<Rightarrow> string \<Rightarrow> string \<Rightarrow> 'w \<times> (readError + Attempt option)"
  beListTenantsPage :: "'w \<Rightarrow> int \<Rightarrow> string \<Rightarrow> 'w \<times> (readError + Tenant list \<times> string)"
  beListExecutionsBySchedulePage :: "'w \<Rightarrow> string \<Rightarrow> string \<Rightarrow> int \<Rightarrow> string \<Rightarrow> 'w \<times> (readError + Execution list \<times> string)"
  beListExecutionsByStatusPage :: "'w \<Rightarrow> string \<Rightarrow> string \<Rightarrow> int \<Rightarrow> string \<Rightarrow> 'w \<times> (readError + Execution list \<times> string)"
  beListAttemptsByExecutionPage :: "'w \<Rightarrow> string \<Rightarrow> string \<Rightarrow> int \<Rightarrow> string \<Rightarrow> 'w \<times> (readError + Attempt list \<times> string)"
  bePropose :: "'w \<Rightarrow> Command \<Rightarrow> 'w \<times> ApplyResponse fallible"

record 'w Api =
  apWorld :: 'w
  apLimiter :: rateLimiter

text \<open>What stays fixed while the API runs: the admin key, and the two parameters of the platform.\<close>

record apiConfig =
  acAdminKey :: string
  acSha256Hex :: "string \<Rightarrow> string"
  acOutOfRange :: "f64 \<Rightarrow> int"

definition apiNew :: "'w \<Rightarrow> 'w Api" where
  "apiNew w = \<lparr>apWorld = w, apLimiter = newRateLimiter defaultRatePerSecond defaultBurst\<rparr>"

section \<open>Keys (\<open>auth.go\<close>)\<close>

definition base64Alphabet :: string where
  "base64Alphabet = ''ABCDEFGHIJKLMNOPQRSTUVWXYZabcdefghijklmnopqrstuvwxyz0123456789-_''"

fun base64RawURL :: "nat list \<Rightarrow> nat list" where
  "base64RawURL [] = []"
| "base64RawURL [a] = [a div 4, a mod 4 * 16]"
| "base64RawURL [a, b] = [a div 4, a mod 4 * 16 + b div 16, b mod 16 * 4]"
| "base64RawURL (a # b # c # rest) =
     a div 4 # (a mod 4 * 16 + b div 16) # (b mod 16 * 4 + c div 64) # c mod 64 # base64RawURL rest"

definition EncodeToString :: "string \<Rightarrow> string" where
  "EncodeToString bytes = map (\<lambda>n. base64Alphabet ! n) (base64RawURL (map of_char bytes))"

definition hashAPIKey :: "apiConfig \<Rightarrow> string \<Rightarrow> string" where
  "hashAPIKey cfg key = acSha256Hex cfg key"

definition generateAPIKey :: "apiConfig \<Rightarrow> string fallible \<Rightarrow> (string \<times> string) fallible" where
  "generateAPIKey cfg random =
     andThen random (\<lambda>buf. let plaintext = ''sched_'' @ EncodeToString buf in Inr (plaintext, hashAPIKey cfg plaintext))"

definition bearerToken :: "apiInput \<Rightarrow> string option" where
  "bearerToken inp =
     (let h = inAuthorization inp; pre = ''Bearer ''
      in if \<not> prefix pre h then None
         else let token = TrimSpace (drop (length pre) h) in if token = [] then None else Some token)"

definition constantTimeEqual :: "string \<Rightarrow> string \<Rightarrow> bool" where
  "constantTimeEqual a b \<longleftrightarrow> a \<noteq> [] \<and> b \<noteq> [] \<and> a = b"

section \<open>Shared parts of the handlers\<close>

type_synonym 'w handler = "'w Api \<Rightarrow> 'w Api \<times> apiResponse"

definition requireLeader :: "'w backend \<Rightarrow> 'w handler \<Rightarrow> 'w handler" where
  "requireLeader BE k st =
     (let (w, leader) = beIsLeader BE (apWorld st)
      in if leader then k (st\<lparr>apWorld := w\<rparr>)
         else let (w', addr) = beLeaderAddr BE w
              in (st\<lparr>apWorld := w'\<rparr>, writeError 503 (''not leader; current raft leader address: '' @ addr)))"

fun writeReadError :: "readError \<Rightarrow> apiResponse" where
  "writeReadError (NotCaughtUp msg) = writeError 503 msg"
| "writeReadError err = writeError 500 (readErrorText err)"

definition statusForCommandErrorKind :: "string \<Rightarrow> int" where
  "statusForCommandErrorKind kind =
     (if kind = KindValidation then 400 else if kind = KindNotFound then 404
      else if kind = KindConflict then 409 else 500)"

text \<open>
  \<open>propose\<close>. A state machine that panics takes the process down with it: the client gets no
  response of the API, which the last branch stands for.
\<close>

definition apiPropose :: "'w backend \<Rightarrow> Command \<Rightarrow> (Result \<Rightarrow> 'w handler) \<Rightarrow> 'w handler" where
  "apiPropose BE cmd k =
     requireLeader BE (\<lambda>st.
       let (w, result) = bePropose BE (apWorld st) cmd; st' = st\<lparr>apWorld := w\<rparr>
       in case result of
            Inl err \<Rightarrow> (st', writeError 503 err)
          | Inr (Refused cmdErr) \<Rightarrow> (st', writeError (statusForCommandErrorKind (ceKind cmdErr)) (ceMessage cmdErr))
          | Inr (Applied r) \<Rightarrow> k r st'
          | Inr (Panicked p) \<Rightarrow> (st', writeError 503 p))"

definition allowRate :: "apiConfig \<Rightarrow> apiInput \<Rightarrow> string \<Rightarrow> 'w handler \<Rightarrow> 'w handler" where
  "allowRate cfg inp identity k st =
     (let (rl, ok) = limiterAllow (inCreatedAt inp) (inNow inp) identity (apLimiter st); st' = st\<lparr>apLimiter := rl\<rparr>
      in if ok then k st'
         else (st', (writeError 429 ''rate limit exceeded'')\<lparr>arRetryAfter := Some (retryAfterSeconds (acOutOfRange cfg) rl)\<rparr>))"

definition requireAdmin :: "apiConfig \<Rightarrow> apiInput \<Rightarrow> 'w handler \<Rightarrow> 'w handler" where
  "requireAdmin cfg inp k st =
     (case bearerToken inp of
        None \<Rightarrow> (st, writeError 401 ''missing or invalid admin credentials'')
      | Some token \<Rightarrow>
          if \<not> constantTimeEqual token (acAdminKey cfg) then (st, writeError 401 ''missing or invalid admin credentials'')
          else allowRate cfg inp ''admin'' k st)"

definition requireTenantAccess :: "'w backend \<Rightarrow> apiConfig \<Rightarrow> apiInput \<Rightarrow> string \<Rightarrow> 'w handler \<Rightarrow> 'w handler" where
  "requireTenantAccess BE cfg inp tenantID k st =
     (case bearerToken inp of
        None \<Rightarrow> (st, writeError 401 ''missing or invalid credentials'')
      | Some token \<Rightarrow>
          if constantTimeEqual token (acAdminKey cfg) then allowRate cfg inp ''admin'' k st
          else let (w, r) = beGetTenant BE (apWorld st) tenantID; st' = st\<lparr>apWorld := w\<rparr>
          in case r of
               Inl err \<Rightarrow> (st', writeReadError err)
             | Inr None \<Rightarrow> (st', writeError 401 ''missing or invalid credentials'')
             | Inr (Some tenant) \<Rightarrow>
                 if \<not> constantTimeEqual (hashAPIKey cfg token) (tnAPIKeyHash tenant)
                 then (st', writeError 401 ''missing or invalid credentials'')
                 else allowRate cfg inp tenantID k st')"

section \<open>Pagination (\<open>pagination.go\<close>)\<close>

definition defaultLimit :: int where "defaultLimit = 50"
definition maxLimit :: int where "maxLimit = 200"

text \<open>\<open>strconv.Atoi\<close>: an optional sign and decimal digits, within the range of \<open>int\<close>.\<close>

definition isDigit :: "char \<Rightarrow> bool" where
  "isDigit c \<longleftrightarrow> CHR ''0'' \<le> c \<and> c \<le> CHR ''9''"

fun digitsValue :: "int \<Rightarrow> string \<Rightarrow> int" where
  "digitsValue acc [] = acc"
| "digitsValue acc (c # cs) = digitsValue (10 * acc + (of_char c - 48)) cs"

definition Atoi :: "string \<Rightarrow> int option" where
  "Atoi s =
     (let neg = (s \<noteq> [] \<and> hd s = CHR ''-'');
          ds = (if s \<noteq> [] \<and> (hd s = CHR ''-'' \<or> hd s = CHR ''+'') then tl s else s);
          n = (if neg then - digitsValue 0 ds else digitsValue 0 ds)
      in if ds = [] \<or> \<not> list_all isDigit ds then None
         else if n < - (2 ^ 63) \<or> 2 ^ 63 \<le> n then None else Some n)"

definition parsePagination :: "apiInput \<Rightarrow> (int \<times> string) fallible" where
  "parsePagination inp =
     (let s = inQuery inp ''limit'';
          limit = (if s = [] then Some defaultLimit
                   else case Atoi s of None \<Rightarrow> None | Some n \<Rightarrow> if n < 1 \<or> maxLimit < n then None else Some n)
      in case limit of
           None \<Rightarrow> Inl ''limit must be an integer between 1 and 200''
         | Some n \<Rightarrow> Inr (n, inQuery inp ''cursor''))"

section \<open>Write handlers\<close>

definition sanitizeTenant :: "Tenant \<Rightarrow> Tenant" where
  "sanitizeTenant t = t\<lparr>tnAPIKeyHash := []\<rparr>"

definition sanitizeTenants :: "Tenant list \<Rightarrow> Tenant list" where
  "sanitizeTenants ts = map sanitizeTenant ts"

definition handleCreateTenant :: "'w backend \<Rightarrow> apiConfig \<Rightarrow> apiInput \<Rightarrow> 'w handler" where
  "handleCreateTenant BE cfg inp =
     requireLeader BE (requireAdmin cfg inp (\<lambda>st.
       case inTenantBody inp of
         Inl err \<Rightarrow> (st, writeError 400 (''invalid request body: '' @ err))
       | Inr cmd \<Rightarrow>
           (case generateAPIKey cfg (inRandom inp) of
              Inl err \<Rightarrow> (st, writeError 500 (''failed to generate API key: '' @ err))
            | Inr (plaintext, hash) \<Rightarrow>
                apiPropose BE (CreateTenant (cmd\<lparr>ctAPIKeyHash := hash\<rparr>)) (\<lambda>result st'.
                  case result of
                    ResTenant tenant \<Rightarrow> (st', writeJSON 201 (CreatedTenant (sanitizeTenant tenant) plaintext))
                  | _ \<Rightarrow> (st', writeError 500 ''unexpected result type from create_tenant'')) st)))"

definition handleCreateSchedule :: "'w backend \<Rightarrow> apiConfig \<Rightarrow> apiInput \<Rightarrow> string \<Rightarrow> 'w handler" where
  "handleCreateSchedule BE cfg inp tenantID =
     requireLeader BE (requireTenantAccess BE cfg inp tenantID (\<lambda>st.
       case inScheduleBody inp of
         Inl err \<Rightarrow> (st, writeError 400 (''invalid request body: '' @ err))
       | Inr cmd \<Rightarrow>
           apiPropose BE (CreateSchedule (cmd\<lparr>csTenantID := tenantID\<rparr>)) (\<lambda>result st'. (st', writeJSON 201 (ResultBody result))) st))"

definition handleSimple :: "'w backend \<Rightarrow> apiConfig \<Rightarrow> apiInput \<Rightarrow> string \<Rightarrow> Command \<Rightarrow> 'w handler" where
  "handleSimple BE cfg inp tenantID cmd =
     requireLeader BE (requireTenantAccess BE cfg inp tenantID
       (apiPropose BE cmd (\<lambda>result st'. (st', writeJSON 200 (ResultBody result)))))"

definition handlePauseSchedule :: "'w backend \<Rightarrow> apiConfig \<Rightarrow> apiInput \<Rightarrow> string \<Rightarrow> string \<Rightarrow> 'w handler" where
  "handlePauseSchedule BE cfg inp tenantID scheduleID =
     handleSimple BE cfg inp tenantID (PauseSchedule \<lparr>psTenantID = tenantID, psID = scheduleID\<rparr>)"

definition handleCancelSchedule :: "'w backend \<Rightarrow> apiConfig \<Rightarrow> apiInput \<Rightarrow> string \<Rightarrow> string \<Rightarrow> 'w handler" where
  "handleCancelSchedule BE cfg inp tenantID scheduleID =
     handleSimple BE cfg inp tenantID (CancelSchedule \<lparr>xsTenantID = tenantID, xsID = scheduleID\<rparr>)"

definition handleResumeSchedule :: "'w backend \<Rightarrow> apiConfig \<Rightarrow> apiInput \<Rightarrow> string \<Rightarrow> string \<Rightarrow> 'w handler" where
  "handleResumeSchedule BE cfg inp tenantID scheduleID =
     handleSimple BE cfg inp tenantID (ResumeSchedule \<lparr>rsTenantID = tenantID, rsID = scheduleID\<rparr>)"

section \<open>Read handlers\<close>

text \<open>The tail of every read handler: the read, its error, and the response.\<close>

definition answerRead :: "('w \<Rightarrow> 'w \<times> (readError + 'x)) \<Rightarrow> ('x \<Rightarrow> apiResponse) \<Rightarrow> 'w handler" where
  "answerRead rd resp st =
     (let (w, r) = rd (apWorld st); st' = st\<lparr>apWorld := w\<rparr>
      in case r of Inl err \<Rightarrow> (st', writeReadError err) | Inr x \<Rightarrow> (st', resp x))"

definition foundOr :: "string \<Rightarrow> ('x \<Rightarrow> apiBody) \<Rightarrow> 'x option \<Rightarrow> apiResponse" where
  "foundOr missing body x = (case x of None \<Rightarrow> writeError 404 missing | Some y \<Rightarrow> writeJSON 200 (body y))"

definition withPage :: "apiInput \<Rightarrow> (int \<Rightarrow> string \<Rightarrow> 'w handler) \<Rightarrow> 'w handler" where
  "withPage inp k st =
     (case parsePagination inp of Inl err \<Rightarrow> (st, writeError 400 err) | Inr (limit, cursor) \<Rightarrow> k limit cursor st)"

definition handleListTenants :: "'w backend \<Rightarrow> apiConfig \<Rightarrow> apiInput \<Rightarrow> 'w handler" where
  "handleListTenants BE cfg inp =
     requireLeader BE (requireAdmin cfg inp (withPage inp (\<lambda>limit cursor.
       answerRead (\<lambda>w. beListTenantsPage BE w limit cursor)
         (\<lambda>(tenants, nextCursor). writeJSON 200 (TenantPage (sanitizeTenants tenants) nextCursor)))))"

definition handleGetTenant :: "'w backend \<Rightarrow> apiConfig \<Rightarrow> apiInput \<Rightarrow> string \<Rightarrow> 'w handler" where
  "handleGetTenant BE cfg inp tenantID =
     requireLeader BE (requireTenantAccess BE cfg inp tenantID
       (answerRead (\<lambda>w. beGetTenant BE w tenantID) (foundOr ''tenant not found'' (\<lambda>t. ResultBody (ResTenant (sanitizeTenant t))))))"

definition handleGetSchedule :: "'w backend \<Rightarrow> apiConfig \<Rightarrow> apiInput \<Rightarrow> string \<Rightarrow> string \<Rightarrow> 'w handler" where
  "handleGetSchedule BE cfg inp tenantID scheduleID =
     requireLeader BE (requireTenantAccess BE cfg inp tenantID
       (answerRead (\<lambda>w. beGetSchedule BE w tenantID scheduleID) (foundOr ''schedule not found'' (\<lambda>x. ResultBody (ResSchedule x)))))"

definition handleListExecutionsBySchedule :: "'w backend \<Rightarrow> apiConfig \<Rightarrow> apiInput \<Rightarrow> string \<Rightarrow> string \<Rightarrow> 'w handler" where
  "handleListExecutionsBySchedule BE cfg inp tenantID scheduleID =
     requireLeader BE (requireTenantAccess BE cfg inp tenantID (withPage inp (\<lambda>limit cursor.
       answerRead (\<lambda>w. beListExecutionsBySchedulePage BE w tenantID scheduleID limit cursor)
         (\<lambda>(executions, nextCursor). writeJSON 200 (ExecutionPage executions nextCursor)))))"

definition handleListExecutionsByStatus :: "'w backend \<Rightarrow> apiConfig \<Rightarrow> apiInput \<Rightarrow> string \<Rightarrow> 'w handler" where
  "handleListExecutionsByStatus BE cfg inp tenantID =
     requireLeader BE (requireTenantAccess BE cfg inp tenantID (\<lambda>st.
       let status = inQuery inp ''status''
       in if status = [] then (st, writeError 400 ''status query parameter is required'')
          else withPage inp (\<lambda>limit cursor.
            answerRead (\<lambda>w. beListExecutionsByStatusPage BE w tenantID status limit cursor)
              (\<lambda>(executions, nextCursor). writeJSON 200 (ExecutionPage executions nextCursor))) st))"

definition handleGetExecution :: "'w backend \<Rightarrow> apiConfig \<Rightarrow> apiInput \<Rightarrow> string \<Rightarrow> string \<Rightarrow> 'w handler" where
  "handleGetExecution BE cfg inp tenantID executionID =
     requireLeader BE (requireTenantAccess BE cfg inp tenantID
       (answerRead (\<lambda>w. beGetExecution BE w tenantID executionID) (foundOr ''execution not found'' (\<lambda>x. ResultBody (ResExecution x)))))"

definition handleListAttemptsByExecution :: "'w backend \<Rightarrow> apiConfig \<Rightarrow> apiInput \<Rightarrow> string \<Rightarrow> string \<Rightarrow> 'w handler" where
  "handleListAttemptsByExecution BE cfg inp tenantID executionID =
     requireLeader BE (requireTenantAccess BE cfg inp tenantID (withPage inp (\<lambda>limit cursor.
       answerRead (\<lambda>w. beListAttemptsByExecutionPage BE w tenantID executionID limit cursor)
         (\<lambda>(attempts, nextCursor). writeJSON 200 (AttemptPage attempts nextCursor)))))"

definition handleGetAttempt :: "'w backend \<Rightarrow> apiConfig \<Rightarrow> apiInput \<Rightarrow> string \<Rightarrow> string \<Rightarrow> 'w handler" where
  "handleGetAttempt BE cfg inp tenantID attemptID =
     requireLeader BE (requireTenantAccess BE cfg inp tenantID
       (answerRead (\<lambda>w. beGetAttempt BE w tenantID attemptID) (foundOr ''attempt not found'' (\<lambda>x. ResultBody (ResAttempt x)))))"

section \<open>Routes\<close>

text \<open>The patterns of \<open>routes\<close>, with the path split into its segments; no other request reaches a handler.\<close>

datatype Route =
    CreateTenantR | ListTenantsR | GetTenantR string
  | CreateScheduleR string | GetScheduleR string string | PauseScheduleR string string
  | CancelScheduleR string string | ResumeScheduleR string string | ExecutionsByScheduleR string string
  | ExecutionsByStatusR string | GetExecutionR string string | AttemptsR string string | GetAttemptR string string

fun routes :: "string \<Rightarrow> string list \<Rightarrow> Route option" where
  "routes m [base] =
     (if base \<noteq> ''tenants'' then None
      else if m = ''POST'' then Some CreateTenantR else if m = ''GET'' then Some ListTenantsR else None)"
| "routes m [base, t] = (if base = ''tenants'' \<and> m = ''GET'' then Some (GetTenantR t) else None)"
| "routes m [base, t, coll] =
     (if base \<noteq> ''tenants'' then None
      else if m = ''POST'' \<and> coll = ''schedules'' then Some (CreateScheduleR t)
      else if m = ''GET'' \<and> coll = ''executions'' then Some (ExecutionsByStatusR t) else None)"
| "routes m [base, t, coll, i] =
     (if base \<noteq> ''tenants'' \<or> m \<noteq> ''GET'' then None
      else if coll = ''schedules'' then Some (GetScheduleR t i)
      else if coll = ''executions'' then Some (GetExecutionR t i)
      else if coll = ''attempts'' then Some (GetAttemptR t i) else None)"
| "routes m [base, t, coll, i, act] =
     (if base \<noteq> ''tenants'' then None
      else if m = ''POST'' \<and> coll = ''schedules'' \<and> act = ''pause'' then Some (PauseScheduleR t i)
      else if m = ''POST'' \<and> coll = ''schedules'' \<and> act = ''cancel'' then Some (CancelScheduleR t i)
      else if m = ''POST'' \<and> coll = ''schedules'' \<and> act = ''resume'' then Some (ResumeScheduleR t i)
      else if m = ''GET'' \<and> coll = ''schedules'' \<and> act = ''executions'' then Some (ExecutionsByScheduleR t i)
      else if m = ''GET'' \<and> coll = ''executions'' \<and> act = ''attempts'' then Some (AttemptsR t i) else None)"
| "routes m _ = None"

fun serve :: "'w backend \<Rightarrow> apiConfig \<Rightarrow> apiInput \<Rightarrow> Route \<Rightarrow> 'w handler" where
  "serve BE cfg inp CreateTenantR = handleCreateTenant BE cfg inp"
| "serve BE cfg inp ListTenantsR = handleListTenants BE cfg inp"
| "serve BE cfg inp (GetTenantR t) = handleGetTenant BE cfg inp t"
| "serve BE cfg inp (CreateScheduleR t) = handleCreateSchedule BE cfg inp t"
| "serve BE cfg inp (GetScheduleR t i) = handleGetSchedule BE cfg inp t i"
| "serve BE cfg inp (PauseScheduleR t i) = handlePauseSchedule BE cfg inp t i"
| "serve BE cfg inp (CancelScheduleR t i) = handleCancelSchedule BE cfg inp t i"
| "serve BE cfg inp (ResumeScheduleR t i) = handleResumeSchedule BE cfg inp t i"
| "serve BE cfg inp (ExecutionsByScheduleR t i) = handleListExecutionsBySchedule BE cfg inp t i"
| "serve BE cfg inp (ExecutionsByStatusR t) = handleListExecutionsByStatus BE cfg inp t"
| "serve BE cfg inp (GetExecutionR t i) = handleGetExecution BE cfg inp t i"
| "serve BE cfg inp (AttemptsR t i) = handleListAttemptsByExecution BE cfg inp t i"
| "serve BE cfg inp (GetAttemptR t i) = handleGetAttempt BE cfg inp t i"

end
