(* ===== verification/ApiCorrect.thy ===== *)
theory ApiCorrect
  imports Api
begin

text \<open>
  What the API promises its clients and its operator: a request without a valid credential
  changes nothing and learns nothing, no response carries a key hash, the key handed out
  with a tenant opens that tenant, page sizes stay within their bounds, and the limiter
  keeps every bucket within its capacity and honours its own \<open>Retry-After\<close> hint.
\<close>

section \<open>Authorization\<close>

fun tenantOf :: "Route \<Rightarrow> string option" where
  "tenantOf CreateTenantR = None"
| "tenantOf ListTenantsR = None"
| "tenantOf (GetTenantR t) = Some t"
| "tenantOf (CreateScheduleR t) = Some t"
| "tenantOf (GetScheduleR t i) = Some t"
| "tenantOf (PauseScheduleR t i) = Some t"
| "tenantOf (CancelScheduleR t i) = Some t"
| "tenantOf (ResumeScheduleR t i) = Some t"
| "tenantOf (ExecutionsByScheduleR t i) = Some t"
| "tenantOf (ExecutionsByStatusR t) = Some t"
| "tenantOf (GetExecutionR t i) = Some t"
| "tenantOf (AttemptsR t i) = Some t"
| "tenantOf (GetAttemptR t i) = Some t"

text \<open>
  The credential opens nothing: it is not the admin key and, on a tenant's route, does not
  hash to the key of any tenant the backend returns for that ID.
\<close>

definition no_access :: "'w backend \<Rightarrow> apiConfig \<Rightarrow> apiInput \<Rightarrow> string option \<Rightarrow> bool" where
  "no_access BE cfg inp tn \<longleftrightarrow>
     (\<forall>token. bearerToken inp = Some token \<longrightarrow> \<not> constantTimeEqual token (acAdminKey cfg) \<and>
        (\<forall>t w x. tn = Some t \<longrightarrow> snd (beGetTenant BE w t) = Inr (Some x) \<longrightarrow>
           \<not> constantTimeEqual (hashAPIKey cfg token) (tnAPIKeyHash x)))"

text \<open>Two backends that agree on leadership and on tenants.\<close>

definition same_gate :: "'w backend \<Rightarrow> 'w backend \<Rightarrow> bool" where
  "same_gate BE BE' \<longleftrightarrow> beIsLeader BE' = beIsLeader BE \<and> beLeaderAddr BE' = beLeaderAddr BE \<and> beGetTenant BE' = beGetTenant BE"

definition turned_away :: "'w Api \<Rightarrow> 'w Api \<times> apiResponse \<Rightarrow> bool" where
  "turned_away st out \<longleftrightarrow> arStatus (snd out) \<in> {401, 500, 503} \<and> (\<exists>msg. arBody (snd out) = ErrorBody msg) \<and>
     apLimiter (fst out) = apLimiter st"

lemma writeReadError_away: "turned_away st (st\<lparr>apWorld := w\<rparr>, writeReadError err)"
  by (cases err) (simp_all add: turned_away_def writeError_def writeJSON_def)

lemma admin_gate:
  assumes "no_access BE cfg inp None" "same_gate BE BE'"
  shows "turned_away st (requireLeader BE (requireAdmin cfg inp k) st) \<and>
    requireLeader BE' (requireAdmin cfg inp k') st = requireLeader BE (requireAdmin cfg inp k) st"
  using assms
  by (auto simp: requireLeader_def requireAdmin_def no_access_def same_gate_def turned_away_def writeError_def writeJSON_def
      split: option.split prod.split)

lemma tenant_gate:
  assumes "no_access BE cfg inp (Some t)" "same_gate BE BE'"
  shows "turned_away st (requireLeader BE (requireTenantAccess BE cfg inp t k) st) \<and>
    requireLeader BE' (requireTenantAccess BE' cfg inp t k') st = requireLeader BE (requireTenantAccess BE cfg inp t k) st"
proof -
  obtain w leader where l: "beIsLeader BE (apWorld st) = (w, leader)" by fastforce
  obtain w1 r where g: "beGetTenant BE w t = (w1, r)" by fastforce
  have access: "\<not> constantTimeEqual (hashAPIKey cfg token) (tnAPIKeyHash x)" if "bearerToken inp = Some token" "r = Inr (Some x)" for token x
    using assms(1) g that unfolding no_access_def by (metis snd_conv)
  have admin: "\<not> constantTimeEqual token (acAdminKey cfg)" if "bearerToken inp = Some token" for token
    using assms(1) that unfolding no_access_def by blast
  have s: "beIsLeader BE' = beIsLeader BE" "beLeaderAddr BE' = beLeaderAddr BE" "beGetTenant BE' = beGetTenant BE"
    using assms(2) by (simp_all add: same_gate_def)
  show ?thesis
  proof (cases leader)
    case False
    with l s show ?thesis by (simp add: requireLeader_def turned_away_def writeError_def writeJSON_def split: prod.split)
  next
    case True
    show ?thesis
    proof (cases "bearerToken inp")
      case None
      with True l s show ?thesis by (simp add: requireLeader_def requireTenantAccess_def turned_away_def writeError_def writeJSON_def)
    next
      case (Some token)
      note un = True l s g admin [OF Some] access [OF Some] Some
      show ?thesis
      proof (cases r)
        case (Inl err)
        with un writeReadError_away [of "st\<lparr>apWorld := w\<rparr>" w1 err] show ?thesis
          by (simp add: turned_away_def requireLeader_def requireTenantAccess_def)
      next
        case (Inr x)
        with un show ?thesis
          by (cases x) (simp_all add: turned_away_def requireLeader_def requireTenantAccess_def writeError_def writeJSON_def)
      qed
    qed
  qed
qed

lemmas handler_defs = handleCreateTenant_def handleListTenants_def handleGetTenant_def handleCreateSchedule_def
  handleGetSchedule_def handlePauseSchedule_def handleCancelSchedule_def handleResumeSchedule_def
  handleListExecutionsBySchedule_def handleListExecutionsByStatus_def handleGetExecution_def
  handleListAttemptsByExecution_def handleGetAttempt_def

lemma gate:
  assumes "no_access BE cfg inp (tenantOf r)" "same_gate BE BE'"
  shows "turned_away st (serve BE cfg inp r st) \<and> serve BE' cfg inp r st = serve BE cfg inp r st"
  using assms by (cases r) (simp_all add: handler_defs handleSimple_def admin_gate tenant_gate)

section \<open>Key hashes stay inside\<close>

fun tenantsIn :: "apiBody \<Rightarrow> Tenant list" where
  "tenantsIn (CreatedTenant t key) = [t]"
| "tenantsIn (ResultBody (ResTenant t)) = [t]"
| "tenantsIn (TenantPage ts cursor) = ts"
| "tenantsIn _ = []"

text \<open>Tenants come back only from the command that creates one, as \<open>Dispatch\<close> has it.\<close>

definition typed_results :: "'w backend \<Rightarrow> bool" where
  "typed_results BE \<longleftrightarrow>
     (\<forall>w c t. snd (bePropose BE w c) = Inr (Applied (ResTenant t)) \<longrightarrow> (\<exists>cmd. c = CreateTenant cmd))"

definition hides_hashes :: "'w handler \<Rightarrow> bool" where
  "hides_hashes h \<longleftrightarrow> (\<forall>st. list_all (\<lambda>t. tnAPIKeyHash t = []) (tenantsIn (arBody (snd (h st)))))"

lemma writeReadError_hides: "tenantsIn (arBody (writeReadError err)) = []"
  by (cases err) (simp_all add: writeError_def writeJSON_def)

lemma hides_gates:
  "hides_hashes k \<Longrightarrow> hides_hashes (requireLeader BE k)"
  "hides_hashes k \<Longrightarrow> hides_hashes (allowRate cfg inp identity k)"
  by (auto simp: hides_hashes_def requireLeader_def allowRate_def writeError_def writeJSON_def Let_def split: prod.split)

lemma hides_access:
  assumes "hides_hashes k"
  shows "hides_hashes (requireAdmin cfg inp k)" "hides_hashes (requireTenantAccess BE cfg inp t k)"
  using hides_gates(2) [OF assms] assms
  by (auto simp: hides_hashes_def requireAdmin_def requireTenantAccess_def writeError_def writeJSON_def writeReadError_hides Let_def
      split: option.split sum.split prod.split)

lemma hides_read:
  assumes "\<And>x. list_all (\<lambda>t. tnAPIKeyHash t = []) (tenantsIn (arBody (resp x)))"
  shows "hides_hashes (answerRead rd resp)"
  using assms by (auto simp: hides_hashes_def answerRead_def writeReadError_hides Let_def split: sum.split prod.split)

lemma hides_page: "(\<And>limit cursor. hides_hashes (k limit cursor)) \<Longrightarrow> hides_hashes (withPage inp k)"
  by (auto simp: hides_hashes_def withPage_def writeError_def writeJSON_def split: sum.split)

lemma hides_propose:
  fixes BE :: "'w backend"
  assumes "typed_results BE" "\<And>r. (\<forall>t. r = ResTenant t \<longrightarrow> (\<exists>cmd. c = CreateTenant cmd)) \<Longrightarrow> hides_hashes (k r)"
  shows "hides_hashes (apiPropose BE c k)"
  unfolding apiPropose_def
proof (rule hides_gates(1), unfold hides_hashes_def, intro allI)
  fix st :: "'w Api"
  obtain w r where p: "bePropose BE (apWorld st) c = (w, r)" by fastforce
  have ty: "r = Inr (Applied (ResTenant t)) \<Longrightarrow> \<exists>cmd. c = CreateTenant cmd" for t
    using assms(1) p unfolding typed_results_def by (metis snd_conv)
  have "hides_hashes (k x)" if "r = Inr (Applied x)" for x
    using that ty by (intro assms(2)) blast
  then show "list_all (\<lambda>t. tnAPIKeyHash t = []) (tenantsIn (arBody (snd (let (w, result) = bePropose BE (apWorld st) c; st' = st\<lparr>apWorld := w\<rparr>
       in case result of Inl err \<Rightarrow> (st', writeError 503 err)
          | Inr (Refused cmdErr) \<Rightarrow> (st', writeError (statusForCommandErrorKind (ceKind cmdErr)) (ceMessage cmdErr))
          | Inr (Applied r) \<Rightarrow> k r st' | Inr (Panicked p) \<Rightarrow> (st', writeError 503 p)))))"
    unfolding p
    by (auto simp: hides_hashes_def writeError_def writeJSON_def Let_def split: sum.split ApplyResponse.split)
qed

lemma hides_result:
  assumes "typed_results BE" "\<And>cmd. c \<noteq> CreateTenant cmd"
  shows "hides_hashes (apiPropose BE c (\<lambda>result st'. (st', writeJSON s (ResultBody result))))"
proof (rule hides_propose [OF assms(1)])
  fix r assume "\<forall>t. r = ResTenant t \<longrightarrow> (\<exists>cmd. c = CreateTenant cmd)"
  with assms(2) show "hides_hashes (\<lambda>st'. (st', writeJSON s (ResultBody r)))"
    by (cases r) (auto simp: hides_hashes_def writeJSON_def)
qed

lemma hides_simple:
  "typed_results BE \<Longrightarrow> (\<And>cmd. c \<noteq> CreateTenant cmd) \<Longrightarrow> hides_hashes (handleSimple BE cfg inp t c)"
  unfolding handleSimple_def by (intro hides_gates(1) hides_access hides_result)

lemma hides_create:
  assumes "typed_results BE"
  shows "hides_hashes (\<lambda>st. case inTenantBody inp of
         Inl err \<Rightarrow> (st, writeError 400 (''invalid request body: '' @ err))
       | Inr cmd \<Rightarrow> (case generateAPIKey cfg (inRandom inp) of
              Inl err \<Rightarrow> (st, writeError 500 (''failed to generate API key: '' @ err))
            | Inr (plaintext, hash) \<Rightarrow>
                apiPropose BE (CreateTenant (cmd\<lparr>ctAPIKeyHash := hash\<rparr>)) (\<lambda>result st'.
                  case result of
                    ResTenant tenant \<Rightarrow> (st', writeJSON 201 (CreatedTenant (sanitizeTenant tenant) plaintext))
                  | _ \<Rightarrow> (st', writeError 500 ''unexpected result type from create_tenant'')) st))"
proof -
  have "hides_hashes (apiPropose BE c (\<lambda>result st'. case result of
      ResTenant tenant \<Rightarrow> (st', writeJSON 201 (CreatedTenant (sanitizeTenant tenant) plaintext))
    | _ \<Rightarrow> (st', writeError 500 ''unexpected result type from create_tenant'')))" for c plaintext
    by (intro hides_propose [OF assms]) (auto simp: hides_hashes_def writeJSON_def writeError_def sanitizeTenant_def split: Result.split)
  then show ?thesis by (auto simp: hides_hashes_def writeJSON_def writeError_def split: sum.split prod.split)
qed

lemma hides_schedule:
  assumes "typed_results BE"
  shows "hides_hashes (\<lambda>st. case inScheduleBody inp of
         Inl err \<Rightarrow> (st, writeError 400 (''invalid request body: '' @ err))
       | Inr cmd \<Rightarrow> apiPropose BE (CreateSchedule (cmd\<lparr>csTenantID := t\<rparr>)) (\<lambda>result st'. (st', writeJSON 201 (ResultBody result))) st)"
  using hides_result [OF assms] by (auto simp: hides_hashes_def writeJSON_def writeError_def split: sum.split)

lemma hides_by_status:
  "hides_hashes (\<lambda>st. let status = inQuery inp ''status''
       in if status = [] then (st, writeError 400 ''status query parameter is required'')
          else withPage inp (\<lambda>limit cursor. answerRead (\<lambda>w. beListExecutionsByStatusPage BE w t status limit cursor)
              (\<lambda>(executions, nextCursor). writeJSON 200 (ExecutionPage executions nextCursor))) st)"
proof -
  have "hides_hashes (withPage inp (\<lambda>limit cursor. answerRead (\<lambda>w. beListExecutionsByStatusPage BE w t (inQuery inp ''status'') limit cursor)
      (\<lambda>(executions, nextCursor). writeJSON 200 (ExecutionPage executions nextCursor))))"
    by (intro hides_page hides_read) (auto simp: writeJSON_def)
  then show ?thesis by (auto simp: hides_hashes_def writeJSON_def writeError_def Let_def)
qed

lemma hides_found: "(\<And>x. list_all (\<lambda>t. tnAPIKeyHash t = []) (tenantsIn (body x))) \<Longrightarrow>
  list_all (\<lambda>t. tnAPIKeyHash t = []) (tenantsIn (arBody (foundOr missing body y)))"
  by (simp add: foundOr_def writeJSON_def writeError_def split: option.split)

lemma serve_hides:
  assumes "typed_results BE"
  shows "hides_hashes (serve BE cfg inp r)"
  using hides_create [OF assms] hides_schedule [OF assms] hides_by_status assms
  by (cases r) (auto simp: handler_defs sanitizeTenant_def sanitizeTenants_def list_all_iff writeJSON_def
      intro!: hides_gates(1) hides_access hides_read hides_page hides_simple hides_found)

section \<open>A backend over a store\<close>

text \<open>
  The API of a leader, over the store its state machine writes: the reads are the storage
  layer's, proposals are applied, and the state is the store with the number of proposals
  made, which selects the clock reading of the next.
\<close>

definition storeBackend :: "('b, row) bolt \<Rightarrow> platform \<Rightarrow> (nat \<Rightarrow> Time) \<Rightarrow> ('b \<times> nat) backend" where
  "storeBackend B P clock = (let rd = (\<lambda>r. case r of Inl e \<Rightarrow> Inl (ReadFailed e) | Inr x \<Rightarrow> Inr x) in \<lparr>
     beIsLeader = (\<lambda>w. (w, True)), beLeaderAddr = (\<lambda>w. (w, [])),
     beGetTenant = (\<lambda>w t. (w, case GetTenant (boltTx B) (fst w) t of Inl e \<Rightarrow> Inl (ReadFailed e) | Inr x \<Rightarrow> Inr x)),
     beGetSchedule = (\<lambda>w t i. (w, case GetSchedule (boltTx B) (fst w) t i of Inl e \<Rightarrow> Inl (ReadFailed e) | Inr x \<Rightarrow> Inr x)),
     beGetExecution = (\<lambda>w t i. (w, case GetExecution (boltTx B) (fst w) t i of Inl e \<Rightarrow> Inl (ReadFailed e) | Inr x \<Rightarrow> Inr x)),
     beGetAttempt = (\<lambda>w t i. (w, case GetAttempt (boltTx B) (fst w) t i of Inl e \<Rightarrow> Inl (ReadFailed e) | Inr x \<Rightarrow> Inr x)),
     beListTenantsPage = (\<lambda>w n c. (w, case ListTenantsPage (boltTx B) (fst w) n c of Inl e \<Rightarrow> Inl (ReadFailed e) | Inr x \<Rightarrow> Inr x)),
     beListExecutionsBySchedulePage = (\<lambda>w t i n c. (w, rd (ListExecutionsBySchedulePage (boltTx B) (fst w) t i n c))),
     beListExecutionsByStatusPage = (\<lambda>w t i n c. (w, rd (ListExecutionsByStatusPage (boltTx B) (fst w) t i n c))),
     beListAttemptsByExecutionPage = (\<lambda>w t i n c. (w, case ListAttemptsByExecutionPage (boltTx B) (fst w) t i n c of
        Inl e \<Rightarrow> Inl (ReadFailed e) | Inr x \<Rightarrow> Inr x)),
     bePropose = (\<lambda>(s, n) c. let (s', resp) = Apply B P s (Inr \<lparr>lePayload = c, leProposedAt = clock n\<rparr>)
        in ((s', Suc n), if panicked resp then Inl ''leadership lost while committing log'' else Inr resp))\<rparr>)"

lemma storeBackend_gate:
  "beIsLeader (storeBackend B P clock) w = (w, True)"
  "beGetTenant (storeBackend B P clock) w t = (w, case GetTenant (boltTx B) (fst w) t of Inl e \<Rightarrow> Inl (ReadFailed e) | Inr x \<Rightarrow> Inr x)"
  "bePropose (storeBackend B P clock) (s, n) c =
     (let (s', resp) = Apply B P s (Inr \<lparr>lePayload = c, leProposedAt = clock n\<rparr>)
      in ((s', Suc n), if panicked resp then Inl ''leadership lost while committing log'' else Inr resp))"
  by (simp_all add: storeBackend_def Let_def)

lemma dispatch_tenant:
  "Dispatch T P s c now = Inr (s', ResTenant n) \<Longrightarrow> \<exists>cmd. c = CreateTenant cmd \<and> ApplyCreateTenant T s cmd now = Inr (s', n)"
  by (cases c) (auto simp: withResult_def)

lemma apply_tenant:
  "Apply B P s (Inr e) = (s', Applied (ResTenant n)) \<Longrightarrow>
   \<exists>cmd s1. lePayload e = CreateTenant cmd \<and> ApplyCreateTenant (boltTx B) s cmd (leProposedAt e) = Inr (s1, n) \<and> bCommit B s1 = Inr s'"
  by (auto simp: Apply_def storageUpdate_def split: sum.splits prod.splits failure.splits dest!: dispatch_tenant)

lemma storeBackend_typed: "typed_results (storeBackend B P clock)"
  unfolding typed_results_def
proof (intro allI impI)
  fix w c t
  assume "snd (bePropose (storeBackend B P clock) w c) = Inr (Applied (ResTenant t))"
  then have "\<exists>s'. Apply B P (fst w) (Inr \<lparr>lePayload = c, leProposedAt = clock (snd w)\<rparr>) = (s', Applied (ResTenant t))"
    by (cases w) (auto simp: storeBackend_gate split: prod.splits if_splits)
  then show "\<exists>cmd. c = CreateTenant cmd" using apply_tenant by fastforce
qed

section \<open>The key that comes with a tenant\<close>

lemma base64_range: "\<forall>a \<in> set l. a < 256 \<Longrightarrow> \<forall>n \<in> set (base64RawURL l). n < 64"
  by (induction l rule: base64RawURL.induct) auto

lemma alphabet_no_space: "n < 64 \<Longrightarrow> \<not> isSpace (base64Alphabet ! n)"
proof -
  assume "n < 64"
  moreover have "length base64Alphabet = 64" by (simp add: base64Alphabet_def)
  ultimately have "base64Alphabet ! n \<in> set base64Alphabet" by (metis nth_mem)
  moreover have "\<forall>c \<in> set base64Alphabet. \<not> isSpace c" by (simp add: base64Alphabet_def isSpace_def)
  ultimately show ?thesis by blast
qed

lemma key_trimmed:
  assumes "generateAPIKey cfg random = Inr (key, hash)"
  shows "TrimSpace key = key" "key \<noteq> []" "hash = hashAPIKey cfg key"
proof -
  from assms obtain buf where key: "key = ''sched_'' @ EncodeToString buf" "hash = hashAPIKey cfg key"
    by (auto simp: generateAPIKey_def Let_def)
  have "\<forall>n \<in> set (base64RawURL (map of_char buf)). n < 64" by (rule base64_range) auto
  then have "\<forall>c \<in> set (EncodeToString buf). \<not> isSpace c" by (auto simp: EncodeToString_def alphabet_no_space)
  then have "\<not> isSpace (last key)" by (cases "EncodeToString buf" rule: rev_cases) (auto simp: key isSpace_def)
  moreover have "key \<noteq> []" "\<not> isSpace (hd key)" by (simp_all add: key isSpace_def)
  ultimately show "TrimSpace key = key" "key \<noteq> []" "hash = hashAPIKey cfg key" using key(2) by (auto intro: TrimSpace_id)
qed

lemma bearer_key: "TrimSpace key = key \<Longrightarrow> key \<noteq> [] \<Longrightarrow> inAuthorization inp = ''Bearer '' @ key \<Longrightarrow> bearerToken inp = Some key"
  by (simp add: bearerToken_def Let_def)

text \<open>Proposals over a store, and what a successful creation did.\<close>

lemma store_propose:
  assumes "apWorld st = (s, m)" "Apply B P s (Inr \<lparr>lePayload = c, leProposedAt = clock m\<rparr>) = (s', resp)"
  shows "apiPropose (storeBackend B P clock) c k st =
    (case resp of
       Applied r \<Rightarrow> k r (st\<lparr>apWorld := (s', Suc m)\<rparr>)
     | Refused ce \<Rightarrow> (st\<lparr>apWorld := (s', Suc m)\<rparr>, writeError (statusForCommandErrorKind (ceKind ce)) (ceMessage ce))
     | Panicked p \<Rightarrow> (st\<lparr>apWorld := (s', Suc m)\<rparr>, writeError 503 ''leadership lost while committing log''))"
  using assms by (simp add: apiPropose_def requireLeader_def storeBackend_gate split: ApplyResponse.split)

lemma created_by_propose:
  assumes "apWorld st = (s, m)" "generateAPIKey cfg random = Inr (plaintext, hash)"
    and "apiPropose (storeBackend B P clock) (CreateTenant (cmd\<lparr>ctAPIKeyHash := hash\<rparr>)) (\<lambda>result st'.
        case result of
          ResTenant tenant \<Rightarrow> (st', writeJSON 201 (CreatedTenant (sanitizeTenant tenant) plaintext))
        | _ \<Rightarrow> (st', writeError 500 ''unexpected result type from create_tenant'')) st = (st', resp)"
    and "arBody resp = CreatedTenant tn key"
  shows "\<exists>cmd n s'. apWorld st' = (s', Suc m) \<and> ctAPIKeyHash cmd = hashAPIKey cfg key \<and> tn = sanitizeTenant n \<and>
    Apply B P s (Inr \<lparr>lePayload = CreateTenant cmd, leProposedAt = clock m\<rparr>) = (s', Applied (ResTenant n)) \<and>
    TrimSpace key = key \<and> key \<noteq> []"
proof -
  let ?c = "cmd\<lparr>ctAPIKeyHash := hash\<rparr>"
  obtain s' r where a: "Apply B P s (Inr \<lparr>lePayload = CreateTenant ?c, leProposedAt = clock m\<rparr>) = (s', r)" by fastforce
  from store_propose [where clock = clock, OF assms(1) a] assms(3,4) obtain n where n: "r = Applied (ResTenant n)" "tn = sanitizeTenant n"
    "key = plaintext" "apWorld st' = (s', Suc m)"
    by (cases r) (auto simp: writeJSON_def writeError_def split: Result.splits)
  with a key_trimmed [OF assms(2)] show ?thesis by (intro exI [of _ ?c] exI [of _ n] exI [of _ s']) simp
qed

lemma error_body: "arBody (writeError status msg) = ErrorBody msg"
  by (simp add: writeError_def writeJSON_def)

lemma created_tenant:
  assumes "serve (storeBackend B P clock) cfg inp CreateTenantR st = (st', resp)" "arBody resp = CreatedTenant tn key"
    and "apWorld st = (s, m)"
  shows "\<exists>cmd n s'. apWorld st' = (s', Suc m) \<and> ctAPIKeyHash cmd = hashAPIKey cfg key \<and> tn = sanitizeTenant n \<and>
    Apply B P s (Inr \<lparr>lePayload = CreateTenant cmd, leProposedAt = clock m\<rparr>) = (s', Applied (ResTenant n)) \<and>
    TrimSpace key = key \<and> key \<noteq> []"
proof -
  obtain rl ok where l: "limiterAllow (inCreatedAt inp) (inNow inp) ''admin'' (apLimiter st) = (rl, ok)" by fastforce
  let ?st = "st\<lparr>apLimiter := rl\<rparr>"
  have same: "st\<lparr>apWorld := (s, m)\<rparr> = st" using assms(3) by (cases st) simp
  from assms l obtain cmd plaintext hash where c: "inTenantBody inp = Inr cmd" "generateAPIKey cfg (inRandom inp) = Inr (plaintext, hash)"
    "apiPropose (storeBackend B P clock) (CreateTenant (cmd\<lparr>ctAPIKeyHash := hash\<rparr>)) (\<lambda>result st'.
        case result of
          ResTenant tenant \<Rightarrow> (st', writeJSON 201 (CreatedTenant (sanitizeTenant tenant) plaintext))
        | _ \<Rightarrow> (st', writeError 500 ''unexpected result type from create_tenant'')) ?st = (st', resp)"
    using same by (auto simp: handleCreateTenant_def requireLeader_def requireAdmin_def allowRate_def storeBackend_gate error_body Let_def
        split: option.splits if_splits sum.splits)
  have "apWorld ?st = (s, m)" using assms(3) by simp
  from created_by_propose [OF this c(2,3) assms(2)] show ?thesis .
qed

section \<open>Page sizes\<close>

lemma digitsValue_append: "digitsValue acc (xs @ [c]) = 10 * digitsValue acc xs + (of_char c - 48)"
  by (induction xs arbitrary: acc) auto

lemma digitChar_value:
  assumes "0 \<le> n" "n < 10"
  shows "of_char (digitChar n) = (48 + n :: int)" "isDigit (digitChar n)"
proof -
  have "n = 0 \<or> n = 1 \<or> n = 2 \<or> n = 3 \<or> n = 4 \<or> n = 5 \<or> n = 6 \<or> n = 7 \<or> n = 8 \<or> n = 9" using assms by presburger
  moreover have "(of_char (digitChar n) :: int) = int (of_char (digitChar n))" by (simp only: of_nat_of_char)
  ultimately show "of_char (digitChar n) = (48 + n :: int)" "isDigit (digitChar n)"
    by (auto simp: digitChar_def isDigit_def less_eq_char_def)
qed

lemma decimal_digits: "list_all isDigit (decimal n) \<and> decimal n \<noteq> [] \<and> digitsValue 0 (decimal n) = int n"
proof (induction n rule: decimal.induct)
  case (1 n)
  show ?case
  proof (cases "n < 10")
    case True
    then show ?thesis using digitChar_value [of "int n"] by (simp add: decimal.simps [of n])
  next
    case False
    with 1 have "list_all isDigit (decimal (n div 10))" "digitsValue 0 (decimal (n div 10)) = int (n div 10)" by auto
    moreover have "0 \<le> int n mod 10" "int n mod 10 < 10" by simp_all
    ultimately show ?thesis using False digitChar_value [of "int n mod 10"]
      by (simp add: decimal.simps [of n] digitsValue_append zdiv_int)
  qed
qed

lemma Atoi_decimal:
  assumes "int n < 2 ^ 63"
  shows "Atoi (decimal n) = Some (int n)"
proof -
  from decimal_digits [of n] have d: "list_all isDigit (decimal n)" "decimal n \<noteq> []" "digitsValue 0 (decimal n) = int n" by auto
  then have "isDigit (hd (decimal n))" by (cases "decimal n") auto
  then have "hd (decimal n) \<noteq> CHR ''-''" "hd (decimal n) \<noteq> CHR ''+''" by (auto simp: isDigit_def less_eq_char_def)
  with d assms show ?thesis by (simp add: Atoi_def)
qed

section \<open>Properties\<close>


definition demoConfig :: apiConfig where
  "demoConfig = \<lparr>acAdminKey = ''root'', acSha256Hex = (\<lambda>s. CHR ''h'' # s), acOutOfRange = (\<lambda>_. 0)\<rparr>"

definition demoInput :: "string \<Rightarrow> apiInput" where
  "demoInput auth = \<lparr>inAuthorization = auth, inQuery = (\<lambda>_. []),
     inTenantBody = Inr \<lparr>ctID = ''t'', ctName = ''Tenant'', ctAPIKeyHash = []\<rparr>, inScheduleBody = Inl ''EOF'',
     inRandom = Inr ''0123456789abcdef'', inCreatedAt = ZeroTime, inNow = ZeroTime\<rparr>"

definition memBackend :: "(row mem \<times> nat) backend" where
  "memBackend = storeBackend memBolt \<lparr>LoadLocation = (\<lambda>_. Inl ''none''), outOfRange = (\<lambda>_. 0)\<rparr> (\<lambda>n. \<lparr>tNanos = int (Suc n), tOffset = 0\<rparr>)"


text \<open>
  C29. No response carries a key hash: on every route, every tenant in the response body has
  its hash cleared, for any backend that returns tenants only for the command that creates
  them, as the state machine does.
\<close>

theorem key_hashes_hidden:
  assumes "typed_results BE"
  shows "list_all (\<lambda>t. tnAPIKeyHash t = []) (tenantsIn (arBody (snd (serve BE cfg inp r st))))"
  using serve_hides [OF assms] by (simp add: hides_hashes_def)

theorem key_hashes_hidden_witness:
  "list_all (\<lambda>t. tnAPIKeyHash t = [])
     (tenantsIn (arBody (snd (serve memBackend demoConfig (demoInput ''Bearer root'') CreateTenantR (apiNew ([], 0))))))"
  using key_hashes_hidden [OF storeBackend_typed] unfolding memBackend_def .

text \<open>
  C30. The key handed out with a new tenant opens that tenant: after any further log, a
  request that presents it passes the check of the tenant's routes and is charged to the
  tenant's own budget, or to the admin's if the key should equal the admin key.
\<close>

theorem created_key_authorizes:
  assumes "row_store B" "reachable B P s" "apWorld st = (s, m)"
    and "serve (storeBackend B P clock) cfg inp CreateTenantR st = (st1, resp)" "arBody resp = CreatedTenant tn key"
    and "admissible_log B P (fst (apWorld st1)) es"
    and "apWorld st2 = (fst (replay B P (fst (apWorld st1)) es), m2)" "inAuthorization inp2 = ''Bearer '' @ key"
  shows "requireTenantAccess (storeBackend B P clock) cfg inp2 (tnID tn) k st2 =
    allowRate cfg inp2 (if constantTimeEqual key (acAdminKey cfg) then ''admin'' else tnID tn) k st2"
proof -
  from created_tenant [OF assms(4,5,3)] obtain cmd n s' where c: "apWorld st1 = (s', Suc m)" "ctAPIKeyHash cmd = hashAPIKey cfg key"
    "tn = sanitizeTenant n" "Apply B P s (Inr \<lparr>lePayload = CreateTenant cmd, leProposedAt = clock m\<rparr>) = (s', Applied (ResTenant n))"
    "TrimSpace key = key" "key \<noteq> []" by blast
  let ?e = "\<lparr>lePayload = CreateTenant cmd, leProposedAt = clock m\<rparr>"
  have adm: "admissible (store_view B s) (lePayload ?e)" by (simp add: admissible_def)
  from row_store.reachable_inv [OF assms(1,2)] have inv: "store_inv B s" by blast
  have "db_step P (clock m) (CreateTenant cmd) (store_view B s) (ResTenant n) (store_view B s')"
    by (rule row_store.apply_cases [OF assms(1) inv adm c(4)]) auto
  then have n: "dbTenants (store_view B s') (tnID n) = Some n" "tnAPIKeyHash n = hashAPIKey cfg key" "tnAPIKeyHash n \<noteq> []"
    by (cases rule: db_step.cases; use c(2) in auto)+
  have r': "reachable B P s'" using reachable.applied [OF assms(2) adm] c(4) by simp
  let ?s = "fst (replay B P s' es)"
  from row_store.replay_reachable [OF assms(1) r', of es] assms(6) c(1) have r: "reachable B P ?s" "db_evolves (store_view B s') (store_view B ?s)" by auto
  from r(2) n(1) have t: "dbTenants (store_view B ?s) (tnID n) = Some n" by (auto simp: db_evolves_def)
  from row_store.reachable_inv [OF assms(1) r(1)] have "store_inv B ?s" by blast
  from tx_spec.get_tenant [OF row_store.is_tx [OF assms(1)] this, of "tnID n"] t
  have g: "GetTenant (boltTx B) ?s (tnID n) = Inr (Some n)" by simp
  have w: "apWorld st2 = (?s, m2)" using assms(7) c(1) by simp
  have same: "st2\<lparr>apWorld := (?s, m2)\<rparr> = st2" using w by (cases st2) simp
  have "tnID tn = tnID n" by (simp add: c(3) sanitizeTenant_def)
  then show ?thesis using bearer_key [OF c(5,6) assms(8)] g w n(2,3)
    by (simp add: requireTenantAccess_def storeBackend_gate constantTimeEqual_def same)
qed

definition createdApi :: "(row mem \<times> nat) Api \<times> apiResponse" where
  "createdApi = serve memBackend demoConfig (demoInput ''Bearer root'') CreateTenantR (apiNew ([], 0))"

lemma demo_created:
  "arBody (snd createdApi) = CreatedTenant \<lparr>tnID = ''t'', tnName = ''Tenant'', tnCreatedAt = \<lparr>tNanos = 1, tOffset = 0\<rparr>, tnAPIKeyHash = []\<rparr>
     ''sched_MDEyMzQ1Njc4OWFiY2RlZg''"
  unfolding createdApi_def by code_simp

lemma fresh_store_reachable: "reachable memBolt P []"
  by (rule reachable.initial) (simp add: empty_store_def memBolt_def)

theorem created_key_authorizes_witness:
  "requireTenantAccess memBackend demoConfig (demoInput ''Bearer sched_MDEyMzQ1Njc4OWFiY2RlZg'') ''t'' (\<lambda>st. (st, writeError 404 [])) (fst createdApi) =
   allowRate demoConfig (demoInput ''Bearer sched_MDEyMzQ1Njc4OWFiY2RlZg'') ''t'' (\<lambda>st. (st, writeError 404 [])) (fst createdApi)"
proof -
  have s: "serve memBackend demoConfig (demoInput ''Bearer root'') CreateTenantR (apiNew ([], 0)) = (fst createdApi, snd createdApi)"
    by (simp add: createdApi_def)
  have w: "apWorld (apiNew ([], 0) :: (row mem \<times> nat) Api) = ([], 0)" by (simp add: apiNew_def)
  have a: "inAuthorization (demoInput ''Bearer sched_MDEyMzQ1Njc4OWFiY2RlZg'') = ''Bearer '' @ ''sched_MDEyMzQ1Njc4OWFiY2RlZg''"
    by (simp add: demoInput_def)
  let ?k = "\<lambda>st. (st, writeError 404 [])" and ?st = "fst createdApi"
  have "\<not> constantTimeEqual ''sched_MDEyMzQ1Njc4OWFiY2RlZg'' (acAdminKey demoConfig)" by (simp add: constantTimeEqual_def demoConfig_def)
  moreover note created_key_authorizes [where es = "[]" and ?st2.0 = ?st and ?m2.0 = "snd (apWorld ?st)" and k = ?k,
      OF mem_rows.row_store_axioms fresh_store_reachable w s [unfolded memBackend_def] demo_created _ _ a, folded memBackend_def]
  ultimately show ?thesis by simp
qed

text \<open>
  C31. Page sizes stay within their bounds and are what the client asked for: a limit the
  parser accepts lies between 1 and 200, it is the default of 50 when none is given, and
  the decimal form of every number between 1 and 200 is accepted as that number.
\<close>

theorem page_limit_bounds:
  assumes "parsePagination inp = Inr (limit, cursor)"
  shows "1 \<le> limit \<and> limit \<le> 200 \<and> cursor = inQuery inp ''cursor'' \<and>
    (inQuery inp ''limit'' = [] \<longrightarrow> limit = 50) \<and> (inQuery inp ''limit'' \<noteq> [] \<longrightarrow> Atoi (inQuery inp ''limit'') = Some limit)"
  using assms by (auto simp: parsePagination_def defaultLimit_def maxLimit_def Let_def split: if_splits option.splits)

theorem page_limit_bounds_witness:
  "1 \<le> (25::int) \<and> (25::int) \<le> 200 \<and> parsePagination ((demoInput [])\<lparr>inQuery := (\<lambda>k. if k = ''limit'' then ''25'' else [])\<rparr>) = Inr (25, [])"
proof -
  have p: "parsePagination ((demoInput [])\<lparr>inQuery := (\<lambda>k. if k = ''limit'' then ''25'' else [])\<rparr>) = Inr (25, [])" by code_simp
  from page_limit_bounds [OF p] p show ?thesis by simp
qed

text \<open>
  C32. The limit survives its textual form: the decimal form of a number between 1 and 200 is
  parsed back as that number.
\<close>

theorem limit_round_trip:
  assumes "1 \<le> n" "n \<le> 200" "inQuery inp ''limit'' = decimal n"
  shows "parsePagination inp = Inr (int n, inQuery inp ''cursor'')"
proof -
  have "Atoi (decimal n) = Some (int n)" using assms(2) by (intro Atoi_decimal) simp
  moreover have "decimal n \<noteq> []" using decimal_digits by blast
  ultimately show ?thesis using assms by (simp add: parsePagination_def maxLimit_def)
qed

theorem limit_round_trip_witness:
  "parsePagination ((demoInput [])\<lparr>inQuery := (\<lambda>k. if k = ''limit'' then decimal 137 else [])\<rparr>) = Inr (137, [])"
  using limit_round_trip [of 137 "(demoInput [])\<lparr>inQuery := (\<lambda>k. if k = ''limit'' then decimal 137 else [])\<rparr>"] by simp

end
