(* ===== verification/Supervisor.thy ===== *)
theory Supervisor
  imports WorkerCorrect
begin

text \<open>
  The supervisor, \<open>internal/scheduler/supervisor.go\<close>, and the scheduler around it,
  \<open>internal/scheduler/scheduler.go\<close>: a worker is started when the node becomes leader and
  stopped when it ceases to be. The supervisor's goroutine and the worker goroutines it
  starts are one state machine, whose events are what the goroutines do next; an event may
  come in any order that the blocking calls allow.
\<close>

section \<open>The supervisor\<close>

text \<open>
  Where the supervisor's goroutine is: at the \<open>select\<close>, in the \<open>wg.Wait\<close> of \<open>stopWorker\<close>, in
  the \<open>wg.Wait\<close> before the return, or gone.
\<close>

datatype supPhase = Selecting | Stopping | Finishing | Returned

text \<open>
  Workers are numbered in the order \<open>newWorker\<close> makes them. \<open>svCancel\<close> is the field \<open>cancel\<close>: nil,
  or the function that cancels the context of the worker with that number. \<open>svRunning\<close> are the
  worker goroutines that \<open>wg\<close> counts.
\<close>

record Supervisor =
  svCancel :: "nat option"
  svRunning :: "nat list"
  svCanceled :: "nat list"
  svNext :: nat
  svPhase :: supPhase

definition NewSupervisor :: Supervisor where
  "NewSupervisor = \<lparr>svCancel = None, svRunning = [], svCanceled = [], svNext = 0, svPhase = Selecting\<rparr>"

definition startWorker :: "Supervisor \<Rightarrow> Supervisor" where
  "startWorker sv =
     (if svCancel sv \<noteq> None then sv
      else sv\<lparr>svCancel := Some (svNext sv), svRunning := svNext sv # svRunning sv, svNext := Suc (svNext sv)\<rparr>)"

text \<open>\<open>sv.cancel()\<close>, after which the goroutine waits for the workers in the given phase.\<close>

definition cancelAndWait :: "supPhase \<Rightarrow> nat \<Rightarrow> Supervisor \<Rightarrow> Supervisor" where
  "cancelAndWait ph n sv = sv\<lparr>svCanceled := n # svCanceled sv, svPhase := ph\<rparr>"

definition stopWorker :: "Supervisor \<Rightarrow> Supervisor" where
  "stopWorker sv = (case svCancel sv of None \<Rightarrow> sv | Some n \<Rightarrow> cancelAndWait Stopping n sv)"

definition leaderStep :: "bool \<Rightarrow> Supervisor \<Rightarrow> Supervisor" where
  "leaderStep isLeader sv = (if isLeader then startWorker sv else stopWorker sv)"

definition ctxDone :: "Supervisor \<Rightarrow> Supervisor" where
  "ctxDone sv = (case svCancel sv of None \<Rightarrow> sv\<lparr>svPhase := Returned\<rparr> | Some n \<Rightarrow> cancelAndWait Finishing n sv)"

text \<open>
  \<open>Notified\<close> is a value received from the leadership channel, \<open>CtxDone\<close> the end of the
  supervisor's context, \<open>WorkerExit\<close> the return of a worker's \<open>Run\<close> (for whatever reason), and
  \<open>WaitOver\<close> the return of \<open>wg.Wait\<close>.
\<close>

datatype supEvent = Notified bool | CtxDone | WorkerExit nat | WaitOver

inductive supStep :: "Supervisor \<Rightarrow> supEvent \<Rightarrow> Supervisor \<Rightarrow> bool" where
  notified: "svPhase sv = Selecting \<Longrightarrow> supStep sv (Notified b) (leaderStep b sv)"
| ctx_done: "svPhase sv = Selecting \<Longrightarrow> supStep sv CtxDone (ctxDone sv)"
| worker_exit: "n \<in> set (svRunning sv) \<Longrightarrow> supStep sv (WorkerExit n) (sv\<lparr>svRunning := remove1 n (svRunning sv)\<rparr>)"
| stopped: "svPhase sv = Stopping \<Longrightarrow> svRunning sv = [] \<Longrightarrow> supStep sv WaitOver (sv\<lparr>svCancel := None, svPhase := Selecting\<rparr>)"
| finished: "svPhase sv = Finishing \<Longrightarrow> svRunning sv = [] \<Longrightarrow> supStep sv WaitOver (sv\<lparr>svPhase := Returned\<rparr>)"

code_pred supStep .

inductive_simps supStep_simps:
  "supStep sv (Notified b) sv'" "supStep sv CtxDone sv'" "supStep sv (WorkerExit n) sv'" "supStep sv WaitOver sv'"

text \<open>A run from the new supervisor, with the events it took.\<close>

inductive supRun :: "supEvent list \<Rightarrow> Supervisor \<Rightarrow> bool" where
  start: "supRun [] NewSupervisor"
| step: "supRun evs sv \<Longrightarrow> supStep sv ev sv' \<Longrightarrow> supRun (evs @ [ev]) sv'"

section \<open>Scheduler\<close>

text \<open>
  \<open>Start\<close> creates the context and the channel \<open>done\<close>, which the supervisor's goroutine closes
  when \<open>Run\<close> has returned; \<open>Shutdown\<close> cancels the context and waits for \<open>done\<close> or for the end
  of its own context, whichever its \<open>select\<close> sees.
\<close>

record Scheduler =
  scStarted :: bool
  scCanceled :: bool
  scSupervisor :: Supervisor

definition schedulerNew :: Scheduler where
  "schedulerNew = \<lparr>scStarted = False, scCanceled = False, scSupervisor = NewSupervisor\<rparr>"

definition schedulerStart :: "Scheduler \<Rightarrow> Scheduler \<times> goerror option" where
  "schedulerStart sc = (sc\<lparr>scStarted := True, scCanceled := False, scSupervisor := NewSupervisor\<rparr>, None)"

definition doneClosed :: "Scheduler \<Rightarrow> bool" where
  "doneClosed sc \<longleftrightarrow> svPhase (scSupervisor sc) = Returned"

text \<open>
  The select of \<open>Shutdown\<close>: \<open>None\<close> while neither channel is ready; with both ready either may be
  taken, as \<open>preferDone\<close> says.
\<close>

definition shutdownSelect :: "bool \<Rightarrow> goerror option \<Rightarrow> bool \<Rightarrow> goerror option option" where
  "shutdownSelect isDone ctxErr preferDone =
     (if isDone \<and> (ctxErr = None \<or> preferDone) then Some None
      else case ctxErr of None \<Rightarrow> None | Some err \<Rightarrow> Some (Some err))"

definition schedulerShutdown :: "Scheduler \<Rightarrow> Scheduler" where
  "schedulerShutdown sc = (if scStarted sc then sc\<lparr>scCanceled := True\<rparr> else sc)"

definition schedulerShutdownResult :: "Scheduler \<Rightarrow> goerror option \<Rightarrow> bool \<Rightarrow> goerror option option" where
  "schedulerShutdownResult sc ctxErr preferDone =
     (if \<not> scStarted sc then Some None else shutdownSelect (doneClosed sc) ctxErr preferDone)"

section \<open>The worker follows leadership\<close>

text \<open>The last value the supervisor received from the leadership channel.\<close>

definition lastNotice :: "supEvent list \<Rightarrow> bool" where
  "lastNotice evs = foldl (\<lambda>l ev. case ev of Notified b \<Rightarrow> b | _ \<Rightarrow> l) False evs"

lemma lastNotice_simps [simp]:
  "lastNotice [] = False" "lastNotice (evs @ [Notified b]) = b" "lastNotice (evs @ [CtxDone]) = lastNotice evs"
  "lastNotice (evs @ [WorkerExit n]) = lastNotice evs" "lastNotice (evs @ [WaitOver]) = lastNotice evs"
  by (simp_all add: lastNotice_def)

text \<open>
  The invariant: only the worker that \<open>cancel\<close> stands for can be running, it is canceled when
  the supervisor waits for it, and at the \<open>select\<close> the field is set exactly when the node was
  last told that it leads.
\<close>

definition sup_inv :: "supEvent list \<Rightarrow> Supervisor \<Rightarrow> bool" where
  "sup_inv evs sv \<longleftrightarrow>
     (svRunning sv = [] \<or> (\<exists>n. svCancel sv = Some n \<and> svRunning sv = [n])) \<and>
     (svPhase sv = Selecting \<longrightarrow> (svCancel sv \<noteq> None \<longleftrightarrow> lastNotice evs)) \<and>
     (svPhase sv = Stopping \<longrightarrow> \<not> lastNotice evs) \<and>
     (svPhase sv = Stopping \<or> svPhase sv = Finishing \<longrightarrow> (\<exists>n. svCancel sv = Some n \<and> n \<in> set (svCanceled sv))) \<and>
     (svPhase sv = Returned \<longrightarrow> svRunning sv = [])"

lemmas supervisor_defs = leaderStep_def startWorker_def stopWorker_def ctxDone_def cancelAndWait_def

lemma sup_inv_step: "sup_inv evs sv \<Longrightarrow> supStep sv ev sv' \<Longrightarrow> sup_inv (evs @ [ev]) sv'"
  by (erule supStep.cases)
    (auto simp: sup_inv_def supervisor_defs split: option.splits if_splits)

lemma sup_inv_run: "supRun evs sv \<Longrightarrow> sup_inv evs sv"
proof (induction rule: supRun.induct)
  case start
  show ?case by (simp add: sup_inv_def NewSupervisor_def)
qed (rule sup_inv_step)

lemma runs_end_to_end: "supRun evs sv \<Longrightarrow> supStep sv e1 sv1 \<Longrightarrow> supStep sv1 e2 sv2 \<Longrightarrow> supRun (evs @ [e1, e2]) sv2"
  using supRun.step [OF supRun.step, of evs sv e1 sv1 e2 sv2] by simp

text \<open>
  C36. At most one worker runs, and only for a leader: whatever the order of notifications, a
  second worker is started only after the first has returned; while the node was last told
  that it does not lead, every worker still running has been canceled, and at the \<open>select\<close>
  none is; when \<open>Run\<close> returns, no worker is running.
\<close>

theorem worker_follows_leadership:
  assumes "supRun evs sv"
  shows "length (svRunning sv) \<le> 1 \<and>
    (lastNotice evs \<or> set (svRunning sv) \<subseteq> set (svCanceled sv) \<and> (svPhase sv = Selecting \<longrightarrow> svRunning sv = [])) \<and>
    (svPhase sv = Selecting \<longrightarrow> (svCancel sv \<noteq> None \<longleftrightarrow> lastNotice evs)) \<and>
    (svPhase sv = Returned \<longrightarrow> svRunning sv = [])"
  using sup_inv_run [OF assms] unfolding sup_inv_def by (cases "svPhase sv") auto

text \<open>A supervisor that was told to lead, then not to, while its worker is still busy.\<close>

lemma demo_supervisor:
  "supRun [Notified True, Notified False]
     \<lparr>svCancel = Some 0, svRunning = [0], svCanceled = [0], svNext = 1, svPhase = Stopping\<rparr>"
proof -
  have "supStep NewSupervisor (Notified True) (leaderStep True NewSupervisor)"
    by (rule supStep.notified) (simp add: NewSupervisor_def)
  moreover have "supStep (leaderStep True NewSupervisor) (Notified False) (leaderStep False (leaderStep True NewSupervisor))"
    by (rule supStep.notified) (simp add: NewSupervisor_def supervisor_defs)
  ultimately show ?thesis
    using runs_end_to_end [OF supRun.start] by (simp add: NewSupervisor_def supervisor_defs)
qed

theorem worker_follows_leadership_witness:
  "set (svRunning \<lparr>svCancel = Some 0, svRunning = [0], svCanceled = [0], svNext = 1, svPhase = Stopping\<rparr>) \<subseteq>
   set (svCanceled \<lparr>svCancel = Some 0, svRunning = [0], svCanceled = [0], svNext = 1, svPhase = Stopping\<rparr>)"
  using worker_follows_leadership [OF demo_supervisor] by (simp add: lastNotice_def)

section \<open>Stopping\<close>

lemma worker_exits:
  assumes "supRun evs sv" "svPhase sv = Stopping \<or> svPhase sv = Finishing"
  obtains evs' sv' where "supRun (evs @ evs') sv'" "svRunning sv' = []" "svPhase sv' = svPhase sv" "svCanceled sv' = svCanceled sv"
    "length evs' \<le> 1" "set evs' \<subseteq> WorkerExit ` set (svCanceled sv)"
proof (cases "svRunning sv")
  case Nil
  with that [of "[]" sv] assms show ?thesis by simp
next
  case (Cons n ns)
  with sup_inv_run [OF assms(1)] assms(2) have n: "svRunning sv = [n]" "n \<in> set (svCanceled sv)" by (auto simp: sup_inv_def)
  then have "supStep sv (WorkerExit n) (sv\<lparr>svRunning := []\<rparr>)" using supStep.worker_exit [of n sv] by simp
  from that [OF supRun.step [OF assms(1) this]] n show ?thesis by simp
qed

lemma finishing_returns:
  assumes "supRun evs sv" "svPhase sv = Finishing"
  obtains evs' sv' where "supRun (evs @ evs') sv'" "svPhase sv' = Returned" "length evs' \<le> 2"
    "set evs' \<subseteq> insert WaitOver (WorkerExit ` set (svCanceled sv'))"
proof -
  obtain evs' sv2 where x: "supRun (evs @ evs') sv2" "svRunning sv2 = []" "svPhase sv2 = svPhase sv"
    "svCanceled sv2 = svCanceled sv" "length evs' \<le> 1" "set evs' \<subseteq> WorkerExit ` set (svCanceled sv)"
    using worker_exits [OF assms(1)] assms(2) by metis
  have "supStep sv2 WaitOver (sv2\<lparr>svPhase := Returned\<rparr>)" using x assms(2) by (intro supStep.finished) simp_all
  from supRun.step [OF x(1) this] x(4-6) show ?thesis
    by (intro that [of "evs' @ [WaitOver]" "sv2\<lparr>svPhase := Returned\<rparr>"]) auto
qed

text \<open>
  C37. Shutdown completes: from whatever state a run of the supervisor is in, the end of its
  context and at most two more steps, the return of a worker that was canceled and the end
  of the wait, make \<open>Run\<close> return with no worker left, and then the scheduler's \<open>Shutdown\<close>
  returns without error.
\<close>

theorem shutdown_completes:
  assumes "supRun evs sv"
  shows "\<exists>evs' sv'. supRun (evs @ evs') sv' \<and> length evs' \<le> 3 \<and>
    set evs' \<subseteq> insert CtxDone (insert WaitOver (WorkerExit ` set (svCanceled sv'))) \<and>
    svPhase sv' = Returned \<and> svRunning sv' = [] \<and>
    schedulerShutdownResult \<lparr>scStarted = True, scCanceled = True, scSupervisor = sv'\<rparr> None p = Some None"
proof -
  have goal: ?thesis if "supRun (evs @ evs') sv'" "length evs' \<le> 3" "svPhase sv' = Returned"
    "set evs' \<subseteq> insert CtxDone (insert WaitOver (WorkerExit ` set (svCanceled sv')))" for evs' sv'
    using that sup_inv_run [OF that(1)]
    by (intro exI [of _ evs'] exI [of _ sv']) (auto simp: sup_inv_def schedulerShutdownResult_def doneClosed_def shutdownSelect_def)
  have finish: ?thesis if sv1: "supRun (evs @ es) sv1" "svPhase sv1 = Finishing" "set es \<subseteq> {CtxDone}" "length es \<le> 1" for es sv1
  proof -
    obtain es' sv' where "supRun ((evs @ es) @ es') sv'" "svPhase sv' = Returned" "length es' \<le> 2"
      "set es' \<subseteq> insert WaitOver (WorkerExit ` set (svCanceled sv'))"
      using finishing_returns [OF sv1(1,2)] by metis
    with sv1(3,4) show ?thesis by (intro goal [of "es @ es'" sv']) auto
  qed
  show ?thesis
  proof (cases "svPhase sv")
    case Selecting
    note s = supRun.step [OF assms supStep.ctx_done [OF Selecting]]
    show ?thesis
    proof (cases "svCancel sv")
      case None
      with s show ?thesis by (intro goal [of "[CtxDone]" "ctxDone sv"]) (simp_all add: ctxDone_def)
    next
      case (Some n)
      with s show ?thesis by (intro finish [of "[CtxDone]" "ctxDone sv"]) (simp_all add: ctxDone_def cancelAndWait_def)
    qed
  next
    case Stopping
    then obtain evs' sv2 where x: "supRun (evs @ evs') sv2" "svRunning sv2 = []" "svPhase sv2 = Stopping"
      "svCanceled sv2 = svCanceled sv" "length evs' \<le> 1" "set evs' \<subseteq> WorkerExit ` set (svCanceled sv)"
      using worker_exits [OF assms] by metis
    let ?sv3 = "sv2\<lparr>svCancel := None, svPhase := Selecting\<rparr>"
    have "supStep sv2 WaitOver ?sv3" using x by (intro supStep.stopped) simp_all
    moreover have "supStep ?sv3 CtxDone (ctxDone ?sv3)" by (rule supStep.ctx_done) simp
    ultimately have "supRun ((evs @ evs') @ [WaitOver, CtxDone]) (ctxDone ?sv3)" by (rule runs_end_to_end [OF x(1)])
    with x show ?thesis by (intro goal [of "evs' @ [WaitOver, CtxDone]" "ctxDone ?sv3"]) (auto simp: ctxDone_def)
  next
    case Finishing
    with assms show ?thesis by (intro finish [of "[]" sv]) simp_all
  next
    case Returned
    with assms show ?thesis by (intro goal [of "[]" sv]) simp_all
  qed
qed

theorem shutdown_completes_witness:
  "\<exists>evs' sv'. supRun ([Notified True, Notified False] @ evs') sv' \<and> length evs' \<le> 3 \<and> svPhase sv' = Returned \<and> svRunning sv' = []"
  using shutdown_completes [OF demo_supervisor] by blast

lemma steadyState_returns: "\<exists>err. fst (snd (execute E (steadyState w (evs @ True # rest)) u)) = Some err"
proof (induction evs arbitrary: u)
  case (Cons b evs)
  then show ?case by (cases b) (auto simp: execute_calls split_def Let_def split: option.splits)
qed (simp add: execute_calls)


section \<open>A worker that fails\<close>

text \<open>
  A worker whose \<open>Run\<close> returned an error is not replaced: \<open>cancel\<close> stays set, so that no
  further notification of leadership starts a worker until the node was told that it lost
  the leadership.
\<close>

theorem failed_worker_not_replaced:
  assumes "svCancel sv = Some n" "svRunning sv = []" "supStep sv (Notified True) sv'"
  shows "sv' = sv"
  using assms by (simp add: supStep_simps leaderStep_def startWorker_def)

theorem failed_worker_reachable: "\<exists>sv. supRun [Notified True, WorkerExit 0] sv \<and> svCancel sv = Some 0 \<and> svRunning sv = []"
proof -
  have "supStep NewSupervisor (Notified True) (leaderStep True NewSupervisor)"
    by (rule supStep.notified) (simp add: NewSupervisor_def)
  moreover have "supStep (leaderStep True NewSupervisor) (WorkerExit 0) ((leaderStep True NewSupervisor)\<lparr>svRunning := []\<rparr>)"
    using supStep.worker_exit [of 0 "leaderStep True NewSupervisor"]
    by (simp add: NewSupervisor_def supervisor_defs)
  ultimately have "supRun [Notified True, WorkerExit 0] ((leaderStep True NewSupervisor)\<lparr>svRunning := []\<rparr>)"
    using runs_end_to_end [OF supRun.start] by fastforce
  then show ?thesis
    by (rule exI [of _ "(leaderStep True NewSupervisor)\<lparr>svRunning := []\<rparr>", OF conjI]) (simp add: NewSupervisor_def supervisor_defs)
qed

end
