(* ===== verification/Node.thy ===== *)
theory Node
  imports RaftNode Supervisor
begin

text \<open>
  The process: \<open>storage.New\<close>, \<open>statemachine.New\<close>, \<open>internal/node/node.go\<close> and
  \<open>cmd/scheduler/main.go\<close>. The parts are built bottom up, started and stopped in a fixed
  order; what the operating system and the libraries answer are parameters.
\<close>

section \<open>Opening the database\<close>

text \<open>
  The calls \<open>storage.New\<close> makes: the directory, the file in it, the buckets of the
  first transaction and its commit.
\<close>

record 'b openCalls =
  ocMkdirAll :: "string \<Rightarrow> unit fallible"
  ocOpen :: "string \<Rightarrow> string \<Rightarrow> 'b fallible"
  ocCreateBucketIfNotExists :: "'b \<Rightarrow> string \<Rightarrow> 'b fallible"
  ocCommit :: "'b \<Rightarrow> 'b fallible"

definition allBuckets :: "string list" where
  "allBuckets = [bucketSchedules, bucketExecutions, bucketAttempts, bucketTenants, bucketExecutionsBySchedule,
     bucketExecutionsByStatus, bucketAttemptsByExecution, bucketSchedulesByStatus]"

fun createBuckets :: "'b openCalls \<Rightarrow> 'b \<Rightarrow> string list \<Rightarrow> 'b fallible" where
  "createBuckets OC db [] = Inr db"
| "createBuckets OC db (b # bs) = andThen (ocCreateBucketIfNotExists OC db b) (\<lambda>db'. createBuckets OC db' bs)"

definition storageNew :: "'b openCalls \<Rightarrow> string \<Rightarrow> 'b fallible" where
  "storageNew OC dataDir =
     andThen (ocMkdirAll OC dataDir) (\<lambda>_.
     andThen (ocOpen OC dataDir ''scheduler.db'') (\<lambda>db.
     andThen (createBuckets OC db allBuckets) (ocCommit OC)))"

definition stateMachineNew :: "'b openCalls \<Rightarrow> Config \<Rightarrow> 'b StateMachine fallible" where
  "stateMachineNew OC cfg =
     andThen (storageNew OC (cfgDataDir cfg)) (\<lambda>store. Inr \<lparr>smDB = store, smHandle = 0, smOpen = True\<rparr>)"

lemma createBuckets_exist:
  assumes "\<And>db b db'. ocCreateBucketIfNotExists OC db b = Inr db' \<Longrightarrow> has db' = insert b (has db)"
  shows "createBuckets OC db bs = Inr db' \<Longrightarrow> has db' = set bs \<union> has db"
  by (induction bs arbitrary: db) (auto dest: assms)

text \<open>A state machine starts with every bucket its transactions use.\<close>

lemma stateMachineNew_buckets:
  assumes "\<And>db b db'. ocCreateBucketIfNotExists OC db b = Inr db' \<Longrightarrow> has db' = insert b (has db)"
    and "\<And>db db'. ocCommit OC db = Inr db' \<Longrightarrow> has db' = has db"
    and "stateMachineNew OC cfg = Inr sm"
  shows "smOpen sm \<and> smHandle sm = 0 \<and> set allBuckets \<subseteq> has (smDB sm)"
proof -
  from assms(3) obtain db db1 where "createBuckets OC db allBuckets = Inr db1" "ocCommit OC db1 = Inr (smDB sm)" "smOpen sm" "smHandle sm = 0"
    by (auto simp: stateMachineNew_def storageNew_def)
  with createBuckets_exist [of OC has, OF assms(1)] assms(2) show ?thesis by blast
qed

section \<open>The node\<close>

text \<open>
  A node holds the parts it wires together. The state machine itself is inside the Raft
  library, which applies entries to it and restores it; \<open>nodeNew\<close> passes its storage, as it
  is before the library starts, to the Raft node.
\<close>

record 'r Node =
  ndCfg :: Config
  ndRaft :: "'r RaftNode"
  ndScheduler :: Scheduler
  ndListening :: bool
  ndStorageOpen :: bool

definition nodeNew :: "'b openCalls \<Rightarrow> ('b StateMachine \<Rightarrow> 'r raftSetup) \<Rightarrow> Config \<Rightarrow> 'r Node fallible" where
  "nodeNew OC S cfg =
     andThen (wrapErr ''statemachine: '' (stateMachineNew OC cfg)) (\<lambda>sm.
     andThen (wrapErr ''raftnode: '' (raftnodeNew (S sm) cfg (storageOf sm))) (\<lambda>rn.
       Inr \<lparr>ndCfg = cfg, ndRaft = rn, ndScheduler = schedulerNew, ndListening = False, ndStorageOpen = True\<rparr>))"

text \<open>\<open>api.Start\<close>: listen, then serve in a goroutine.\<close>

definition apiStart :: "(string \<Rightarrow> unit fallible) \<Rightarrow> 'r Node \<Rightarrow> 'r Node fallible" where
  "apiStart listen n =
     andThen (wrapErr (''api listen on '' @ cfgHTTPAddr (ndCfg n) @ '': '') (listen (cfgHTTPAddr (ndCfg n)))) (\<lambda>_.
       Inr (n\<lparr>ndListening := True\<rparr>))"

definition nodeStart :: "(string \<Rightarrow> unit fallible) \<Rightarrow> 'r Node \<Rightarrow> 'r Node fallible" where
  "nodeStart listen n =
     andThen (wrapErr ''api start: '' (apiStart listen n)) (\<lambda>n'.
       Inr (n'\<lparr>ndScheduler := fst (schedulerStart (ndScheduler n'))\<rparr>))"

text \<open>\<open>errors.Join\<close>: nil for no error, otherwise the texts, a line each.\<close>

fun joinErrs :: "goerror list \<Rightarrow> goerror option" where
  "joinErrs [] = None"
| "joinErrs (e # es) = Some (case joinErrs es of None \<Rightarrow> e | Some rest \<Rightarrow> e @ [CHR 0x0A] @ rest)"

definition errOf :: "string \<Rightarrow> goerror option \<Rightarrow> goerror list" where
  "errOf msg err = (case err of None \<Rightarrow> [] | Some e \<Rightarrow> [msg @ e])"

text \<open>
  \<open>Shutdown\<close>, given what the scheduler's and the server's \<open>Shutdown\<close> return and what closing the
  stores of the Raft node returns. All four parts are shut down whatever the others return; the
  errors of the Raft node and of the state machine are dropped, as the code does.
\<close>

definition nodeShutdown ::
  "('r, 'b) raft \<Rightarrow> goerror option \<Rightarrow> goerror option \<Rightarrow> unit fallible \<Rightarrow> unit fallible \<Rightarrow> unit fallible \<Rightarrow> 'r Node \<Rightarrow> 'r Node \<times> goerror option" where
  "nodeShutdown R schErr apiErr logStoreClose stableStoreClose transportClose n =
     (let n1 = n\<lparr>ndScheduler := schedulerShutdown (ndScheduler n)\<rparr>;
          n2 = n1\<lparr>ndListening := False\<rparr>;
          (rn, _) = raftnodeShutdown R logStoreClose stableStoreClose transportClose (ndRaft n2)
      in (n2\<lparr>ndRaft := rn, ndStorageOpen := False\<rparr>, joinErrs (errOf ''scheduler shutdown: '' schErr @ errOf ''api shutdown: '' apiErr)))"

text \<open>The exit code of \<open>main\<close>: one when the node cannot be built or started; a failed shutdown is only logged.\<close>

definition schedulerMain ::
  "Config fallible \<Rightarrow> (string \<Rightarrow> string) \<Rightarrow> 'b openCalls \<Rightarrow> ('b StateMachine \<Rightarrow> 'r raftSetup) \<Rightarrow> (string \<Rightarrow> unit fallible) \<Rightarrow> nat" where
  "schedulerMain parsed getenv OC S listen =
     (case andThen (configNew parsed getenv) (\<lambda>cfg. andThen (nodeNew OC S cfg) (nodeStart listen)) of
        Inl err \<Rightarrow> 1 | Inr n \<Rightarrow> 0)"

text \<open>
  A node that starts is complete: its configuration was valid, it listens, its Raft node
  has the configured ID, and the scheduler runs.
\<close>

lemma nodeStart_started:
  assumes "nodeNew OC S cfg = Inr n" "nodeStart listen n = Inr n'"
  shows "rnID (ndRaft n') = cfgNodeID cfg \<and> rnStorage (ndRaft n') = 0 \<and> rnReadyTerm (ndRaft n') = 0 \<and>
    ndListening n' \<and> scStarted (ndScheduler n') \<and> scSupervisor (ndScheduler n') = NewSupervisor"
  using assms
  by (auto simp: nodeNew_def nodeStart_def apiStart_def raftnodeNew_def schedulerStart_def schedulerNew_def
      stateMachineNew_def storageOf_def split: if_splits)

end
