(* ===== verification/Findings.thy ===== *)
theory Findings
  imports Node ApiCorrect Scenario CommandErrors Recovery
begin

text \<open>
  Behaviour of the code that differs from what its comments, its documentation or its callers
  expect, stated on the model.
\<close>

section \<open>Reads after a restored snapshot\<close>

text \<open>
  \<open>Restore\<close> replaces the database object of the state machine and closes the one before, but a
  Raft node keeps the storage it was handed at construction. From then on every leader-gated
  read of that node fails.
\<close>

theorem restore_orphans_storage:
  assumes "Restore F sm img = (sm', None)"
  shows "viewOn sm' (storageOf sm) fn = Inl ErrDatabaseNotOpen"
  using assms by (auto simp: Restore_def viewOn_def storageOf_def split: sum.splits)

theorem orphaned_node_cannot_read:
  assumes "\<And>r r' sm. rfFSM R r = (r', sm) \<Longrightarrow> smHandle sm \<noteq> rnStorage rn"
  shows "snd (leaderRead R msg fn rn) \<noteq> Inr x"
proof -
  have keep: "rnStorage (fst (ensureCaughtUpAsLeader R rn')) = rnStorage rn'" for rn'
    by (auto simp: ensureCaughtUpAsLeader_def Let_def split: prod.splits sum.splits)
  obtain r1 st where s: "rfState R (rnRaft rn) = (r1, st)" by fastforce
  obtain rl l where l: "rfLeader R r1 = (rl, l)" by fastforce
  obtain rn2 e where c: "ensureCaughtUpAsLeader R (rn\<lparr>rnRaft := r1\<rparr>) = (rn2, e)" by fastforce
  obtain r3 sm where f: "rfFSM R (rnRaft rn2) = (r3, sm)" by fastforce
  from keep [of "rn\<lparr>rnRaft := r1\<rparr>"] c assms [OF f] have "smHandle sm \<noteq> rnStorage rn2" by simp
  with s l c f show ?thesis by (auto simp: leaderRead_def viewOn_def split: option.splits)
qed

section \<open>A tenant named like the admin\<close>

text \<open>
  The limiter's key for the admin, \<open>admin\<close>, is a possible tenant ID. The requests of a tenant
  with that ID and those of the admin draw from one budget.
\<close>

theorem admin_tenant_shares_budget:
  assumes "bearerToken inp = Some key" "\<not> constantTimeEqual key (acAdminKey cfg)"
    and "beGetTenant BE (apWorld st) ''admin'' = (w, Inr (Some tenant))" "constantTimeEqual (hashAPIKey cfg key) (tnAPIKeyHash tenant)"
    and "bearerToken inp' = Some (acAdminKey cfg)" "acAdminKey cfg \<noteq> []"
  shows "requireTenantAccess BE cfg inp ''admin'' k st = allowRate cfg inp ''admin'' k (st\<lparr>apWorld := w\<rparr>)"
    and "requireAdmin cfg inp' k' st' = allowRate cfg inp' ''admin'' k' st'"
  using assms(1-4) apply (simp add: requireTenantAccess_def)
  using assms(5,6) by (simp add: requireAdmin_def constantTimeEqual_def)

section \<open>Keys with the separator\<close>

text \<open>IDs that contain the key separator collide: schedules of two tenants share one row.\<close>

theorem schedule_keys_collide: "scheduleKey ''a:b'' ''c'' = scheduleKey ''a'' ''b:c''"
  by (simp add: scheduleKey_def)

section \<open>Recurrences\<close>

text \<open>A completed run is rescheduled in UTC, whatever the time zone of the schedule.\<close>

theorem completion_ignores_timezone:
  "advancedSchedule P msg e (x\<lparr>sTimezone := z\<rparr>) = map_sum id (\<lambda>y. y\<lparr>sTimezone := z\<rparr>) (advancedSchedule P msg e x)"
  by (auto simp: advancedSchedule_def cmdError_def split: sum.splits failure.splits)

text \<open>The weekday of a recurrence has no effect on its runs.\<close>

theorem day_of_week_ignored:
  "ComputeNextRunAfter P (Some (r\<lparr>rDayOfWeek := d\<rparr>)) tz f t = ComputeNextRunAfter P (Some r) tz f t"
  "ComputeNextRunOnOrAfter P (Some (r\<lparr>rDayOfWeek := d\<rparr>)) tz f t = ComputeNextRunOnOrAfter P (Some r) tz f t"
proof -
  have "rCadence (r\<lparr>rDayOfWeek := d\<rparr>) = rCadence r" "rSeconds (r\<lparr>rDayOfWeek := d\<rparr>) = rSeconds r"
    "rDayOfMonth (r\<lparr>rDayOfWeek := d\<rparr>) = rDayOfMonth r" by simp_all
  note same = this
  show "ComputeNextRunAfter P (Some (r\<lparr>rDayOfWeek := d\<rparr>)) tz f t = ComputeNextRunAfter P (Some r) tz f t"
    "ComputeNextRunOnOrAfter P (Some (r\<lparr>rDayOfWeek := d\<rparr>)) tz f t = ComputeNextRunOnOrAfter P (Some r) tz f t"
    unfolding ComputeNextRunAfter_def ComputeNextRunOnOrAfter_def dispatchCadence_def option.case same by (rule refl)+
qed

text \<open>An interval of zero seconds is accepted, and its next run never moves past the first one.\<close>

theorem zero_interval_stuck: "\<not> Before t f \<Longrightarrow> computeIntervalAfter P f 0 t = Inr (Some (UTC (Add f 0)))"
  by (simp add: computeIntervalAfter_def intervalSlot_def wrap64_def)

text \<open>
  A committed command that creates an interval schedule without a number of seconds makes
  the state machine panic, on every replica that applies it and again when it is replayed.
\<close>

theorem missing_seconds_panics:
  "\<exists>p. Apply memBolt utcPlatform [] (Inr (entry (CreateSchedule
     (createS\<lparr>csRecurrence := Some (hourly\<lparr>rSeconds := None\<rparr>)\<rparr>)) 0)) = ([], Panicked p)"
proof -
  have "resolveTimezone utcPlatform ''UTC'' = Inr utcLoc" by (simp add: resolveTimezone_def utcPlatform_def)
  then have "ComputeNextRunOnOrAfter utcPlatform (Some (hourly\<lparr>rSeconds := None\<rparr>)) ''UTC'' f t =
      Inl (Panic ''nil pointer dereference: recurrence.Seconds'')" for f t
    by (simp add: ComputeNextRunOnOrAfter_def dispatchCadence_def hourly_def)
  then show ?thesis
    by (simp add: Apply_def storageUpdate_def entry_def ApplyCreateSchedule_def createS_def validateHeaders_def demo_headers
        demo_gets Let_def withResult_def schedule_type_defs)
qed

section \<open>Resuming with \<open>catch_up_latest_only\<close>\<close>

text \<open>
  Resuming a schedule whose policy is \<open>catch_up_latest_only\<close> sets the next run to the latest
  instant that has passed, even when that run has an execution already. The schedule is then
  due, but every claim of the run is refused, and nothing else moves the schedule on.
\<close>

inductive_cases resume_stepE: "db_step P now (ResumeSchedule c) d r d'"

theorem latest_only_resume_stalls:
  assumes "row_store B" "reachable B P s" "no_colon t" "no_colon (sID x)" "sID x \<noteq> []" "t \<noteq> []"
    and x: "dbSchedules (store_view B s) (t, sID x) = Some x" "sStatus x = ScheduleStatusPaused"
      "sScheduleType x = ScheduleTypeRecurring" "sCatchUpPolicy x = CatchUpPolicyLatestOnly"
    and r: "ComputeLatestRunOnOrBefore P (sRecurrence x) (sTimezone x) (sFirstRunAt x) now = Inr (Some r)" "\<not> IsZero r"
    and e: "dbExecutions (store_view B s) (t, i) = Some e" "eScheduleID e = sID x" "Equal (eScheduledFor e) r"
    and a: "Apply B P s (Inr \<lparr>lePayload = ResumeSchedule \<lparr>rsTenantID = t, rsID = sID x\<rparr>, leProposedAt = now\<rparr>) = (s', Applied res)"
  shows "\<exists>y. dbSchedules (store_view B s') (t, sID x) = Some y \<and> sStatus y = ScheduleStatusActive \<and> sNextRunAt y = Some r"
    and "\<lbrakk>clTenantID c = t; clScheduleID c = sID x; clScheduledFor c = r; clID c \<noteq> []; clOwnerNodeID c \<noteq> []\<rbrakk> \<Longrightarrow>
      \<exists>ce. Apply B P s' (Inr \<lparr>lePayload = ClaimExecution c, leProposedAt = later\<rparr>) = (s', Refused ce)"
proof -
  let ?e = "\<lparr>lePayload = ResumeSchedule \<lparr>rsTenantID = t, rsID = sID x\<rparr>, leProposedAt = now\<rparr>"
  from row_store.reachable_inv [OF assms(1,2)] have inv: "store_inv B s" "rows_keyed (store_view B s)" by (auto simp: db_inv_def)
  with x(1) have key: "sTenantID x = t" by (auto simp: rows_keyed_def)
  have adm: "admissible (store_view B s) (lePayload ?e)" using assms(3,4) by (simp add: admissible_def)
  with row_store.apply_cases [OF assms(1) inv(1) _ a] have
    "db_step P now (ResumeSchedule \<lparr>rsTenantID = t, rsID = sID x\<rparr>) (store_view B s) res (store_view B s')" by fastforce
  then have s': "store_view B s' = setSchedule (store_view B s) (x\<lparr>sNextRunAt := Some r, sStatus := ScheduleStatusActive, sUpdatedAt := now\<rparr>)"
    using x r(1) by (auto elim!: resume_stepE simp: catchUpRun_def Let_def schedule_status_defs schedule_type_defs catchup_defs)
  then show "\<exists>y. dbSchedules (store_view B s') (t, sID x) = Some y \<and> sStatus y = ScheduleStatusActive \<and> sNextRunAt y = Some r"
    using key by simp
  have "reachable B P s'" using reachable.applied [OF assms(2) adm] a by simp
  from row_store.reachable_inv [OF assms(1) this] have inv': "store_inv B s'" "claims_unique (store_view B s')" by (auto simp: db_inv_def)
  assume c: "clTenantID c = t" "clScheduleID c = sID x" "clScheduledFor c = r" "clID c \<noteq> []" "clOwnerNodeID c \<noteq> []"
  have only: "i' = i" if "dbExecutions (store_view B s') (clTenantID c, i') = Some e'" "eScheduleID e' = clScheduleID c"
    "Equal (eScheduledFor e') (clScheduledFor c)" for i' e'
    using inv'(2) that e s' c(1-3) unfolding claims_unique_def by (auto simp: Equal_def)
  have pre: "no_colon (clTenantID c)" "no_colon (clScheduleID c)" "clTenantID c \<noteq> []" "clScheduleID c \<noteq> []" "clID c \<noteq> []"
    "\<not> IsZero (clScheduledFor c)" "clOwnerNodeID c \<noteq> []" "dbExecutions (store_view B s') (clTenantID c, i) = Some e"
    "eScheduleID e = clScheduleID c" "Equal (eScheduledFor e) (clScheduledFor c)"
    using assms(3-6) c e r(2) s' by simp_all
  note tx_spec.claim_refused [OF row_store.is_tx [OF assms(1)] inv'(1) pre only]
  then show "\<exists>ce. Apply B P s' (Inr \<lparr>lePayload = ClaimExecution c, leProposedAt = later\<rparr>) = (s', Refused ce)"
    by (auto intro!: apply_refused)
qed

section \<open>States of schedules\<close>

text \<open>
  A policy that is none of the three declared ones is stored as given; resuming such a
  recurring schedule gives it no next run, so that it is active and never due.
\<close>

theorem unknown_policy_resumes_without_run:
  assumes "sCatchUpPolicy x \<notin> {CatchUpPolicyAll, CatchUpPolicyLatestOnly, CatchUpPolicySkipMissed}"
  shows "catchUpRun P x anchor now = Inr None" "\<not> isDue later (x\<lparr>sNextRunAt := None\<rparr>)"
  using assms by (simp_all add: catchUpRun_def isDue_def)

text \<open>
  The completion of a one-time schedule's execution overwrites the schedule's state: one that
  was canceled or paused while the execution was in flight becomes completed.
\<close>

theorem completion_overrides_cancellation:
  assumes "sScheduleType x \<noteq> ScheduleTypeRecurring" "sStatus x = ScheduleStatusCanceled"
  shows "advancedSchedule P msg e x = Inr (x\<lparr>sStatus := ScheduleStatusCompleted, sNextRunAt := None\<rparr>)"
  using assms by (simp add: advancedSchedule_def)

end
