(* ===== verification/Spec2Isabelle.thy ===== *)
theory Spec2Isabelle
  imports CommandErrors Scenario Pagination ClusterScenario ApiCorrect Findings
begin

text \<open>
  A verification library for \<^bold>\<open>raft-biling\<close>, a distributed multi-tenant task scheduler in
  Go: clients create tenants and schedules over HTTP, every change is a command in a
  replicated Raft log, one state machine applies the log to an embedded key-value store,
  and the node that leads runs a worker that claims due runs, calls their callback URLs,
  retries and completes them.

  \<^bold>\<open>The parts and the theories that model them.\<close> Each theory keeps the order and the
  names of its source file; a name that HOL uses already carries the component's name.

  \<^item> \<open>internal/model\<close>, \<open>internal/apperr\<close>: \<open>Model\<close> (records with the fields of the structs,
    pointers as options, the open string enumerations as strings, retry backoff, reserved
    headers) and \<open>Recurrence\<close> (the four cadences and the three functions that dispatch on
    them). They stand on \<open>GoTime\<close> (instants in nanoseconds, differences that saturate
    as in Go, the civil calendar, RFC 3339) and \<open>Float64\<close> (binary64 with
    round-to-nearest-even), which model what the source uses of the language's library.
  \<^item> \<open>internal/storage\<close>: \<open>Bolt\<close> is the interface of bbolt, \<open>Storage\<close> the transaction
    interface and its implementation with primary buckets, secondary index buckets, prefix
    scans and pages.
  \<^item> \<open>internal/command\<close>: \<open>Commands\<close>, the eleven handlers with every guard, and \<open>Dispatch\<close>.
  \<^item> \<open>internal/statemachine\<close>: \<open>StateMachine\<close>, that is \<open>Apply\<close>, \<open>Snapshot\<close>, \<open>Persist\<close>,
    \<open>Restore\<close> and \<open>Shutdown\<close>.
  \<^item> \<open>internal/raftnode\<close>: \<open>RaftNode\<close>, construction, proposals and the leader-gated reads
    with their catch-up barrier.
  \<^item> \<open>internal/scheduler\<close>: \<open>Worker\<close> (recovery, the tick, the tasks and the loop, as programs
    over the calls they make) and \<open>Supervisor\<close> (the goroutine that starts and stops workers
    as leadership changes, and the scheduler around it).
  \<^item> \<open>internal/api\<close>: \<open>RateLimit\<close> and \<open>Api\<close> (authentication, pagination, handlers, routes).
  \<^item> \<open>internal/config\<close>: \<open>Config\<close>. \<open>internal/node\<close> and \<open>cmd/scheduler\<close>: \<open>Node\<close>.

  \<^bold>\<open>Specifications and interfaces.\<close> \<open>TxContract\<close> states what the commands rely on from a
  transaction: the abstract database, four finite maps, and the locale \<open>tx_spec\<close> with the
  laws of each operation. \<open>StorageCorrect\<close> proves the laws for the bbolt transaction, for
  every store that satisfies the documented laws of bbolt (locale \<open>bolt_db\<close>), as a
  sublocale, with the invariant that the index buckets mirror the primary rows.
  \<open>CommandSpec\<close> is the abstract step relation of the commands and proves, inside \<open>tx_spec\<close>,
  that each handler implements it. \<open>DbInvariant\<close> shows the invariants of the abstract
  database and what no step undoes. \<open>Replication\<close> relates two stores with the same contents
  and shows that handlers cannot tell them apart (locale \<open>replica_store\<close>); the locale
  \<open>snapshot_store\<close> adds the file operations snapshots use. The locale \<open>raft_log\<close> in
  \<open>RaftReads\<close> states what the reads rely on from the Raft library. The locales over code
  outside the repository are interpreted on an executable store with sorted keys, on its
  file operations and on a cluster of one voter.

  \<^bold>\<open>What is shown.\<close>

  \<^item> The replicated state (this theory, \<open>CommandErrors\<close>, \<open>Pagination\<close>): a run is claimed at
    most once; finished executions are final; attempts are numbered without gaps; rows are
    well formed and history is never rewritten; applying an entry refines the abstract step;
    snapshot and replay agree; the due listing is exact; ended schedules are never due; races
    are refused without effect; pages cover listings; completing a run moves its schedule
    forward.
  \<^item> Recurrences (\<open>RecurrenceCorrect\<close>): each cadence returns the nearest slot of its grid, the
    bounded search over months finds it, and the next run is always later.
  \<^item> The worker (\<open>WorkerTraces\<close>, \<open>WorkerCorrect\<close>, \<open>Recovery\<close>): for every answer of the calls,
    the order of callback, attempt and completion, the headers, one first dispatch per
    claim, and that recovery leaves every execution in flight with the node.
  \<^item> The cluster (\<open>System\<close>, \<open>Cluster\<close>): any number of nodes that believe they lead, clients
    and goroutines interleaved at every call, with stale reads and proposals that commit
    late or never. The store stays sound and the first dispatch of a run is queued at most
    once.
  \<^item> Leadership (\<open>RaftReads\<close>, \<open>Supervisor\<close>): reads see every entry of earlier terms; at most
    one worker runs, none while the node was told that it does not lead, and stopping ends.
  \<^item> The edge (\<open>ApiCorrect\<close>, \<open>RateLimit\<close>, \<open>Config\<close>): requests without a credential are turned
    away, key hashes stay inside, a created key opens its tenant, limits and buckets stay
    within their bounds and \<open>Retry-After\<close> is honoured; accepted configurations are complete
    and peer lists round-trip.
  \<^item> \<open>Findings\<close> states where the code departs from its comments, its documentation or what
    its callers expect. \<open>Scenario\<close>, \<open>WorkerScenario\<close> and \<open>ClusterScenario\<close> are concrete runs on
    the executable store; the witnesses of the properties use them.

  \<^bold>\<open>Parameters and hypotheses.\<close> bbolt, the Raft library, the time zone database, the HTTP
  transport, the ID generator, the clock, SHA-256 and random bytes are parameters. IDs are
  assumed to hold no colon wherever an ID is followed by another component in a key, since
  keys are joined and not escaped, and new execution and attempt IDs are assumed fresh
  (they are ULIDs). The calendar cadences are proved for locations with a fixed offset;
  the definitions take any location.

  \<^bold>\<open>Bounds and fuel.\<close> No definition runs out of fuel. The search over months keeps the
  bound of the source and is shown to find a slot within it. A run of the worker's loop is
  given the list of the events its select takes, and programs end by construction because
  every listing they iterate over is finite. Machine integers are written out on \<open>int\<close> with
  the wrap-around where it can matter (interval offsets); counters of rows are unbounded integers.

  \<^bold>\<open>Not modelled.\<close> The bytes of JSON documents and request bodies (the outcome of decoding
  is modelled), sockets, log output, parsing of command line flags by the standard
  library, signals, and memory effects below the calls: a mutex makes its section
  atomic. \<open>internal/storage/bbolt.go\<close> is an empty file.
\<close>

section \<open>The replicated state\<close>

text \<open>
  C1. A run of a schedule is claimed at most once: in every store a replica can reach, two
  executions of one tenant for the same schedule and the same instant are the same
  execution. The store is any bbolt-like store; IDs in commands are free of the key
  separator and execution IDs are drawn fresh.
\<close>

theorem at_most_one_execution:
  assumes "row_store B" "reachable B P s"
    and "dbExecutions (store_view B s) (t, i) = Some e" "dbExecutions (store_view B s) (t, i') = Some e'"
    and "eScheduleID e = eScheduleID e'" "Equal (eScheduledFor e) (eScheduledFor e')"
  shows "i = i'"
  using row_store.reachable_inv [OF assms(1,2)] assms(3-) unfolding db_inv_def claims_unique_def by blast

theorem at_most_one_execution_witness:
  "dbExecutions (store_view memBolt store4) (''t'', ''e'') = Some exec2 \<and> ''e'' = ''e''"
  using at_most_one_execution [OF mem_rows.row_store_axioms demo_reachable(5) demo_views(8) demo_views(8)] demo_views(8)
  by (simp add: Equal_def)

text \<open>
  C2. A finished execution is final: whatever admissible log is applied afterwards, its row
  is the same, field for field.
\<close>

theorem finished_execution_final:
  assumes "row_store B" "reachable B P s" "admissible_log B P s es"
    and "dbExecutions (store_view B s) k = Some e" "IsTerminal (eStatus e)"
  shows "dbExecutions (store_view B (fst (replay B P s es))) k = Some e"
  using row_store.replay_reachable [OF assms(1-3)] assms(4,5)
  unfolding db_evolves_def execution_evolves_def by blast

theorem finished_execution_final_witness:
  "dbExecutions (store_view memBolt (fst (replay memBolt utcPlatform store4 [entry (CreateSchedule createS) 4])))
     (''t'', ''e'') = Some exec2"
proof -
  have "admissible_log memBolt utcPlatform store4 [entry (CreateSchedule createS) 4]"
    by (simp add: admissible_def createS_def no_colon_def)
  from finished_execution_final [OF mem_rows.row_store_axioms demo_reachable(5) this demo_views(8)]
  show ?thesis by (simp add: demo_sel)
qed





text \<open>
  C5. \<open>Apply\<close> refines the abstract specification: from a consistent store, an entry that is
  applied takes the abstract database through the command's step and leaves a store whose
  indexes are consistent again; an entry that is refused, or that panics, changes nothing.
\<close>

theorem apply_refines:
  assumes "row_store B" "store_inv B s" "admissible (store_view B s) (lePayload e)"
    and "Apply B P s (Inr e) = (s', resp)"
  shows "store_inv B s' \<and>
    (case resp of
       Applied r \<Rightarrow> db_step P (leProposedAt e) (lePayload e) (store_view B s) r (store_view B s')
     | _ \<Rightarrow> s' = s)"
  using assms(2-4)
  by (cases rule: row_store.apply_cases [OF assms(1)]) (use assms(2) in \<open>auto split: ApplyResponse.split\<close>)

theorem apply_refines_witness:
  "db_step utcPlatform (instant 1) (ClaimExecution claimE) (store_view memBolt store1) (ResExecution exec0)
     (store_view memBolt store2)"
proof -
  have "store_inv memBolt store1" using mem_rows.reachable_inv [OF demo_reachable(2)] by blast
  from apply_refines [OF mem_rows.row_store_axioms this _ demo_apply2] demo_admissible(2)
  show ?thesis by (simp add: entry_def)
qed

text \<open>
  C6. Restoring a snapshot and replaying the rest of the log ends where the replica that
  took the snapshot ends: the same responses and the same database, provided no entry
  panics on either.
\<close>

theorem snapshot_replay_agrees:
  assumes "snapshot_store B F" "Snapshot F sm = Inr tx" "Persist F sink tx = Inr img"
    and "Restore F sm' img = (sm'', None)"
    and "replay B P (smDB sm) es = (s', rs)" "replay B P (smDB sm'') es = (u', qs)"
    and "\<not> (\<exists>r \<in> set rs. panicked r)" "\<not> (\<exists>q \<in> set qs. panicked q)"
  shows "rs = qs \<and> store_view B s' = store_view B u'"
  by (rule snapshot_store.restore_then_replay [OF assms])

theorem snapshot_replay_agrees_witness:
  "fst (replay memBolt utcPlatform store1 [entry (ClaimExecution claimE) 1]) = store2 \<and>
   store_view memBolt store2 = store_view memBolt (fst (replay memBolt utcPlatform store1 [entry (ClaimExecution claimE) 1]))"
proof -
  let ?sm = "\<lparr>smDB = store1, smHandle = 1, smOpen = True\<rparr>" and ?new = "\<lparr>smDB = [], smHandle = 0, smOpen = True\<rparr> :: row mem StateMachine"
  have r: "replay memBolt utcPlatform store1 [entry (ClaimExecution claimE) 1] =
      (store2, [Applied (ResExecution exec0)])" by (simp add: demo_steps)
  have "Snapshot memFile ?sm = Inr store1" "Persist memFile (\<lambda>_. Inr ()) store1 = Inr store1"
    "Restore memFile ?new store1 = (?sm, None)"
    by (simp_all add: Snapshot_def Persist_def Restore_def memFile_def)
  from snapshot_replay_agrees [OF mem_snapshot.snapshot_store_axioms this] r show ?thesis by simp
qed

text \<open>
  C7. The listing of due schedules, which drives the scheduler, is exact: on a reachable
  store it ends without error and returns, in the order of their IDs, the tenant's active
  schedules whose next run is not in the future, each once.
\<close>

theorem due_listing_exact:
  assumes "row_store B" "reachable B P s" "no_colon t"
  shows "\<exists>xs. ListSchedulesDue (boltTx B) s t now = (xs, None) \<and> sorted_wrt (\<lambda>x y. sID x < sID y) xs \<and>
    set xs = {x. \<exists>i. dbSchedules (store_view B s) (t, i) = Some x \<and> sStatus x = ScheduleStatusActive \<and> isDue now x}"
proof -
  from row_store.reachable_inv [OF assms(1,2)] have "store_inv B s" by blast
  from tx_spec.list_due [OF row_store.is_tx [OF assms(1)] this assms(3), of now]
  show ?thesis by (rule lists_rowsE) blast
qed

theorem due_listing_exact_witness:
  "\<exists>xs. ListSchedulesDue (boltTx memBolt) store1 ''t'' (instant 1) = (xs, None) \<and> sched0 \<in> set xs"
  using due_listing_exact [OF mem_rows.row_store_axioms demo_reachable(2), of "''t''" "instant 1"] demo_views(1)
  by (auto simp: no_colon_def demo_sel isDue_def sched0_def After_def instant_def)

text \<open>
  C8. A canceled or completed schedule never fires again: after any further log it has no
  next run and is absent from the due listing, at any time.
\<close>

theorem ended_schedule_never_due:
  assumes "row_store B" "reachable B P s" "admissible_log B P s es" "no_colon t"
    and "dbSchedules (store_view B s) (t, i) = Some x"
    and "sStatus x \<in> {ScheduleStatusCanceled, ScheduleStatusCompleted}"
  shows "i \<notin> sID ` set (fst (ListSchedulesDue (boltTx B) (fst (replay B P s es)) t now))"
proof
  let ?s = "fst (replay B P s es)"
  assume "i \<in> sID ` set (fst (ListSchedulesDue (boltTx B) ?s t now))"
  then obtain y where y: "y \<in> set (fst (ListSchedulesDue (boltTx B) ?s t now))" "sID y = i" by blast
  from row_store.replay_reachable [OF assms(1-3)]
  have r: "reachable B P ?s" "db_evolves (store_view B s) (store_view B ?s)" by blast+
  from r(2) assms(5,6) obtain x' where x': "dbSchedules (store_view B ?s) (t, i) = Some x'"
    "sStatus x' \<in> {ScheduleStatusCanceled, ScheduleStatusCompleted}"
    unfolding db_evolves_def schedule_evolves_def by (metis insert_iff)
  from row_store.reachable_inv [OF assms(1) r(1)] have inv: "store_inv B ?s" by blast
  from tx_spec.list_due [OF row_store.is_tx [OF assms(1)] inv assms(4)] y(1)
  obtain j where j: "dbSchedules (store_view B ?s) (t, j) = Some y" "sStatus y = ScheduleStatusActive"
    unfolding lists_rows_def by blast
  from tx_spec.schedule_rows [OF row_store.is_tx [OF assms(1)] inv j(1)] j x' y(2) show False by auto
qed

theorem ended_schedule_never_due_witness:
  "''s'' \<notin> sID ` set (fst (ListSchedulesDue (boltTx memBolt)
     (fst (replay memBolt utcPlatform storeC [entry (ClaimExecution claimE) 2])) ''t'' (instant 9)))"
  by (rule ended_schedule_never_due [OF mem_rows.row_store_axioms demo_canceled(3), where x = schedC])
    (simp_all add: no_colon_def admissible_def claimE_def demo_canceled)

text \<open>
  C9. Executions are always in one of their two well-formed states: in flight with an owner
  and no result, or finished with a completion time and an outcome and no owner. The
  idempotency key is always the one derived from schedule and instant.
\<close>

theorem executions_well_formed:
  assumes "row_store B" "reachable B P s" "dbExecutions (store_view B s) k = Some e"
  shows "execution_ok e"
  using row_store.reachable_inv [OF assms(1,2)] assms(3) unfolding db_inv_def by blast

theorem executions_well_formed_witness: "execution_ok exec2"
  using executions_well_formed [OF mem_rows.row_store_axioms demo_reachable(5) demo_views(8)] .

text \<open>
  C10. Schedules are always well formed: one of the four states; a next run only while
  active; an active one-time schedule due exactly at its first run; a recurring schedule
  never completed; call timeout within bounds and no reserved header stored.
\<close>

theorem schedules_well_formed:
  assumes "row_store B" "reachable B P s" "dbSchedules (store_view B s) k = Some x"
  shows "schedule_ok x"
  using row_store.reachable_inv [OF assms(1,2)] assms(3) unfolding db_inv_def by blast

theorem schedules_well_formed_witness: "schedule_ok sched1"
  using schedules_well_formed [OF mem_rows.row_store_axioms demo_reachable(5) demo_views(9)] .

text \<open>
  C11. A second claim of the same run is refused with a conflict that names the execution
  holding it, and changes nothing.
\<close>

theorem second_claim_refused:
  assumes "row_store B" "reachable B P s" "no_colon (clTenantID c)" "no_colon (clScheduleID c)"
    and "clTenantID c \<noteq> []" "clScheduleID c \<noteq> []" "clID c \<noteq> []" "\<not> IsZero (clScheduledFor c)" "clOwnerNodeID c \<noteq> []"
    and "dbExecutions (store_view B s) (clTenantID c, i) = Some e" "eScheduleID e = clScheduleID c"
    and "Equal (eScheduledFor e) (clScheduledFor c)"
  shows "\<exists>ce. Apply B P s (Inr \<lparr>lePayload = ClaimExecution c, leProposedAt = now\<rparr>) = (s, Refused ce) \<and>
    ceKind ce = KindConflict \<and> ceDetails ce = [(''existing_execution_id'', i)]"
proof -
  from row_store.reachable_inv [OF assms(1,2)] have inv: "store_inv B s" "claims_unique (store_view B s)"
    by (auto simp: db_inv_def)
  have "i' = i" if "dbExecutions (store_view B s) (clTenantID c, i') = Some e'" "eScheduleID e' = clScheduleID c"
    "Equal (eScheduledFor e') (clScheduledFor c)" for i' e'
    using inv(2) that assms(10-12) unfolding claims_unique_def by (auto simp: Equal_def)
  from tx_spec.claim_refused [OF row_store.is_tx [OF assms(1)] inv(1) assms(3-12) this]
  show ?thesis by (auto intro!: apply_refused)
qed

theorem second_claim_refused_witness:
  "\<exists>ce. Apply memBolt utcPlatform store2
      (Inr \<lparr>lePayload = ClaimExecution (claimE\<lparr>clID := ''f'', clOwnerNodeID := ''n2''\<rparr>), leProposedAt = instant 2\<rparr>) =
     (store2, Refused ce) \<and> ceKind ce = KindConflict \<and> ceDetails ce = [(''existing_execution_id'', ''e'')]"
  by (rule second_claim_refused [OF mem_rows.row_store_axioms demo_reachable(3), where e = exec0])
    (simp_all add: claimE_def no_colon_def demo_views demo_sel instants Equal_def)

text \<open>
  C12. Only the owner reports: an attempt sent by any other node than the one that holds the
  execution, or for an execution that is no longer in flight, is refused and changes
  nothing. So a deposed leader cannot add attempts after another node adopted its work.
\<close>

theorem stale_attempt_refused:
  assumes "row_store B" "reachable B P s" "no_colon (raTenantID c)"
    and "dbExecutions (store_view B s) (raTenantID c, raExecutionID c) = Some e"
    and "eStatus e \<noteq> ExecutionStatusInFlight \<or> eOwnerNodeID e \<noteq> raNodeID c"
  shows "\<exists>ce. Apply B P s (Inr \<lparr>lePayload = RecordAttempt c, leProposedAt = now\<rparr>) = (s, Refused ce) \<and>
    ceKind ce \<in> {KindConflict, KindValidation}"
proof -
  from row_store.reachable_inv [OF assms(1,2)] have "store_inv B s" by blast
  from tx_spec.record_refused [OF row_store.is_tx [OF assms(1)] this assms(3-5)] obtain ce
    where "ApplyRecordAttempt (boltTx B) s c now = Inl (Rejected ce)" "ceKind ce \<in> {KindConflict, KindValidation}"
    by blast
  then show ?thesis by (auto intro!: apply_refused)
qed

theorem stale_attempt_refused_witness:
  "\<exists>ce. Apply memBolt utcPlatform store2
      (Inr \<lparr>lePayload = RecordAttempt (recordA\<lparr>raNodeID := ''n2''\<rparr>), leProposedAt = instant 2\<rparr>) = (store2, Refused ce) \<and>
    ceKind ce \<in> {KindConflict, KindValidation}"
  by (rule stale_attempt_refused [OF mem_rows.row_store_axioms demo_reachable(3), where e = exec0])
    (simp_all add: recordA_def no_colon_def demo_views demo_sel)

text \<open>
  C13. An execution is completed once: completing or timing out an execution that is already
  finished is refused and changes nothing, so its schedule advances once per run.
\<close>

theorem second_completion_refused:
  assumes "row_store B" "reachable B P s" "no_colon t"
    and "dbExecutions (store_view B s) (t, i) = Some e" "IsTerminal (eStatus e)"
    and "cmd = CompleteExecution c \<and> coTenantID c = t \<and> coExecutionID c = i \<or>
         cmd = FailExecutionTimeout f \<and> feTenantID f = t \<and> feExecutionID f = i"
  shows "\<exists>ce. Apply B P s (Inr \<lparr>lePayload = cmd, leProposedAt = now\<rparr>) = (s, Refused ce)"
proof -
  from row_store.reachable_inv [OF assms(1,2)] have inv: "store_inv B s" by blast
  from assms(6) have "\<exists>ce. Dispatch (boltTx B) P s cmd now = Inl (Rejected ce)"
  proof
    assume c: "cmd = CompleteExecution c \<and> coTenantID c = t \<and> coExecutionID c = i"
    with tx_spec.complete_refused [OF row_store.is_tx [OF assms(1)] inv, of c e P now] assms(3-5) show ?thesis by auto
  next
    assume f: "cmd = FailExecutionTimeout f \<and> feTenantID f = t \<and> feExecutionID f = i"
    with tx_spec.fail_refused [OF row_store.is_tx [OF assms(1)] inv, of f e P now] assms(3-5) show ?thesis by auto
  qed
  then show ?thesis by (auto intro!: apply_refused)
qed

theorem second_completion_refused_witness:
  "\<exists>ce. Apply memBolt utcPlatform store4 (Inr \<lparr>lePayload = CompleteExecution completeE, leProposedAt = instant 9\<rparr>) =
    (store4, Refused ce)"
  by (rule second_completion_refused [OF mem_rows.row_store_axioms demo_reachable(5), where e = exec2 and t = "''t''"
        and i = "''e''" and c = completeE])
    (simp_all add: completeE_def no_colon_def demo_views demo_sel)

section \<open>Progress of schedules\<close>

lemma advanced_active:
  assumes "advancedSchedule P msg e x = Inr y" "sScheduleType x = ScheduleTypeRecurring" "sStatus x = ScheduleStatusActive"
  shows "\<exists>nr. ComputeNextRunAfter P (sRecurrence x) ''UTC'' (sFirstRunAt x) (eScheduledFor e) = Inr (Some nr) \<and>
    y = x\<lparr>sNextRunAt := Some nr\<rparr>"
proof -
  from assms obtain r where r: "ComputeNextRunAfter P (sRecurrence x) ''UTC'' (sFirstRunAt x) (eScheduledFor e) = Inr r"
    "y = x\<lparr>sNextRunAt := r\<rparr>"
    by (auto simp: advancedSchedule_def split: sum.splits failure.splits)
  with next_run_after_Some [OF r(1)] show ?thesis by auto
qed



section \<open>Pagination\<close>

text \<open>
  C20. Paginated listings lose and repeat nothing: on a reachable store every page of the
  executions of a schedule, the executions in a state and the attempts of an execution is
  the next part of the full listing, and reading pages of any positive size until the
  cursor is empty gives exactly that listing.
\<close>

theorem pages_cover_listing:
  assumes "row_store B" "reachable B P s" "no_colon t" "no_colon j" "0 < limit"
  shows "(\<exists>xs. ListExecutionsBySchedule (boltTx B) s t j = (xs, None) \<and>
      (\<forall>cursor. ListExecutionsBySchedulePage (boltTx B) s t j (int limit) cursor = Inr (pageAfter eID xs limit cursor)) \<and>
      collectPages (Suc (length xs)) (pageAfter eID xs limit) [] = xs) \<and>
    (\<exists>xs. ListExecutionsByStatus (boltTx B) s t j = (xs, None) \<and>
      (\<forall>cursor. ListExecutionsByStatusPage (boltTx B) s t j (int limit) cursor = Inr (pageAfter eID xs limit cursor)) \<and>
      collectPages (Suc (length xs)) (pageAfter eID xs limit) [] = xs) \<and>
    (\<exists>xs. ListAttemptsByExecution (boltTx B) s t j = (xs, None) \<and>
      (\<forall>cursor. ListAttemptsByExecutionPage (boltTx B) s t j (int limit) cursor = Inr (pageAfter aID xs limit cursor)) \<and>
      collectPages (Suc (length xs)) (pageAfter aID xs limit) [] = xs)"
proof -
  from row_store.reachable_inv [OF assms(1,2)] have inv: "store_inv B s" and d: "db_inv (store_view B s)" by blast+
  note v = row_store.view_lookup [OF assms(1) inv]
  have e: "eID e \<noteq> []" if "e \<in> executions_of B s" for e
    using d v(2) [of "eTenantID e" "eID e" e] that by (auto simp: db_inv_def execution_ok_def)
  have a: "aID a \<noteq> []" if "a \<in> attempts_of B s" for a
    using d v(3) [of "aTenantID a" "aID a" a] that by (auto simp: db_inv_def attempts_numbered_def)
  note p = row_store.pages_of_store [OF assms(1) inv assms(3-5)]
  show ?thesis unfolding boltTx_def Tx.simps
    using listing_collected [OF p(1) e assms(5)] listing_collected [OF p(2) e assms(5)] listing_collected [OF p(3) a assms(5)]
    by simp
qed

theorem pages_cover_listing_witness:
  "\<exists>xs. ListExecutionsBySchedule (boltTx memBolt) store4 ''t'' ''s'' = (xs, None) \<and>
     collectPages (Suc (length xs)) (pageAfter eID xs 1) [] = xs"
  using pages_cover_listing [OF mem_rows.row_store_axioms demo_reachable(5), of "''t''" "''s''" 1]
  by (auto simp: no_colon_def)

section \<open>The worker\<close>

text \<open>
  C24. A dispatching task calls the callback at most once. It records the attempt only after
  the call, with the outcome of that call, and not at all when the call was canceled; it
  completes the execution only after the attempt was accepted, only when it is not to be
  retried, and with the status that belongs to the recorded outcome. This holds whatever
  the node, the callback, the clock and the context answer.
\<close>

theorem dispatch_protocol:
  assumes "task = FreshFire e \<or> task = InFlight KindRetry e"
  shows "\<exists>schedule i st ct res c r r'. sStatus schedule = ScheduleStatusActive \<and>
    c = recordCmd P N (wNodeID w) e schedule (attemptOf task) i st ct res \<and>
    prefix (fst (execute E (taskRun P N w task) s))
      [Called (callbackRequest w e schedule i) res, Proposed (RecordAttempt c) r,
       Proposed (CompleteExecution (completeCmd (raTenantID c) (eID e) (finalStatusFor (raOutcome c)) (raOutcome c))) r'] \<and>
    (2 \<le> length (fst (execute E (taskRun P N w task) s)) \<longrightarrow> snd res \<noteq> Some Canceled) \<and>
    (length (fst (execute E (taskRun P N w task) s)) = 3 \<longrightarrow> \<not> refusedBy r \<and> raOutcome c \<noteq> OutcomeRetry)"
  by (rule task_trace [OF assms, unfolded dispatch_trace_def])

theorem dispatch_protocol_witness:
  "\<exists>schedule i st ct res c r r'. sStatus schedule = ScheduleStatusActive \<and>
    c = recordCmd utcPlatform okNet ''n1'' exec0 schedule 1 i st ct res \<and> \<not> refusedBy r \<and>
    fst (execute okEnv (taskRun utcPlatform okNet (NewWorker ''n1'') (FreshFire exec0)) ()) =
      [Called (callbackRequest (NewWorker ''n1'') exec0 schedule i) res, Proposed (RecordAttempt c) r,
       Proposed (CompleteExecution (completeCmd (raTenantID c) ''e'' (finalStatusFor (raOutcome c)) (raOutcome c))) r']"
proof -
  let ?evs = "fst (execute okEnv (taskRun utcPlatform okNet (NewWorker ''n1'') (FreshFire exec0)) ())"
  have full: "xs = ys" if "prefix xs ys" "length xs = length ys" for xs ys :: "event list"
    using that by (auto simp: prefix_def)
  have "prefix ?evs [x, y, z] \<Longrightarrow> ?evs = [x, y, z]" for x y z
    by (rule full) (simp_all only: ok_dispatch list.size numeral_3_eq_3 add_0 add_Suc_right)
  with dispatch_protocol [of "FreshFire exec0" exec0 utcPlatform okNet "NewWorker ''n1''" okEnv "()"] ok_dispatch
  show ?thesis by (fastforce simp: NewWorker_def demo_sel)
qed

text \<open>
  C26. Reads never miss what earlier leaders committed: when a leader-gated read answers, the
  log its state machine had applied contains every entry committed in a term before the one
  the node was in when the read began, and the answer is the query's on that log's database.
  The node's record of the term it caught up in stays true. The Raft library enters by its
  documented guarantees only.
\<close>

theorem leader_reads_caught_up:
  assumes "raft_log R B P s0 ok step term_of lg appliedTerm prior"
    and "ok (rnRaft rn)" "rnReadyTerm rn \<le> appliedTerm (rnRaft rn)" "leaderRead R msg fn rn = (rn', Inr x)"
  shows "ok (rnRaft rn') \<and> rnReadyTerm rn' \<le> appliedTerm (rnRaft rn') \<and>
    prefix (prior (rnRaft rn') (term_of (rnRaft rn))) (lg (rnRaft rn')) \<and>
    (\<exists>db. reads_same B db (fst (replay B P s0 (lg (rnRaft rn')))) \<and> fn db = Inr x)"
proof -
  have "raft_log.node_ok ok appliedTerm rn" using assms(2,3) by (simp add: raft_log.node_ok_def [OF assms(1)])
  from raft_log.leader_read [OF assms(1) this assms(4)] show ?thesis by (auto simp: raft_log.node_ok_def [OF assms(1)])
qed

theorem leader_reads_caught_up_witness:
  "prefix [entry (CreateSchedule createS) 0] (soloEntries (slLog (rnRaft (fst (rnGetSchedule (soloRaft utcPlatform) memBolt soloNode ''t'' ''s'')))))"
proof -
  let ?out = "rnGetSchedule (soloRaft utcPlatform) memBolt soloNode ''t'' ''s''"
  have out: "?out = (fst ?out, Inr (Some sched0))" using solo_read by (metis prod.collapse)
  have ok: "soloOk utcPlatform (rnRaft soloNode)" "rnReadyTerm soloNode \<le> soloAppliedTerm (rnRaft soloNode)"
    using soloNode_ok unfolding solo_log.node_ok_def by blast+
  have "soloPrior (rnRaft (fst ?out)) (slTerm (rnRaft soloNode)) = [entry (CreateSchedule createS) 0]"
    by (simp add: rnGetSchedule_def leaderRead_def soloRaft_def soloNode_def soloLeader_def ensureCaughtUpAsLeader_def soloBarrier_def soloPrior_def)
  with leader_reads_caught_up [OF solo_log.raft_log_axioms ok out [unfolded rnGetSchedule_def]] show ?thesis
    by (simp add: rnGetSchedule_def)
qed



end
